(* ===== verification/Wifi_Prelude.thy ===== *)
theory Wifi_Prelude
  imports Main "HOL-Library.Word" "HOL-Library.Monad_Syntax"
begin

text \<open>
  The vocabulary shared by every component of the AR4100/AR400X host driver:
  the C integer types of \<^verbatim>\<open>custom_src/include/a_types.h\<close> as words, the status codes of
  \<^verbatim>\<open>include/athdefs.h\<close>, \<open>A_ASSERT\<close>, little-endian byte access, the flat byte
  memory the packet buffers live in, and the generic lemmas on them.

  A call that does not return (a failed \<open>A_ASSERT\<close> ends in the endless loop of
  \<open>assert_func\<close>, \<^verbatim>\<open>common_src/driver/driver_main.c\<close>) is the value \<open>None\<close>; a call that
  returns is \<open>Some\<close> of its result and the new state. The configuration is the one of
  \<^verbatim>\<open>custom_src/include/a_config.h\<close>: asserts enabled, little-endian host, one RX free queue.
\<close>

unbundle bit_operations_syntax

section \<open>C types\<close>

type_synonym u8 = "8 word"
type_synonym u16 = "16 word"
type_synonym u32 = "32 word"

text \<open>A pointer is a 32-bit address (the code itself casts pointers to \<open>QOSAL_UINT32\<close>);
  \<open>NULL\<close> is address 0.\<close>

type_synonym ptr = "32 word"

abbreviation NULL :: ptr where "NULL \<equiv> 0"

type_synonym memory = "ptr \<Rightarrow> u8"

datatype A_STATUS = A_ERROR | A_OK | A_DEVICE_NOT_FOUND | A_NO_MEMORY | A_MEMORY_NOT_AVAIL
  | A_NO_FREE_DESC | A_BAD_ADDRESS | A_WIN_DRIVER_ERROR | A_REGS_NOT_MAPPED | A_EPERM
  | A_EACCES | A_ENOENT | A_EEXIST | A_EFAULT | A_EBUSY | A_EINVAL | A_EMSGSIZE | A_ECANCELED
  | A_ENOTSUP | A_ECOMM | A_EPROTO | A_ENODEV | A_EDEVNOTUP | A_NO_RESOURCE | A_HARDWARE
  | A_PENDING | A_EBADCHANNEL | A_DECRYPT_ERROR | A_PHY_ERROR | A_CONSUMED
  | A_SOCKCXT_NOT_FOUND | A_UNKNOWN_CMD | A_SOCK_UNAVAILABLE | A_MEMFREE_ERROR

section \<open>Assertions\<close>

definition A_ASSERT :: "bool \<Rightarrow> unit option" where
  "A_ASSERT e = (if e then Some () else None)"

named_theorems returns_simps \<open>rewriting of calls that return\<close>

lemma A_ASSERT_simps [simp]:
  "A_ASSERT True = Some ()" "A_ASSERT False = None"
  by (simp_all add: A_ASSERT_def)

lemma A_ASSERT_eq_Some [simp]: "A_ASSERT e = Some u \<longleftrightarrow> e"
  by (simp add: A_ASSERT_def)

lemma A_ASSERT_bind_Some [returns_simps]:
  "Option.bind (A_ASSERT e) f = Some x \<longleftrightarrow> e \<and> f () = Some x"
  by (simp add: A_ASSERT_def)

lemma A_ASSERT_bind_None [returns_simps]:
  "Option.bind (A_ASSERT e) f = None \<longleftrightarrow> (e \<longrightarrow> f () = None)"
  by (simp add: A_ASSERT_def)

lemmas [returns_simps] = bind_eq_Some_conv

section \<open>Bits and bytes\<close>

text \<open>\<open>(w >> 8*i) & 0xff\<close>, byte \<open>i\<close> of a little-endian word.\<close>

definition byte_of :: "nat \<Rightarrow> 'a::len word \<Rightarrow> u8" where
  "byte_of i w = ucast (drop_bit (8 * i) w)"

text \<open>\<open>A_GET_UINT16_FIELD\<close> and the four byte stores that assemble a lookahead.\<close>

definition le16 :: "u8 \<Rightarrow> u8 \<Rightarrow> u16" where
  "le16 b0 b1 = ucast b0 OR push_bit 8 (ucast b1)"

definition le32 :: "u8 \<Rightarrow> u8 \<Rightarrow> u8 \<Rightarrow> u8 \<Rightarrow> u32" where
  "le32 b0 b1 b2 b3 = ucast b0 OR push_bit 8 (ucast b1) OR push_bit 16 (ucast b2)
     OR push_bit 24 (ucast b3)"

text \<open>\<open>A_CPU2BE16\<close>/\<open>A_BE2CPU16\<close> on a little-endian host.\<close>

definition swap16 :: "u16 \<Rightarrow> u16" where
  "swap16 x = (push_bit 8 x AND 0xff00) OR (drop_bit 8 x AND 0x00ff)"

lemma le16_bytes [simp]: "le16 (byte_of 0 w) (byte_of (Suc 0) w) = w"
  by (rule bit_word_eqI)
     (auto simp: le16_def byte_of_def bit_simps)

lemma byte_of_le16 [simp]: "byte_of 0 (le16 a b) = a" "byte_of (Suc 0) (le16 a b) = b"
  by (rule bit_word_eqI; auto simp: le16_def byte_of_def bit_simps
        dest: bit_imp_le_length)+

lemma le32_bytes [simp]:
  "le32 (byte_of 0 w) (byte_of (Suc 0) w) (byte_of 2 w) (byte_of 3 w) = w"
proof (rule bit_word_eqI)
  fix n assume "n < LENGTH(32)"
  then show "bit (le32 (byte_of 0 w) (byte_of (Suc 0) w) (byte_of 2 w) (byte_of 3 w)) n \<longleftrightarrow> bit w n"
    by (cases "n < 8"; cases "n < 16"; cases "n < 24")
       (auto simp: le32_def byte_of_def bit_simps)
qed

lemma byte_of_le32 [simp]:
  "byte_of 0 (le32 a b c d) = a" "byte_of (Suc 0) (le32 a b c d) = b"
  "byte_of 2 (le32 a b c d) = c" "byte_of 3 (le32 a b c d) = d"
  by (rule bit_word_eqI; auto simp: le32_def byte_of_def bit_simps
        dest: bit_imp_le_length)+

lemma swap16_eq: "swap16 x = le16 (byte_of (Suc 0) x) (byte_of 0 x)"
proof -
  have m: "(0xff00 :: u16) = push_bit 8 (mask 8)" "(0x00ff :: u16) = mask 8"
    by (simp_all add: mask_eq_exp_minus_1)
  show ?thesis
    unfolding swap16_def m
    by (rule bit_word_eqI) (auto simp: le16_def byte_of_def bit_simps)
qed

lemma swap16_swap16 [simp]: "swap16 (swap16 x) = x"
  by (simp add: swap16_eq)

section \<open>Unsigned arithmetic that does not wrap\<close>

lemma unat_diff_word: "(b :: 'a::len word) \<le> a \<Longrightarrow> unat (a - b) = unat a - unat b"
  by (simp add: unat_sub_if_size word_le_nat_alt)

lemma unat_add_no_wrap:
  "unat a + unat b < 2 ^ LENGTH('a) \<Longrightarrow> unat (a + b) = unat a + unat (b :: 'a::len word)"
  by (simp add: unat_word_ariths)

lemma word_minus_le:
  assumes "(h :: 'a::len word) \<le> d" "n \<le> d - h"
  shows "h \<le> d - n \<and> d - n \<le> d \<and> unat (d - n) = unat d - unat n \<and> unat n \<le> unat d"
proof -
  have n: "unat n \<le> unat d - unat h" "unat h \<le> unat d"
    using assms by (simp_all add: word_le_nat_alt unat_diff_word)
  then have "n \<le> d" by (simp add: word_le_nat_alt)
  then have "unat (d - n) = unat d - unat n" by (rule unat_diff_word)
  with n show ?thesis by (auto simp: word_le_nat_alt)
qed

lemma word_plus_le:
  assumes "(t :: 'a::len word) \<le> e" "n \<le> e - t"
  shows "t \<le> t + n \<and> t + n \<le> e \<and> unat (t + n) = unat t + unat n"
proof -
  have "unat n \<le> unat e - unat t" "unat t \<le> unat e"
    using assms by (simp_all add: word_le_nat_alt unat_diff_word)
  moreover have "unat e < 2 ^ LENGTH('a)" by (rule unsigned_less)
  ultimately have "unat t + unat n < 2 ^ LENGTH('a)" "unat t + unat n \<le> unat e" by linarith+
  then show ?thesis by (simp add: word_le_nat_alt unat_add_no_wrap)
qed

section \<open>Byte memory\<close>

text \<open>The \<open>n\<close> bytes at address \<open>a\<close>; a store of bytes at \<open>a\<close>, lowest address first;
  \<open>A_MEMCPY\<close> (the ranges of a legal call do not overlap).\<close>

definition mem_bytes :: "memory \<Rightarrow> ptr \<Rightarrow> nat \<Rightarrow> u8 list" where
  "mem_bytes m a n = map (\<lambda>i. m (a + of_nat i)) [0..<n]"

primrec mem_put :: "memory \<Rightarrow> ptr \<Rightarrow> u8 list \<Rightarrow> memory" where
  "mem_put m a [] = m"
| "mem_put m a (b # bs) = mem_put (m(a := b)) (a + 1) bs"

definition A_MEMCPY :: "memory \<Rightarrow> ptr \<Rightarrow> ptr \<Rightarrow> u32 \<Rightarrow> memory" where
  "A_MEMCPY m dst src len = mem_put m dst (mem_bytes m src (unat len))"

text \<open>Little-endian integers in memory.\<close>

definition mem16 :: "memory \<Rightarrow> ptr \<Rightarrow> u16" where
  "mem16 m a = le16 (m a) (m (a + 1))"

definition le16_bytes_of :: "u16 \<Rightarrow> u8 list" where
  "le16_bytes_of w = [byte_of 0 w, byte_of 1 w]"

definition mem32 :: "memory \<Rightarrow> ptr \<Rightarrow> u32" where
  "mem32 m a = le32 (m a) (m (a + 1)) (m (a + 2)) (m (a + 3))"

definition le32_bytes_of :: "u32 \<Rightarrow> u8 list" where
  "le32_bytes_of w = [byte_of 0 w, byte_of 1 w, byte_of 2 w, byte_of 3 w]"

lemma length_mem_bytes [simp]: "length (mem_bytes m a n) = n"
  by (simp add: mem_bytes_def)

lemma nth_mem_bytes [simp]: "i < n \<Longrightarrow> mem_bytes m a n ! i = m (a + of_nat i)"
  by (simp add: mem_bytes_def)

lemma mem_put_apply:
  "length bs \<le> 2 ^ 32 \<Longrightarrow>
   mem_put m a bs x = (if unat (x - a) < length bs then bs ! unat (x - a) else m x)"
proof (induction bs arbitrary: m a)
  case Nil
  then show ?case by simp
next
  case (Cons b bs)
  show ?case
  proof (cases "x = a")
    case True
    have "unat (a - (a + 1)) = 2 ^ 32 - 1"
      by (simp add: unsigned_minus_1_eq_mask mask_eq_exp_minus_1)
    with Cons True show ?thesis by simp
  next
    case False
    then have "x - a \<noteq> 0" by simp
    then have "unat (x - a - 1) = unat (x - a) - 1" and "0 < unat (x - a)"
      by (simp_all add: unat_minus_one unat_gt_0)
    then have "unat (x - (a + 1)) = unat (x - a) - 1" and "0 < unat (x - a)"
      by (simp_all add: diff_diff_eq)
    then show ?thesis using Cons False by (auto simp: nth_Cons')
  qed
qed

lemma mem_put_outside:
  "length bs \<le> 2 ^ 32 \<Longrightarrow> length bs \<le> unat (x - a) \<Longrightarrow> mem_put m a bs x = m x"
  by (simp add: mem_put_apply)

lemma mem_bytes_mem_put:
  assumes "length bs \<le> 2 ^ 32"
  shows "mem_bytes (mem_put m a bs) a (length bs) = bs"
proof (rule nth_equalityI)
  fix i assume "i < length (mem_bytes (mem_put m a bs) a (length bs))"
  with assms show "mem_bytes (mem_put m a bs) a (length bs) ! i = bs ! i"
    by (simp add: mem_put_apply unat_of_nat)
qed simp

lemma unat_lt_2p32: "unat (a :: ptr) < 2 ^ 32"
  using unsigned_less [of a, where ?'a = nat] by simp

lemma unat_le_2p32: "unat (a :: ptr) \<le> 2 ^ 32"
  using unsigned_less [of a, where ?'a = nat] by simp

lemma unat_offset: "unat (b :: ptr) + i < 2 ^ 32 \<Longrightarrow> unat (b + of_nat i) = unat b + i"
  by (subst unat_add_no_wrap) (simp_all add: unat_of_nat)

lemma mem_bytes_mem_put_after:
  assumes "unat a + length bs \<le> unat b" "unat b + n \<le> 2 ^ 32"
  shows "mem_bytes (mem_put m a bs) b n = mem_bytes m b n"
proof (rule nth_equalityI)
  fix i assume "i < length (mem_bytes (mem_put m a bs) b n)"
  then have i: "i < n" by simp
  then have off: "unat (b + of_nat i) = unat b + i" using assms by (intro unat_offset) linarith
  then have "a \<le> b + of_nat i" using assms(1) by (simp add: word_le_nat_alt)
  then have "unat (b + of_nat i - a) = unat b + i - unat a" by (simp add: unat_diff_word off)
  moreover have "length bs \<le> 2 ^ 32" using assms(1) unat_le_2p32 [of b] by linarith
  ultimately show "mem_bytes (mem_put m a bs) b n ! i = mem_bytes m b n ! i"
    using i assms(1) by (simp add: mem_put_outside)
qed simp

lemma mem_bytes_mem_put_before:
  assumes "unat b + n \<le> unat a" "unat a + length bs \<le> 2 ^ 32"
  shows "mem_bytes (mem_put m a bs) b n = mem_bytes m b n"
proof (rule nth_equalityI)
  fix i assume "i < length (mem_bytes (mem_put m a bs) b n)"
  then have i: "i < n" by simp
  have off: "unat (b + of_nat i) = unat b + i"
    using i assms unat_lt_2p32 [of a] by (intro unat_offset) linarith
  then have lt: "\<not> a \<le> b + of_nat i" using assms(1) i by (simp add: word_le_nat_alt)
  have "unat (b + of_nat i - a) = 2 ^ 32 + unat (b + of_nat i) - unat a"
    using lt by (simp add: unat_sub_if_size word_le_nat_alt word_size)
  with off assms i show "mem_bytes (mem_put m a bs) b n ! i = mem_bytes m b n ! i"
    by (simp add: mem_put_outside)
qed simp

lemma mem_bytes_copied [simp]:
  "mem_bytes (mem_put m a (mem_bytes m' b (unat len))) a (unat (len :: ptr)) = mem_bytes m' b (unat len)"
  using mem_bytes_mem_put [of "mem_bytes m' b (unat len)" m a] unat_le_2p32 [of len] by simp

lemma mem_bytes_add: "mem_bytes m a (n + k) = mem_bytes m a n @ mem_bytes m (a + of_nat n) k"
  by (rule nth_equalityI) (auto simp: nth_append mem_bytes_def algebra_simps)

text \<open>The bytes \<open>bs\<close> are in memory at \<open>a\<close>.\<close>

definition mem_has :: "memory \<Rightarrow> ptr \<Rightarrow> u8 list \<Rightarrow> bool" where
  "mem_has m a bs \<longleftrightarrow> mem_bytes m a (length bs) = bs"

lemma mem_has_Nil [simp]: "mem_has m a []"
  by (simp add: mem_has_def mem_bytes_def)

lemma mem_has_append [simp]: "mem_has m a (xs @ ys) \<longleftrightarrow> mem_has m a xs \<and> mem_has m (a + of_nat (length xs)) ys"
  by (simp add: mem_has_def mem_bytes_add)

lemma mem_has_Cons [simp]: "mem_has m a (b # bs) \<longleftrightarrow> m a = b \<and> mem_has m (a + 1) bs"
  using mem_has_append [of m a "[b]" bs] by (simp add: mem_has_def mem_bytes_def)

lemma mem_has_le16: "mem_has m a (le16_bytes_of w) \<Longrightarrow> mem16 m a = w"
  by (auto simp: le16_bytes_of_def mem16_def)

lemma mem_has_le32: "mem_has m a (le32_bytes_of w) \<Longrightarrow> mem32 m a = w"
  by (auto simp: le32_bytes_of_def mem32_def add.commute)

lemma length_le_words [simp]: "length (le16_bytes_of w) = 2" "length (le32_bytes_of w') = 4"
  by (simp_all add: le16_bytes_of_def le32_bytes_of_def)

end
