(* ===== verification/Rcv_Aggr.thy ===== *)
theory Rcv_Aggr
  imports Wifi_Prelude
begin

text \<open>
  Receive aggregation, \<^verbatim>\<open>common_src/reorder/rcv_aggr.c\<close>: the driver keeps the last sequence
  number it forwarded for each traffic id and drops frames that are behind it. The context
  \<open>aggr_context\<close> is the record below, \<open>seq_last[NUM_OF_TIDS]\<close> a function on the index;
  every index is below \<open>NUM_OF_TIDS\<close> because each operation asserts it first.
\<close>

definition NUM_OF_TIDS :: nat where "NUM_OF_TIDS = 8"
definition IEEE80211_MAX_SEQ_NO :: u16 where "IEEE80211_MAX_SEQ_NO = 0xFFF"

record AGGR_INFO =
  aggr_enabled_tid_mask :: u32
  seq_last :: "nat \<Rightarrow> u16"

definition aggr_reset_state :: "AGGR_INFO \<Rightarrow> AGGR_INFO" where
  "aggr_reset_state a = a\<lparr>aggr_enabled_tid_mask := 0\<rparr>"

definition aggr_init :: "AGGR_INFO \<Rightarrow> AGGR_INFO" where
  "aggr_init aggr_context = aggr_reset_state aggr_context"

definition aggr_recv_addba_req_evt :: "AGGR_INFO \<Rightarrow> u8 \<Rightarrow> u16 \<Rightarrow> u8 \<Rightarrow> AGGR_INFO option" where
  "aggr_recv_addba_req_evt a tidaid seq_no win_sz = (
     let tid = unat (tidaid AND 0xF) in do {
       A_ASSERT (tid < NUM_OF_TIDS);
       Some (a\<lparr>aggr_enabled_tid_mask := aggr_enabled_tid_mask a OR push_bit tid 1,
               seq_last := (seq_last a)(tid := seq_no)\<rparr>)
     })"

definition aggr_recv_delba_req_evt :: "AGGR_INFO \<Rightarrow> u8 \<Rightarrow> AGGR_INFO option" where
  "aggr_recv_delba_req_evt a tidaid = (
     let tid = unat (tidaid AND 0xF) in do {
       A_ASSERT (tid < NUM_OF_TIDS);
       Some (a\<lparr>aggr_enabled_tid_mask := aggr_enabled_tid_mask a AND NOT (push_bit tid 1)\<rparr>)
     })"

text \<open>The first test of \<open>aggr_process_recv_frm\<close> is written
  \<open>!p_aggr->aggr_enabled_tid_mask & (1<<tid)\<close>, which C reads as
  \<open>(!mask) & (1<<tid)\<close>.\<close>

definition aggr_bypass :: "u32 \<Rightarrow> nat \<Rightarrow> bool" where
  "aggr_bypass tid_mask tid \<longleftrightarrow> ((if tid_mask = 0 then 1 else 0 :: u32) AND push_bit tid 1) \<noteq> 0"

definition aggr_process_recv_frm :: "AGGR_INFO \<Rightarrow> u8 \<Rightarrow> u16 \<Rightarrow> (bool \<times> AGGR_INFO) option" where
  "aggr_process_recv_frm a tid seq_no = do {
     A_ASSERT (unat tid < NUM_OF_TIDS);
     (if aggr_bypass (aggr_enabled_tid_mask a) (unat tid) then Some (True, a)
      else let prev = seq_last a (unat tid) in
        if prev > seq_no \<and> prev - seq_no \<le> drop_bit 1 IEEE80211_MAX_SEQ_NO then Some (False, a)
        else if \<not> prev > seq_no \<and> seq_no - prev > drop_bit 1 IEEE80211_MAX_SEQ_NO then Some (False, a)
        else Some (True, a\<lparr>seq_last := (seq_last a)(unat tid := seq_no)\<rparr>))
   }"

section \<open>Lemmas\<close>

lemma aggr_bypass_eq: "aggr_bypass tid_mask tid \<longleftrightarrow> tid_mask = 0 \<and> tid = 0"
proof -
  have "(1 :: u32) AND push_bit tid 1 = (if tid = 0 then 1 else 0)"
    by (rule bit_word_eqI) (auto simp: bit_simps)
  then show ?thesis by (simp add: aggr_bypass_def)
qed

lemma half_window [simp]: "drop_bit (Suc 0) IEEE80211_MAX_SEQ_NO = 2047"
  by (simp add: IEEE80211_MAX_SEQ_NO_def)

text \<open>The forward distance from one 12-bit sequence number to the next.\<close>

definition seq_ahead :: "u16 \<Rightarrow> u16 \<Rightarrow> nat" where
  "seq_ahead prev seq_no = (unat seq_no + 4096 - unat prev) mod 4096"

lemma seq_ahead_cases:
  assumes "unat prev < 4096" "unat seq_no < 4096"
  shows "seq_ahead prev seq_no =
    (if unat seq_no < unat prev then 4096 + unat seq_no - unat prev else unat seq_no - unat prev)"
proof (cases "unat seq_no < unat prev")
  case True
  with assms show ?thesis by (simp add: seq_ahead_def)
next
  case False
  then have eq: "unat seq_no + 4096 - unat prev = (unat seq_no - unat prev) + 4096" by arith
  have "unat seq_no - unat prev < 4096" using assms by arith
  then have "seq_ahead prev seq_no = unat seq_no - unat prev"
    unfolding seq_ahead_def eq mod_add_self2 by (rule mod_less)
  with False show ?thesis by simp
qed

lemma window_test:
  fixes prev seq_no :: u16
  assumes "unat prev < 4096" "unat seq_no < 4096"
  shows "(prev > seq_no \<and> prev - seq_no \<le> 2047 \<or> \<not> prev > seq_no \<and> seq_no - prev > 2047)
    \<longleftrightarrow> \<not> (seq_ahead prev seq_no < 2048 \<or> seq_ahead prev seq_no = 2048 \<and> seq_no < prev)"
proof (cases "seq_no < prev")
  case True
  then have "unat (prev - seq_no) = unat prev - unat seq_no" by (simp add: unat_diff_word)
  with True assms show ?thesis
    by (auto simp: seq_ahead_cases word_le_nat_alt word_less_nat_alt)
next
  case False
  then have "unat (seq_no - prev) = unat seq_no - unat prev" by (simp add: unat_diff_word)
  with False assms show ?thesis
    by (auto simp: seq_ahead_cases word_le_nat_alt word_less_nat_alt)
qed

text \<open>A frame and its outcome in one equation.\<close>

lemma aggr_process_recv_frm_eq:
  assumes "unat tid < 8" "unat (seq_last a (unat tid)) < 4096" "unat seq_no < 4096"
  shows "aggr_process_recv_frm a tid seq_no = Some
    (if aggr_enabled_tid_mask a = 0 \<and> tid = 0 then (True, a)
     else if seq_ahead (seq_last a (unat tid)) seq_no < 2048 \<or>
             seq_ahead (seq_last a (unat tid)) seq_no = 2048 \<and> seq_no < seq_last a (unat tid)
     then (True, a\<lparr>seq_last := (seq_last a)(unat tid := seq_no)\<rparr>) else (False, a))"
  using window_test [OF assms(2,3)] assms(1)
  by (auto simp: aggr_process_recv_frm_def NUM_OF_TIDS_def aggr_bypass_eq Let_def unat_eq_0)

section \<open>Runs of the component\<close>

datatype aggr_event = Addba u8 u16 u8 | Delba u8 | Reset | Frame u8 u16

text \<open>The context after a list of events, with the frames forwarded, oldest first.\<close>

fun aggr_run :: "AGGR_INFO \<Rightarrow> aggr_event list \<Rightarrow> ((u8 \<times> u16) list \<times> AGGR_INFO) option" where
  "aggr_run a [] = Some ([], a)"
| "aggr_run a (Addba t s w # es) = do {a' \<leftarrow> aggr_recv_addba_req_evt a t s w; aggr_run a' es}"
| "aggr_run a (Delba t # es) = do {a' \<leftarrow> aggr_recv_delba_req_evt a t; aggr_run a' es}"
| "aggr_run a (Reset # es) = aggr_run (aggr_reset_state a) es"
| "aggr_run a (Frame t s # es) = do {
     (ok, a') \<leftarrow> aggr_process_recv_frm a t s;
     (out, a'') \<leftarrow> aggr_run a' es;
     Some (if ok then (t, s) # out else out, a'')}"

text \<open>The forwarded frames of one traffic id never step back by up to half the sequence space.\<close>

fun in_order :: "u16 \<Rightarrow> u16 list \<Rightarrow> bool" where
  "in_order prev [] \<longleftrightarrow> True"
| "in_order prev (s # ss) \<longleftrightarrow> seq_ahead prev s \<le> 2048 \<and> in_order s ss"

definition of_tid :: "u8 \<Rightarrow> (u8 \<times> u16) list \<Rightarrow> u16 list" where
  "of_tid t out = map snd (filter (\<lambda>f. fst f = t) out)"

lemma of_tid_simps [simp]:
  "of_tid t [] = []" "of_tid t ((t', s) # out) = (if t' = t then s # of_tid t out else of_tid t out)"
  by (simp_all add: of_tid_def)

text \<open>A traffic id has a block-ack session when its bit of the mask is set. While the session lasts, sequence numbers
  have 12 bits and no request concerns the same traffic id; requests for the other ids may come at any time.\<close>

definition has_session :: "AGGR_INFO \<Rightarrow> u8 \<Rightarrow> bool" where
  "has_session a t \<longleftrightarrow> bit (aggr_enabled_tid_mask a) (unat t)"

fun within_session :: "u8 \<Rightarrow> aggr_event \<Rightarrow> bool" where
  "within_session t (Frame t' s) \<longleftrightarrow> unat s < 4096"
| "within_session t (Addba t' s w) \<longleftrightarrow> t' AND 0xF \<noteq> t"
| "within_session t (Delba t') \<longleftrightarrow> t' AND 0xF \<noteq> t"
| "within_session t Reset \<longleftrightarrow> False"

lemma tid_neq: "(x :: u8) \<noteq> y \<Longrightarrow> unat x \<noteq> unat y"
  by (simp add: word_unat_eq_iff)

lemma session_no_bypass: "has_session a t \<Longrightarrow> \<not> (aggr_enabled_tid_mask a = 0 \<and> t = 0)"
  by (auto simp: has_session_def)

lemma addba_Some:
  assumes "aggr_recv_addba_req_evt a aid s w = Some a'"
  shows "seq_last a' = (seq_last a)(unat (aid AND 0xF) := s)" "has_session a' (aid AND 0xF)" "has_session a t \<Longrightarrow> has_session a' t"
  using assms by (auto simp: aggr_recv_addba_req_evt_def Let_def A_ASSERT_bind_Some has_session_def bit_simps NUM_OF_TIDS_def)

lemma delba_Some:
  assumes "aggr_recv_delba_req_evt a aid = Some a'" "aid AND 0xF \<noteq> t"
  shows "seq_last a' = seq_last a" "has_session a t \<Longrightarrow> has_session a' t"
  using assms tid_neq [OF assms(2)] bit_imp_le_length [of "aggr_enabled_tid_mask a" "unat t"]
  by (auto simp: aggr_recv_delba_req_evt_def Let_def A_ASSERT_bind_Some has_session_def bit_simps)

lemma frame_Some:
  assumes "aggr_process_recv_frm a ft s = Some (ok, a')"
  shows "aggr_enabled_tid_mask a' = aggr_enabled_tid_mask a" "unat ft < 8" "ft \<noteq> t \<Longrightarrow> seq_last a' (unat t) = seq_last a (unat t)"
  using assms tid_neq [of ft t]
  by (auto simp: aggr_process_recv_frm_def A_ASSERT_bind_Some Let_def NUM_OF_TIDS_def split: if_splits)

text \<open>A frame of a traffic id with a session.\<close>

lemma session_frame:
  assumes "unat tid < 8" "unat (seq_last a (unat tid)) < 4096" "unat seq_no < 4096" and "has_session a tid"
  shows "aggr_process_recv_frm a tid seq_no = Some
    (if seq_ahead (seq_last a (unat tid)) seq_no < 2048 \<or>
        seq_ahead (seq_last a (unat tid)) seq_no = 2048 \<and> seq_no < seq_last a (unat tid)
     then (True, a\<lparr>seq_last := (seq_last a)(unat tid := seq_no)\<rparr>) else (False, a))"
  using aggr_process_recv_frm_eq [OF assms(1-3)] session_no_bypass [OF assms(4)] by (simp only: if_False) 

lemma session_in_order:
  assumes "aggr_run a es = Some (out, a')" "\<forall>e\<in>set es. within_session t e"
    and "unat (seq_last a (unat t)) < 4096" "has_session a t"
  shows "in_order (seq_last a (unat t)) (of_tid t out)"
  using assms
proof (induction es arbitrary: a out a')
  case Nil
  then show ?case by simp
next
  case (Cons e es)
  have rest: "\<forall>e\<in>set es. within_session t e" using Cons.prems(2) by simp
  show ?case
  proof (cases e)
    case (Addba aid s w)
    then obtain b where b: "aggr_recv_addba_req_evt a aid s w = Some b" "aggr_run b es = Some (out, a')"
      using Cons.prems(1) by (auto simp: bind_eq_Some_conv)
    have "unat (aid AND 0xF) \<noteq> unat t" using Cons.prems(2) Addba tid_neq by auto
    then have "seq_last b (unat t) = seq_last a (unat t)" unfolding addba_Some(1) [OF b(1)] by simp
    then show ?thesis using Cons.IH [OF b(2) rest] addba_Some(3) [OF b(1)] Cons.prems(3,4) by simp
  next
    case (Delba aid)
    then obtain b where b: "aggr_recv_delba_req_evt a aid = Some b" "aggr_run b es = Some (out, a')"
      using Cons.prems(1) by (auto simp: bind_eq_Some_conv)
    have "aid AND 0xF \<noteq> t" using Cons.prems(2) Delba by auto
    then show ?thesis using Cons.IH [OF b(2) rest] delba_Some [OF b(1)] Cons.prems(3,4) by simp
  next
    case Reset
    then show ?thesis using Cons.prems(2) by simp
  next
    case (Frame ft s)
    then obtain ok b out1 where b: "aggr_process_recv_frm a ft s = Some (ok, b)" "aggr_run b es = Some (out1, a')"
      "out = (if ok then (ft, s) # out1 else out1)"
      using Cons.prems(1) by (auto simp: bind_eq_Some_conv)
    have session: "has_session b t" using Cons.prems(4) frame_Some(1) [OF b(1)] by (simp add: has_session_def)
    show ?thesis
    proof (cases "ft = t")
      case False
      then have "seq_last b (unat t) = seq_last a (unat t)" by (rule frame_Some(3) [OF b(1)])
      then show ?thesis using Cons.IH [OF b(2) rest _ session] Cons.prems(3) b(3) False by simp
    next
      case True
      have s: "unat s < 4096" using Cons.prems(2) Frame by simp
      have "unat t < 8" using frame_Some(2) [OF b(1)] True by simp
      from session_frame [OF this Cons.prems(3) s Cons.prems(4)] b(1)
      consider "ok" "seq_ahead (seq_last a (unat t)) s \<le> 2048" "seq_last b (unat t) = s" | "\<not> ok" "b = a"
        unfolding True by (auto split: if_splits)
      then show ?thesis
      proof cases
        case 1
        then show ?thesis using Cons.IH [OF b(2) rest _ session] s b(3) True by simp
      next
        case 2
        then show ?thesis using Cons.IH [OF b(2) rest _ session] Cons.prems(3) b(3) by simp
      qed
    qed
  qed
qed

section \<open>Properties\<close>

text \<open>C28. In a block-ack session of its traffic id, and with 12-bit sequence numbers, a frame is forwarded exactly
  when it is less than half the sequence space ahead of the last forwarded frame of that traffic id, or exactly half of it
  across the wrap; a forwarded frame becomes the new reference and a dropped one changes nothing.\<close>

theorem aggr_window:
  assumes "unat tid < 8" "unat (seq_last a (unat tid)) < 4096" "unat seq_no < 4096"
    and "has_session a tid"
  shows "aggr_process_recv_frm a tid seq_no = Some
    (if seq_ahead (seq_last a (unat tid)) seq_no < 2048 \<or>
        seq_ahead (seq_last a (unat tid)) seq_no = 2048 \<and> seq_no < seq_last a (unat tid)
     then (True, a\<lparr>seq_last := (seq_last a)(unat tid := seq_no)\<rparr>) else (False, a))"
  by (rule session_frame [OF assms])

theorem aggr_window_witness:
  "aggr_process_recv_frm \<lparr>aggr_enabled_tid_mask = 4, seq_last = (\<lambda>_. 4090)\<rparr> 2 5
    = Some (True, \<lparr>aggr_enabled_tid_mask = 4, seq_last = (\<lambda>_. 4090)(2 := 5)\<rparr>)"
  by (subst aggr_window) (simp_all add: seq_ahead_def has_session_def bit_numeral_rec)

text \<open>C27. A block-ack session delivers in order. From the request that opens the session of a traffic id (with the first
  sequence number) until the next request for that id or a reset, whatever frames of any traffic id are received
  and whatever sessions of other ids are opened and closed in between, the frames of the id that are
  forwarded to the stack never step back: each is at most half the sequence space ahead of the one before it, the first
  one of the session's starting number.\<close>

theorem aggr_delivers_in_order:
  assumes "aggr_run a (Addba aid seq_no win_sz # es) = Some (out, a')" and "unat seq_no < 4096"
    and "\<forall>e\<in>set es. within_session (aid AND 0xF) e"
  shows "in_order seq_no (of_tid (aid AND 0xF) out)"
proof -
  obtain b where b: "aggr_recv_addba_req_evt a aid seq_no win_sz = Some b" "aggr_run b es = Some (out, a')"
    using assms(1) by (auto simp: bind_eq_Some_conv)
  then show ?thesis
    using session_in_order [OF b(2) assms(3)] assms(2) addba_Some(1,2) [OF b(1)] by simp
qed

theorem aggr_delivers_in_order_witness:
  "in_order 4094 (of_tid 1 [(1, 4095), (2, 7), (1, 3)])"
proof -
  let ?a = "\<lparr>aggr_enabled_tid_mask = 0, seq_last = (\<lambda>_. 0)\<rparr>"
  let ?es = "[Frame 1 4095, Addba 2 7 8, Frame 2 7, Frame 1 3000, Delba 2, Frame 1 3]"
  have run: "\<exists>a'. aggr_run ?a (Addba 1 4094 8 # ?es) = Some ([(1, 4095), (2, 7), (1, 3)], a')"
    by (simp add: aggr_process_recv_frm_def aggr_recv_addba_req_evt_def aggr_recv_delba_req_evt_def NUM_OF_TIDS_def aggr_bypass_eq)
  have "\<forall>e\<in>set ?es. within_session (1 AND 0xF) e" by simp
  then show ?thesis
    using run aggr_delivers_in_order [of ?a 1 4094 8 ?es] by auto
qed

text \<open>The comment of \<open>aggr_process_recv_frm\<close> promises that with aggregation disabled every
  frame is forwarded. Because \<open>!\<close> binds tighter than \<open>&\<close> this holds for traffic id 0
  only: with no session at all, a frame of any other traffic id is dropped whenever it is
  behind the stale reference of its id.\<close>

theorem aggr_disabled_drops:
  assumes "0 < unat tid" "unat tid < 8" "unat (seq_last a (unat tid)) < 4096"
    and "unat seq_no < unat (seq_last a (unat tid))"
    and "unat (seq_last a (unat tid)) - unat seq_no \<le> 2047"
  shows "aggr_process_recv_frm (aggr_reset_state a) tid seq_no = Some (False, aggr_reset_state a)"
proof -
  have "unat (seq_last (aggr_reset_state a) (unat tid)) < 4096" "unat seq_no < 4096" "tid \<noteq> 0"
    using assms by (auto simp: aggr_reset_state_def)
  with assms show ?thesis
    by (subst aggr_process_recv_frm_eq) (auto simp: seq_ahead_cases aggr_reset_state_def)
qed

theorem aggr_disabled_drops_witness:
  "aggr_process_recv_frm (aggr_reset_state \<lparr>aggr_enabled_tid_mask = 8, seq_last = (\<lambda>_. 100)\<rparr>) 3 99
    = Some (False, aggr_reset_state \<lparr>aggr_enabled_tid_mask = 8, seq_last = (\<lambda>_. 100)\<rparr>)"
  by (rule aggr_disabled_drops) simp_all

end
