(* ===== verification/Wifi_Util.thy ===== *)
theory Wifi_Util
  imports Wifi_Prelude "HOL-Library.Signed_Division"
begin

text \<open>
  The channel and frequency conversions of \<^verbatim>\<open>common_src/util/util.c\<close>.
  A \<open>QOSAL_INT32\<close> is the mathematical integer it denotes (C leaves its overflow undefined);
  the casts of the results to \<open>QOSAL_UINT16\<close> and \<open>QOSAL_UINT32\<close> wrap, and \<open>/\<close> on \<open>int\<close>
  truncates towards zero. The endpoint lookups of the same file are in the driver context theory.
\<close>

definition Util_Ieee2freq :: "int \<Rightarrow> u16" where
  "Util_Ieee2freq chan =
     (if chan = 14 then 2484
      else if chan < 14 then word_of_int (2407 + chan * 5)
      else if chan < 27 then word_of_int (2512 + (chan - 15) * 20)
      else word_of_int (5000 + chan * 5))"

definition Util_Freq2ieee :: "u16 \<Rightarrow> u32" where
  "Util_Freq2ieee freq = (let f = uint freq in
     if f = 2484 then 14
     else if f < 2484 then word_of_int ((f - 2407) sdiv 5)
     else if f < 5000 then word_of_int (15 + ((f - 2512) sdiv 20))
     else word_of_int ((f - 5000) sdiv 5))"

lemma sdiv_nonneg: "0 \<le> (a :: int) \<Longrightarrow> 0 < b \<Longrightarrow> a sdiv b = a div b"
  by (simp add: signed_divide_int_def sgn_if)

lemma uint_word_of_int_u16: "0 \<le> i \<Longrightarrow> i < 65536 \<Longrightarrow> uint (word_of_int i :: u16) = i"
  by (simp add: uint_word_of_int take_bit_eq_mod)

text \<open>The channels that have a frequency of their own: the 2.4 GHz plan, its 20 MHz extension,
  and the 5 GHz plan up to the last frequency a 16-bit value holds.\<close>

definition ieee_channel :: "int \<Rightarrow> bool" where
  "ieee_channel c \<longleftrightarrow> 0 \<le> c \<and> c \<le> 12107"

lemma Util_Freq2ieee_low:
  assumes "0 \<le> c" "c < 14"
  shows "Util_Freq2ieee (Util_Ieee2freq c) = word_of_int c"
proof -
  have "uint (word_of_int (2407 + c * 5) :: u16) = 2407 + c * 5"
    using assms by (intro uint_word_of_int_u16) auto
  then show ?thesis
    using assms by (simp add: Util_Ieee2freq_def Util_Freq2ieee_def Let_def sdiv_nonneg)
qed

lemma Util_Freq2ieee_mid:
  assumes "15 \<le> c" "c < 27"
  shows "Util_Freq2ieee (Util_Ieee2freq c) = word_of_int c"
proof -
  have "uint (word_of_int (2512 + (c - 15) * 20) :: u16) = 2512 + (c - 15) * 20"
    using assms by (intro uint_word_of_int_u16) auto
  then show ?thesis
    using assms by (simp add: Util_Ieee2freq_def Util_Freq2ieee_def Let_def sdiv_nonneg)
qed

lemma Util_Freq2ieee_high:
  assumes "27 \<le> c" "c \<le> 12107"
  shows "Util_Freq2ieee (Util_Ieee2freq c) = word_of_int c"
proof -
  have "uint (word_of_int (5000 + c * 5) :: u16) = 5000 + c * 5"
    using assms by (intro uint_word_of_int_u16) auto
  then show ?thesis
    using assms by (simp add: Util_Ieee2freq_def Util_Freq2ieee_def Let_def sdiv_nonneg)
qed

text \<open>Every channel number from 0 to 12107 survives the conversion to a frequency and back,
  on each of the three branches and for channel 14; beyond it the 16-bit frequency wraps.\<close>

lemma ieee_channel_roundtrip:
  assumes "ieee_channel c"
  shows "Util_Freq2ieee (Util_Ieee2freq c) = word_of_int c"
proof -
  consider "0 \<le> c" "c < 14" | "c = 14" | "15 \<le> c" "c < 27" | "27 \<le> c" "c \<le> 12107"
    using assms by (fastforce simp: ieee_channel_def)
  then show ?thesis
  proof cases
    case 2
    then show ?thesis by (simp add: Util_Ieee2freq_def Util_Freq2ieee_def)
  qed (simp_all add: Util_Freq2ieee_low Util_Freq2ieee_mid Util_Freq2ieee_high)
qed

lemma ieee_channel_roundtrip_witness:
  "Util_Freq2ieee (Util_Ieee2freq 165) = 165"
  using ieee_channel_roundtrip [of 165] by (simp add: ieee_channel_def)

end
