(* ===== verification/Osal.thy ===== *)
theory Osal
  imports Wifi_Prelude
begin

text \<open>
  The operating-system layer: what \<^verbatim>\<open>custom_src/osal/osal.c\<close> and the allocator wrappers of
  \<^verbatim>\<open>common_src/driver/driver_netbuf.c\<close> do on top of MQX.

  MQX itself (its heap, its SPI and GPIO device drivers, its timer) is not part of the repository.
  Its calls are the fields of the record \<open>mqx\<close>, a parameter of every definition that reaches
  them, over an environment of an arbitrary type \<open>'e\<close> that stands for the state of the
  operating system and of the chip on the bus. No law of these calls is assumed here: a lemma
  that needs one states it.
\<close>

record 'e mqx =
  mem_alloc_system_zero :: "u32 \<Rightarrow> memory \<Rightarrow> 'e \<Rightarrow> ptr \<times> memory \<times> 'e"
  mem_free :: "ptr \<Rightarrow> 'e \<Rightarrow> 'e"
  get_size :: "ptr \<Rightarrow> 'e \<Rightarrow> u32"
  time_delay :: "u32 \<Rightarrow> 'e \<Rightarrow> 'e"
  spi_set_mode :: "'e \<Rightarrow> bool \<times> 'e"
  spi_read_write :: "u8 list \<Rightarrow> u8 list \<Rightarrow> 'e \<Rightarrow> bool \<times> u8 list \<times> 'e"
  spi_fread :: "nat \<Rightarrow> 'e \<Rightarrow> u8 list \<times> 'e"
  spi_fwrite :: "u8 list \<Rightarrow> 'e \<Rightarrow> nat \<times> 'e"
  spi_fflush :: "'e \<Rightarrow> 'e"
  gpio_irq :: "bool \<Rightarrow> 'e \<Rightarrow> 'e"
  gpio_power :: "bool \<Rightarrow> 'e \<Rightarrow> bool \<times> 'e"
  uninit_u32 :: "'e \<Rightarrow> u32"

text \<open>
  \<open>spi_read_write out in0\<close> exchanges the bytes \<open>out\<close> with the bus and yields whether the ioctl
  returned \<open>SPI_OK\<close> with the contents of the read buffer, \<open>in0\<close> before the call;
  \<open>spi_fread n\<close> yields the bytes that were read, at most \<open>n\<close>; \<open>spi_fwrite bs\<close> the number of bytes
  written; \<open>uninit_u32\<close> the value an uninitialised 32-bit local happens to have.

  The host: the environment, the flat memory, and the running total of the allocator wrappers.
\<close>

record 'e host =
  hw_env :: 'e
  mem :: memory
  g_totAlloc :: u32

section \<open>Allocation\<close>

definition qosal_malloc :: "'e mqx \<Rightarrow> u32 \<Rightarrow> ('e, 'z) host_scheme \<Rightarrow> ptr \<times> ('e, 'z) host_scheme" where
  "qosal_malloc M sz s =
     (case mem_alloc_system_zero M sz (mem s) (hw_env s) of
        (addr, m, e) \<Rightarrow> (addr, s\<lparr>mem := m, hw_env := e\<rparr>))"

definition qosal_get_size :: "'e mqx \<Rightarrow> ptr \<Rightarrow> ('e, 'z) host_scheme \<Rightarrow> u32" where
  "qosal_get_size M addr s = get_size M addr (hw_env s)"

definition qosal_free :: "'e mqx \<Rightarrow> ptr \<Rightarrow> ('e, 'z) host_scheme \<Rightarrow> ('e, 'z) host_scheme" where
  "qosal_free M addr s = s\<lparr>hw_env := mem_free M addr (hw_env s)\<rparr>"

definition a_malloc :: "'e mqx \<Rightarrow> u32 \<Rightarrow> ('e, 'z) host_scheme \<Rightarrow> ptr \<times> ('e, 'z) host_scheme" where
  "a_malloc M sz s =
     (case qosal_malloc M sz s of (addr, s) \<Rightarrow>
        if addr \<noteq> NULL
        then (addr, s\<lparr>g_totAlloc := g_totAlloc s + qosal_get_size M addr s\<rparr>) else (addr, s))"

definition a_free :: "'e mqx \<Rightarrow> ptr \<Rightarrow> ('e, 'z) host_scheme \<Rightarrow> ('e, 'z) host_scheme" where
  "a_free M addr s =
     (let len = qosal_get_size M addr s; s = s\<lparr>g_totAlloc := g_totAlloc s - len\<rparr>
      in qosal_free M addr s)"

section \<open>Delays\<close>

definition qosal_time_delay :: "'e mqx \<Rightarrow> u32 \<Rightarrow> ('e, 'z) host_scheme \<Rightarrow> ('e, 'z) host_scheme" where
  "qosal_time_delay M msec s = s\<lparr>hw_env := time_delay M msec (hw_env s)\<rparr>"

text \<open>Microseconds are rounded to milliseconds for \<open>_time_delay\<close>. \<open>time\<close> is a
  \<open>QOSAL_INT32\<close>; \<open>uSec - time * 1000 > 500\<close> compares unsigned, because \<open>uSec\<close> is.\<close>

definition usec_to_msec :: "u32 \<Rightarrow> u32" where
  "usec_to_msec uSec = (
     let t = drop_bit 10 uSec;
         t = t + (if t * 24 > 500 then 1 else 0);
         t = t + (if uSec - t * 1000 > 500 then 1 else 0)
     in if t = 0 then t + 1 else t)"

definition qosal_usec_delay :: "'e mqx \<Rightarrow> u32 \<Rightarrow> ('e, 'z) host_scheme \<Rightarrow> ('e, 'z) host_scheme" where
  "qosal_usec_delay M uSec s = s\<lparr>hw_env := time_delay M (usec_to_msec uSec) (hw_env s)\<rparr>"

lemma a_free_frame [simp]: "mem (a_free M p s) = mem s"
  by (simp add: a_free_def qosal_free_def Let_def)

lemma qosal_time_delay_frame [simp]:
  "mem (qosal_time_delay M d s) = mem s" "g_totAlloc (qosal_time_delay M d s) = g_totAlloc s"
  by (simp_all add: qosal_time_delay_def)

lemma qosal_usec_delay_frame [simp]:
  "mem (qosal_usec_delay M d s) = mem s" "g_totAlloc (qosal_usec_delay M d s) = g_totAlloc s"
  by (simp_all add: qosal_usec_delay_def)

end
