(* ===== verification/Netbuf.thy ===== *)
theory Netbuf
  imports Osal
begin

text \<open>
  The packet object \<open>A_NETBUF\<close> of \<^verbatim>\<open>custom_src/include/cust_netbuf.h\<close> with its transport part
  \<open>A_TRANSPORT_OBJ\<close> (\<^verbatim>\<open>common_src/include/netbuf.h\<close>), and the operations on one object of
  \<^verbatim>\<open>custom_src/driver/cust_driver_netbuf.c\<close>, in the \<open>ENABLE_STACK_OFFLOAD\<close> configuration.

  An object is a record; the objects a pointer can reach are the map \<open>nbs\<close> of the record \<open>nheap\<close>,
  and the caller's buffers that \<open>native_orig\<close> points to the map \<open>natives\<close>. The bytes of the packet
  are in the flat memory. The lengths the code declares \<open>QOSAL_INT32\<close> are compared with unsigned
  operands only, so they are 32-bit words here. \<open>len\<close> in the assertions is compared unsigned.
\<close>

section \<open>Data\<close>

datatype A_TRANS_CB = cb_NULL | cb_Driver_RxComplete | cb_Driver_TxComplete
  | cb_Driver_Ep0TxComplete

record A_TRANSPORT_OBJ =
  t_lookahead :: u32
  t_transferLength :: u16
  t_address :: u16
  t_cmd :: u16
  t_credits :: u8
  t_epid :: u8
  t_status :: A_STATUS
  t_cb :: A_TRANS_CB

record DB_FRAG =
  frag_length :: u32
  frag_payload :: ptr

record DRV_BUFFER =
  db_context :: ptr
  db_bufFragment :: "nat \<Rightarrow> DB_FRAG"

record netbuf =
  native_context :: ptr
  bufFragment :: "nat \<Rightarrow> DB_FRAG"
  num_frags :: u8
  native_orig :: ptr
  nb_head :: ptr
  nb_data :: ptr
  nb_tail :: ptr
  nb_end :: ptr
  txPoolID :: u8
  rxPoolID :: u8
  queueLink :: ptr
  trans :: A_TRANSPORT_OBJ

record 'e nheap = "'e host" +
  nbs :: "ptr \<Rightarrow> netbuf"
  natives :: "ptr \<Rightarrow> DRV_BUFFER"

definition MAX_BUF_FRAGS :: u8 where "MAX_BUF_FRAGS = 2"
definition AR6000_DATA_OFFSET :: u32 where "AR6000_DATA_OFFSET = 64"

text \<open>\<open>sizeof(A_NETBUF)\<close> with 4-byte pointers and enums.\<close>

definition sizeof_A_NETBUF :: u32 where "sizeof_A_NETBUF = 72"

text \<open>\<open>A_MEMZERO\<close> of an object: \<open>A_OK\<close> is the status with value 0.\<close>

definition trans_zero :: A_TRANSPORT_OBJ where
  "trans_zero = \<lparr>t_lookahead = 0, t_transferLength = 0, t_address = 0, t_cmd = 0, t_credits = 0,
     t_epid = 0, t_status = A_OK, t_cb = cb_NULL\<rparr>"

definition netbuf_zero :: netbuf where
  "netbuf_zero = \<lparr>native_context = NULL, bufFragment = (\<lambda>_. \<lparr>frag_length = 0, frag_payload = NULL\<rparr>),
     num_frags = 0, native_orig = NULL, nb_head = NULL, nb_data = NULL, nb_tail = NULL,
     nb_end = NULL, txPoolID = 0, rxPoolID = 0, queueLink = NULL, trans = trans_zero\<rparr>"

definition set_nb :: "ptr \<Rightarrow> (netbuf \<Rightarrow> netbuf) \<Rightarrow> ('e, 'z) nheap_scheme \<Rightarrow> ('e, 'z) nheap_scheme" where
  "set_nb p f s = s\<lparr>nbs := (nbs s)(p := f (nbs s p))\<rparr>"

definition set_trans :: "ptr \<Rightarrow> (A_TRANSPORT_OBJ \<Rightarrow> A_TRANSPORT_OBJ) \<Rightarrow>
    ('e, 'z) nheap_scheme \<Rightarrow> ('e, 'z) nheap_scheme" where
  "set_trans p f = set_nb p (trans_update f)"

section \<open>Operations on one object\<close>

definition a_netbuf_to_data :: "netbuf \<Rightarrow> ptr" where
  "a_netbuf_to_data nb = nb_data nb"

definition a_netbuf_push :: "netbuf \<Rightarrow> u32 \<Rightarrow> netbuf option" where
  "a_netbuf_push nb len = do {
     A_ASSERT (\<not> nb_data nb - nb_head nb < len);
     Some (nb\<lparr>nb_data := nb_data nb - len\<rparr>)}"

definition a_netbuf_put :: "netbuf \<Rightarrow> u32 \<Rightarrow> netbuf option" where
  "a_netbuf_put nb len = do {
     A_ASSERT (\<not> nb_end nb - nb_tail nb < len);
     Some (nb\<lparr>nb_tail := nb_tail nb + len\<rparr>)}"

definition a_netbuf_pull :: "netbuf \<Rightarrow> u32 \<Rightarrow> netbuf option" where
  "a_netbuf_pull nb len = do {
     A_ASSERT (\<not> nb_tail nb - nb_data nb < len);
     Some (nb\<lparr>nb_data := nb_data nb + len\<rparr>)}"

definition a_netbuf_trim :: "netbuf \<Rightarrow> u32 \<Rightarrow> netbuf option" where
  "a_netbuf_trim nb len = do {
     A_ASSERT (\<not> nb_tail nb - nb_data nb < len);
     Some (nb\<lparr>nb_tail := nb_tail nb - len\<rparr>)}"

definition a_netbuf_headroom :: "netbuf \<Rightarrow> u32" where
  "a_netbuf_headroom nb = nb_data nb - nb_head nb"

definition a_netbuf_tailroom :: "netbuf \<Rightarrow> u32" where
  "a_netbuf_tailroom nb = nb_end nb - nb_tail nb"

definition a_netbuf_push_data :: "netbuf \<Rightarrow> ptr \<Rightarrow> u32 \<Rightarrow> memory \<Rightarrow> (netbuf \<times> memory) option" where
  "a_netbuf_push_data nb srcPtr len m = do {
     nb \<leftarrow> a_netbuf_push nb len;
     Some (nb, A_MEMCPY m (nb_data nb) srcPtr len)}"

definition a_netbuf_put_data :: "netbuf \<Rightarrow> ptr \<Rightarrow> u32 \<Rightarrow> memory \<Rightarrow> (netbuf \<times> memory) option" where
  "a_netbuf_put_data nb srcPtr len m = (let start = nb_tail nb in do {
     nb \<leftarrow> a_netbuf_put nb len;
     Some (nb, A_MEMCPY m start srcPtr len)})"

definition a_netbuf_to_len :: "(ptr \<Rightarrow> DRV_BUFFER) \<Rightarrow> netbuf \<Rightarrow> u32" where
  "a_netbuf_to_len native nb = (let len = nb_tail nb - nb_data nb in
     if num_frags nb \<noteq> 0 then
       if native_orig nb \<noteq> NULL then
         len + (\<Sum>i\<leftarrow>[0..<unat (num_frags nb)].
                  frag_length (db_bufFragment (native (native_orig nb)) i))
       else len + (\<Sum>i\<leftarrow>[1..<Suc (unat (num_frags nb))]. frag_length (bufFragment nb i))
     else len)"

text \<open>The buffer and its length; \<open>None\<close> leaves the caller's \<open>*pLen\<close> as it is.\<close>

definition a_netbuf_get_fragment ::
    "(ptr \<Rightarrow> DRV_BUFFER) \<Rightarrow> netbuf \<Rightarrow> u8 \<Rightarrow> ptr \<times> u32 option" where
  "a_netbuf_get_fragment native nb index =
     (if index = 0 then (a_netbuf_to_data nb, Some (nb_tail nb - nb_data nb))
      else if num_frags nb \<ge> index then
        let frag = (if native_orig nb \<noteq> NULL
                    then db_bufFragment (native (native_orig nb)) (unat index - 1)
                    else bufFragment nb (unat index))
        in (frag_payload frag, Some (frag_length frag))
      else (NULL, None))"

definition a_netbuf_append_fragment :: "netbuf \<Rightarrow> ptr \<Rightarrow> u32 \<Rightarrow> netbuf option" where
  "a_netbuf_append_fragment nb frag len =
     (if num_frags nb < MAX_BUF_FRAGS - 1 then
        let n = num_frags nb + 1 in
        Some (nb\<lparr>num_frags := n,
                 bufFragment := (bufFragment nb)(unat n := \<lparr>frag_length = len, frag_payload = frag\<rparr>)\<rparr>)
      else do {A_ASSERT False; Some nb})"

definition a_netbuf_configure :: "ptr \<Rightarrow> u16 \<Rightarrow> u16 \<Rightarrow> u16 \<Rightarrow> netbuf" where
  "a_netbuf_configure buffer headroom len sz =
     (if buffer \<noteq> NULL then
        netbuf_zero\<lparr>nb_head := buffer, nb_data := buffer + ucast headroom,
          nb_tail := buffer + (ucast headroom + ucast len), nb_end := buffer + ucast sz\<rparr>
      else netbuf_zero)"

definition a_netbuf_init :: "netbuf \<Rightarrow> ptr \<Rightarrow> netbuf" where
  "a_netbuf_init nb priv =
     nb\<lparr>native_context := priv,
        nb_tail := nb_head nb + AR6000_DATA_OFFSET, nb_data := nb_head nb + AR6000_DATA_OFFSET,
        bufFragment := (bufFragment nb)(0 :=
          \<lparr>frag_length = nb_end nb - nb_head nb, frag_payload = nb_head nb\<rparr>),
        rxPoolID := 1\<rparr>"

definition a_netbuf_reinit :: "netbuf \<Rightarrow> u32 \<Rightarrow> netbuf" where
  "a_netbuf_reinit nb sz = (
     let len = AR6000_DATA_OFFSET + sz; pay = frag_payload (bufFragment nb 0) in
     nb\<lparr>bufFragment := (bufFragment nb)(0 := \<lparr>frag_length = len, frag_payload = pay\<rparr>),
        nb_head := pay, nb_end := pay + len,
        nb_tail := pay + AR6000_DATA_OFFSET, nb_data := pay + AR6000_DATA_OFFSET,
        trans := trans_zero, txPoolID := 0, rxPoolID := 0\<rparr>)"

definition a_netbuf_set_rx_pool :: "netbuf \<Rightarrow> netbuf" where
  "a_netbuf_set_rx_pool nb = nb\<lparr>rxPoolID := 1\<rparr>"

definition a_netbuf_set_tx_pool :: "netbuf \<Rightarrow> netbuf" where
  "a_netbuf_set_tx_pool nb = nb\<lparr>txPoolID := 1\<rparr>"

section \<open>Allocation\<close>

definition a_netbuf_alloc :: "'e mqx \<Rightarrow> u32 \<Rightarrow> ('e, 'z) nheap_scheme \<Rightarrow> ptr \<times> ('e, 'z) nheap_scheme" where
  "a_netbuf_alloc M sz s = (case a_malloc M sizeof_A_NETBUF s of (p, s) \<Rightarrow>
     if p = NULL then (NULL, s) else
     let len = AR6000_DATA_OFFSET + sz; s = set_nb p (\<lambda>_. netbuf_zero) s in
     case a_malloc M len s of (pay, s) \<Rightarrow>
     let s = set_nb p (\<lambda>nb. nb\<lparr>bufFragment :=
               (bufFragment nb)(0 := \<lparr>frag_length = len, frag_payload = pay\<rparr>)\<rparr>) s in
     if pay = NULL then (NULL, a_free M p s) else
     (p, set_nb p (\<lambda>nb. nb\<lparr>nb_head := pay, nb_end := pay + len,
           nb_tail := pay + AR6000_DATA_OFFSET, nb_data := pay + AR6000_DATA_OFFSET,
           trans := trans_zero, txPoolID := 0, rxPoolID := 0\<rparr>) s))"

definition a_netbuf_alloc_raw :: "'e mqx \<Rightarrow> u32 \<Rightarrow> ('e, 'z) nheap_scheme \<Rightarrow> ptr \<times> ('e, 'z) nheap_scheme" where
  "a_netbuf_alloc_raw M sz s = (case a_malloc M sizeof_A_NETBUF s of (p, s) \<Rightarrow>
     if p = NULL then (NULL, s) else
     let s = set_nb p (\<lambda>_. netbuf_zero) s in
     case a_malloc M sz s of (pay, s) \<Rightarrow>
     let s = set_nb p (\<lambda>nb. nb\<lparr>bufFragment :=
               (bufFragment nb)(0 := \<lparr>frag_length = sz, frag_payload = pay\<rparr>)\<rparr>) s in
     if pay = NULL then (NULL, a_free M p s) else
     (p, set_nb p (\<lambda>nb. nb\<lparr>nb_head := pay, nb_tail := pay, nb_data := pay, nb_end := pay + sz,
           trans := trans_zero\<rparr>) s))"

section \<open>The pointers stay in order\<close>

text \<open>The invariant of an object: head room, data, tail room, in this order, inside the buffer.\<close>

definition nb_wf :: "netbuf \<Rightarrow> bool" where
  "nb_wf nb \<longleftrightarrow> nb_head nb \<le> nb_data nb \<and> nb_data nb \<le> nb_tail nb \<and> nb_tail nb \<le> nb_end nb"

lemma a_netbuf_push_wf: "nb_wf nb \<Longrightarrow> a_netbuf_push nb len = Some nb' \<Longrightarrow> nb_wf nb'"
  using word_minus_le [of "nb_head nb" "nb_data nb" len]
  by (auto simp: nb_wf_def a_netbuf_push_def A_ASSERT_bind_Some not_less)

lemma a_netbuf_put_wf: "nb_wf nb \<Longrightarrow> a_netbuf_put nb len = Some nb' \<Longrightarrow> nb_wf nb'"
  using word_plus_le [of "nb_tail nb" "nb_end nb" len]
  by (auto simp: nb_wf_def a_netbuf_put_def A_ASSERT_bind_Some not_less)

lemma a_netbuf_pull_wf: "nb_wf nb \<Longrightarrow> a_netbuf_pull nb len = Some nb' \<Longrightarrow> nb_wf nb'"
  using word_plus_le [of "nb_data nb" "nb_tail nb" len]
  by (auto simp: nb_wf_def a_netbuf_pull_def A_ASSERT_bind_Some not_less)

lemma a_netbuf_trim_wf: "nb_wf nb \<Longrightarrow> a_netbuf_trim nb len = Some nb' \<Longrightarrow> nb_wf nb'"
  using word_minus_le [of "nb_data nb" "nb_tail nb" len]
  by (auto simp: nb_wf_def a_netbuf_trim_def A_ASSERT_bind_Some not_less)

lemmas a_netbuf_op_defs = a_netbuf_push_def a_netbuf_put_def a_netbuf_pull_def a_netbuf_trim_def
lemmas a_netbuf_op_wf = a_netbuf_push_wf a_netbuf_put_wf a_netbuf_pull_wf a_netbuf_trim_wf

section \<open>The bytes of a packet\<close>

definition packet_bytes :: "memory \<Rightarrow> netbuf \<Rightarrow> u8 list" where
  "packet_bytes m nb = mem_bytes m (nb_data nb) (unat (nb_tail nb - nb_data nb))"

lemma a_netbuf_push_data_bytes:
  assumes "nb_wf nb" "a_netbuf_push_data nb src len m = Some (nb', m')"
  shows "packet_bytes m' nb' = mem_bytes m src (unat len) @ packet_bytes m nb"
proof -
  let ?d = "nb_data nb" and ?t = "nb_tail nb" and ?bs = "mem_bytes m src (unat len)"
  from assms(2) have nb': "nb' = nb\<lparr>nb_data := ?d - len\<rparr>" and room: "len \<le> ?d - nb_head nb"
    and m': "m' = mem_put m (?d - len) ?bs"
    by (auto simp: a_netbuf_push_data_def a_netbuf_push_def A_MEMCPY_def bind_eq_Some_conv not_less)
  have d: "unat (?d - len) = unat ?d - unat len" "unat len \<le> unat ?d" "?d - len \<le> ?d"
    using assms(1) word_minus_le [OF _ room] by (auto simp: nb_wf_def)
  have t: "unat ?d \<le> unat ?t" "?d \<le> ?t" "?d - len \<le> ?t"
    using assms(1) d(3) by (auto simp: nb_wf_def word_le_nat_alt)
  have "unat (?t - (?d - len)) = unat len + unat (?t - ?d)"
    unfolding unat_diff_word [OF t(3)] unat_diff_word [OF t(2)] d(1) using t(1) d(2) by arith
  moreover have "mem_bytes m' ?d (unat (?t - ?d)) = mem_bytes m ?d (unat (?t - ?d))"
    unfolding m' unat_diff_word [OF t(2)]
    using d t(1) unat_le_2p32 [of ?t] by (intro mem_bytes_mem_put_after) auto
  moreover have "mem_bytes m' (?d - len) (unat len) = ?bs"
    by (simp add: m')
  ultimately show ?thesis
    by (simp add: packet_bytes_def nb' mem_bytes_add)
qed

lemma a_netbuf_put_data_bytes:
  assumes "nb_wf nb" "a_netbuf_put_data nb src len m = Some (nb', m')"
  shows "packet_bytes m' nb' = packet_bytes m nb @ mem_bytes m src (unat len)"
proof -
  let ?d = "nb_data nb" and ?t = "nb_tail nb" and ?bs = "mem_bytes m src (unat len)"
  from assms(2) have nb': "nb' = nb\<lparr>nb_tail := ?t + len\<rparr>" and room: "len \<le> nb_end nb - ?t"
    and m': "m' = mem_put m ?t ?bs"
    by (auto simp: a_netbuf_put_data_def a_netbuf_put_def A_MEMCPY_def bind_eq_Some_conv not_less)
  have e: "unat (?t + len) = unat ?t + unat len" "?t \<le> ?t + len"
    using assms(1) word_plus_le [OF _ room] by (auto simp: nb_wf_def)
  have t: "unat ?d \<le> unat ?t" "?d \<le> ?t" "?d \<le> ?t + len"
    using assms(1) e by (auto simp: nb_wf_def word_le_nat_alt)
  have "unat (?t + len - ?d) = unat (?t - ?d) + unat len"
    unfolding unat_diff_word [OF t(3)] unat_diff_word [OF t(2)] e(1) using t(1) by arith
  moreover have "mem_bytes m' ?d (unat (?t - ?d)) = mem_bytes m ?d (unat (?t - ?d))"
    unfolding m' unat_diff_word [OF t(2)]
    using t(1) e(1) unat_le_2p32 [of "?t + len"] by (intro mem_bytes_mem_put_before) auto
  moreover have "mem_bytes m' (?d + of_nat (unat (?t - ?d))) (unat len) = ?bs"
    by (simp add: m')
  ultimately show ?thesis
    by (simp add: packet_bytes_def nb' mem_bytes_add)
qed

section \<open>Runs of operations\<close>

datatype nb_op = Push u32 | Put u32 | Pull u32 | Trim u32

fun nb_step :: "netbuf \<Rightarrow> nb_op \<Rightarrow> netbuf option" where
  "nb_step nb (Push n) = a_netbuf_push nb n"
| "nb_step nb (Put n) = a_netbuf_put nb n"
| "nb_step nb (Pull n) = a_netbuf_pull nb n"
| "nb_step nb (Trim n) = a_netbuf_trim nb n"

fun nb_run :: "netbuf \<Rightarrow> nb_op list \<Rightarrow> netbuf option" where
  "nb_run nb [] = Some nb"
| "nb_run nb (oper # opers) = do {nb \<leftarrow> nb_step nb oper; nb_run nb opers}"

lemma nb_step_wf: "nb_wf nb \<Longrightarrow> nb_step nb oper = Some nb' \<Longrightarrow> nb_wf nb'"
  by (cases oper) (auto dest: a_netbuf_op_wf)

lemma nb_step_buffer:
  "nb_step nb oper = Some nb' \<Longrightarrow> nb_head nb' = nb_head nb \<and> nb_end nb' = nb_end nb"
  by (cases oper) (auto simp: a_netbuf_op_defs bind_eq_Some_conv)

section \<open>Properties\<close>

text \<open>Whatever sequence of push, put, pull and trim is applied to a packet, if the calls
  return then the data still lies inside the buffer the packet was allocated with: the assertions
  of the four operations are enough to keep every pointer in order.\<close>

theorem netbuf_stays_in_buffer:
  assumes "nb_wf nb" "nb_run nb opers = Some nb'"
  shows "nb_head nb \<le> nb_data nb' \<and> nb_data nb' \<le> nb_tail nb' \<and> nb_tail nb' \<le> nb_end nb"
proof -
  have "nb_wf nb' \<and> nb_head nb' = nb_head nb \<and> nb_end nb' = nb_end nb"
    using assms
  proof (induction opers arbitrary: nb)
    case (Cons oper opers)
    then obtain nb1 where "nb_step nb oper = Some nb1" "nb_run nb1 opers = Some nb'"
      by (auto simp: bind_eq_Some_conv)
    with Cons show ?case using nb_step_wf nb_step_buffer by metis
  qed simp
  then show ?thesis
    by (auto simp: nb_wf_def)
qed

theorem netbuf_stays_in_buffer_witness:
  "\<exists>nb'. nb_run (a_netbuf_configure 0x1000 64 0 256) [Put 100, Push 6, Trim 2, Pull 6] = Some nb'
     \<and> 0x1000 \<le> nb_data nb' \<and> nb_tail nb' \<le> 0x1100"
proof -
  let ?nb = "a_netbuf_configure 0x1000 64 0 256"
  obtain nb' where run: "nb_run ?nb [Put 100, Push 6, Trim 2, Pull 6] = Some nb'"
    by (simp add: a_netbuf_configure_def a_netbuf_op_defs)
  have wf: "nb_wf ?nb" "nb_head ?nb = 0x1000" "nb_end ?nb = 0x1100"
    by (simp_all add: a_netbuf_configure_def nb_wf_def)
  show ?thesis
    using netbuf_stays_in_buffer [OF wf(1) run] run wf(2,3) by auto
qed

text \<open>A header pushed in front of a packet with its bytes is exactly what the next pull
  removes: the packet reads header followed by the old bytes, and after the pull the object and
  its bytes are the ones it had before.\<close>

theorem netbuf_push_pull_roundtrip:
  assumes "nb_wf nb" "a_netbuf_push_data nb hdr len m = Some (nb1, m')"
  shows "packet_bytes m' nb1 = mem_bytes m hdr (unat len) @ packet_bytes m nb
    \<and> (\<exists>nb2. a_netbuf_pull nb1 len = Some nb2 \<and> nb2 = nb \<and> packet_bytes m' nb2 = packet_bytes m nb)"
proof -
  have bytes: "packet_bytes m' nb1 = mem_bytes m hdr (unat len) @ packet_bytes m nb"
    by (rule a_netbuf_push_data_bytes [OF assms])
  from assms(2) have nb1: "nb1 = nb\<lparr>nb_data := nb_data nb - len\<rparr>" and room: "len \<le> nb_data nb - nb_head nb"
    by (auto simp: a_netbuf_push_data_def a_netbuf_push_def bind_eq_Some_conv not_less)
  have d: "unat (nb_data nb - len) = unat (nb_data nb) - unat len" "unat len \<le> unat (nb_data nb)"
     "nb_data nb - len \<le> nb_data nb" "nb_data nb \<le> nb_tail nb"
    using assms(1) word_minus_le [OF _ room] by (auto simp: nb_wf_def)
  have t: "unat (nb_tail nb - (nb_data nb - len)) = unat (nb_tail nb) - (unat (nb_data nb) - unat len)"
    unfolding d(1) [symmetric] using d(3,4) by (intro unat_diff_word) simp
  have pull: "a_netbuf_pull nb1 len = Some nb"
    using d t by (simp add: nb1 a_netbuf_pull_def A_ASSERT_bind_Some not_less word_le_nat_alt)
  have "length (packet_bytes m' nb1) = unat len + length (packet_bytes m nb)"
    by (simp add: bytes)
  then have "packet_bytes m' nb1 = mem_bytes m' (nb_data nb - len) (unat len) @ packet_bytes m' nb"
    by (simp add: packet_bytes_def nb1 mem_bytes_add)
  with bytes have "packet_bytes m' nb = packet_bytes m nb"
    by (metis append_eq_append_conv length_mem_bytes)
  with bytes pull show ?thesis by simp
qed

theorem netbuf_push_pull_roundtrip_witness:
  "\<exists>nb1 m'. a_netbuf_push_data (a_netbuf_configure 0x1000 64 4 256) 0x2000 6 (\<lambda>a. ucast a)
      = Some (nb1, m') \<and> packet_bytes m' nb1 = [0, 1, 2, 3, 4, 5, 64, 65, 66, 67]"
proof -
  let ?nb = "a_netbuf_configure 0x1000 64 4 256" and ?m = "(\<lambda>a. ucast a) :: memory"
  have wf: "nb_wf ?nb" by (simp add: a_netbuf_configure_def nb_wf_def)
  obtain nb1 m' where push: "a_netbuf_push_data ?nb 0x2000 6 ?m = Some (nb1, m')"
    by (simp add: a_netbuf_configure_def a_netbuf_push_data_def a_netbuf_push_def)
  have "packet_bytes m' nb1 = mem_bytes ?m 0x2000 (unat (6 :: u32)) @ packet_bytes ?m ?nb"
    using netbuf_push_pull_roundtrip [OF wf push] by blast
  with push show ?thesis
    by (simp add: a_netbuf_configure_def packet_bytes_def mem_bytes_def upt_rec)
qed

text \<open>Data appended to a packet follows the bytes it already had, and \<open>a_netbuf_trim\<close> takes it off again.\<close>

lemma netbuf_put_data_appends:
  assumes "nb_wf nb" "a_netbuf_put_data nb src len m = Some (nb1, m')"
  shows "packet_bytes m' nb1 = packet_bytes m nb @ mem_bytes m src (unat len)
    \<and> a_netbuf_trim nb1 len = Some nb"
proof -
  from assms(2) have nb1: "nb1 = nb\<lparr>nb_tail := nb_tail nb + len\<rparr>" and room: "len \<le> nb_end nb - nb_tail nb"
    by (auto simp: a_netbuf_put_data_def a_netbuf_put_def bind_eq_Some_conv not_less)
  have e: "unat (nb_tail nb + len) = unat (nb_tail nb) + unat len" "nb_data nb \<le> nb_tail nb + len"
    "unat (nb_data nb) \<le> unat (nb_tail nb)"
    using assms(1) word_plus_le [OF _ room] by (auto simp: nb_wf_def word_le_nat_alt)
  have "a_netbuf_trim nb1 len = Some nb"
    using e unat_diff_word [OF e(2)]
    by (simp add: nb1 a_netbuf_trim_def A_ASSERT_bind_Some not_less word_le_nat_alt)
  then show ?thesis using a_netbuf_put_data_bytes [OF assms] by simp
qed

lemma netbuf_put_data_appends_witness:
  "\<exists>nb1 m'. a_netbuf_put_data (a_netbuf_configure 0x1000 64 2 256) 0x2000 2 (\<lambda>a. ucast a)
      = Some (nb1, m') \<and> packet_bytes m' nb1 = [64, 65, 0, 1]"
proof -
  let ?nb = "a_netbuf_configure 0x1000 64 2 256" and ?m = "(\<lambda>a. ucast a) :: memory"
  have wf: "nb_wf ?nb" by (simp add: a_netbuf_configure_def nb_wf_def)
  obtain nb1 m' where put: "a_netbuf_put_data ?nb 0x2000 2 ?m = Some (nb1, m')"
    by (simp add: a_netbuf_configure_def a_netbuf_put_data_def a_netbuf_put_def)
  have "packet_bytes m' nb1 = packet_bytes ?m ?nb @ mem_bytes ?m 0x2000 (unat (2 :: u32))"
    using netbuf_put_data_appends [OF wf put] by blast
  with put show ?thesis
    by (simp add: a_netbuf_configure_def packet_bytes_def mem_bytes_def upt_rec)
qed

end
