(* ===== verification/Netbuf_Queue.thy ===== *)
theory Netbuf_Queue
  imports Netbuf
begin

text \<open>
  The packet queues of \<^verbatim>\<open>custom_src/driver/cust_driver_netbuf.c\<close>: singly linked through
  \<open>queueLink\<close>, with head and tail pointers and a 16-bit count. The functions change the objects and
  the queue record; both are in the pair \<open>qstate\<close>.

  The interface the rest of the driver relies on is the locale \<open>packet_queue\<close>: enqueue, prequeue
  and dequeue against an abstract list of packets. It is interpreted below on the code's linked
  queue, and again on the queues of the driver context.
\<close>

record A_NETBUF_QUEUE_T =
  q_head :: ptr
  q_tail :: ptr
  q_count :: u16

type_synonym nbmap = "ptr \<Rightarrow> netbuf"
type_synonym qstate = "nbmap \<times> A_NETBUF_QUEUE_T"

definition set_link :: "ptr \<Rightarrow> ptr \<Rightarrow> nbmap \<Rightarrow> nbmap" where
  "set_link p n h = h(p := (h p)\<lparr>queueLink := n\<rparr>)"

definition a_netbuf_queue_init :: "A_NETBUF_QUEUE_T" where
  "a_netbuf_queue_init = \<lparr>q_head = NULL, q_tail = NULL, q_count = 0\<rparr>"

fun a_netbuf_enqueue :: "qstate \<Rightarrow> ptr \<Rightarrow> qstate" where
  "a_netbuf_enqueue (h, q) pReq = (
     let (h, q) = (if q_head q = NULL then (h, q\<lparr>q_head := pReq\<rparr>)
                   else (set_link (q_tail q) pReq h, q));
         q = q\<lparr>q_tail := pReq\<rparr>;
         h = set_link pReq NULL h
     in (h, q\<lparr>q_count := q_count q + 1\<rparr>))"

fun a_netbuf_prequeue :: "qstate \<Rightarrow> ptr \<Rightarrow> qstate" where
  "a_netbuf_prequeue (h, q) pReq = (
     let q = (if q_head q = NULL then q\<lparr>q_tail := pReq\<rparr> else q);
         h = set_link pReq (q_head q) h
     in (h, q\<lparr>q_head := pReq, q_count := q_count q + 1\<rparr>))"

fun a_netbuf_dequeue :: "qstate \<Rightarrow> ptr \<times> qstate" where
  "a_netbuf_dequeue (h, q) = (
     if q_head q = NULL then (NULL, h, q)
     else let pReq = q_head q;
              q = (if q_tail q = q_head q then q\<lparr>q_tail := NULL, q_head := NULL\<rparr>
                   else q\<lparr>q_head := queueLink (h pReq)\<rparr>);
              q = q\<lparr>q_count := q_count q - 1\<rparr>
          in (pReq, set_link pReq NULL h, q))"

text \<open>The search of \<open>a_netbuf_dequeue_adv\<close>: the packet whose data pointer is \<open>pkt\<close> and the one
  before it; on a cyclic list without a match the loop does not end.\<close>

partial_function (option) adv_find :: "nbmap \<Rightarrow> ptr \<Rightarrow> ptr \<Rightarrow> ptr \<Rightarrow> (ptr \<times> ptr) option" where
  "adv_find h pkt prev cur =
     (if cur = NULL then Some (prev, cur)
      else if nb_data (h cur) = pkt then Some (prev, cur)
      else adv_find h pkt cur (queueLink (h cur)))"

fun a_netbuf_dequeue_adv :: "qstate \<Rightarrow> ptr \<Rightarrow> (ptr \<times> qstate) option" where
  "a_netbuf_dequeue_adv (h, q) pkt = (
     if q_head q = NULL then Some (NULL, h, q)
     else do {
       (prev, cur) \<leftarrow> adv_find h pkt NULL (q_head q);
       (let (h, q) =
          (if cur = NULL then (h, q)
           else if cur = q_head q then (h, q\<lparr>q_head := queueLink (h cur)\<rparr>)
           else (set_link prev (queueLink (h cur)) h,
                 if q_tail q = cur then q\<lparr>q_tail := prev\<rparr> else q))
        in Some (if cur \<noteq> NULL
                 then (cur, set_link cur NULL h, q\<lparr>q_count := q_count q - 1\<rparr>)
                 else (cur, h, q)))
     })"

section \<open>The interface\<close>

datatype 'a queue_op = Enq 'a | Preq 'a | Deq

text \<open>What a list of packets does, and what an implementation does, on a list of operations;
  the results are the packets dequeued (the null packet from an empty queue).\<close>

fun list_queue_run :: "'a \<Rightarrow> 'a list \<Rightarrow> 'a queue_op list \<Rightarrow> 'a list \<times> 'a list" where
  "list_queue_run null xs [] = ([], xs)"
| "list_queue_run null xs (Enq x # opers) = list_queue_run null (xs @ [x]) opers"
| "list_queue_run null xs (Preq x # opers) = list_queue_run null (x # xs) opers"
| "list_queue_run null [] (Deq # opers) =
     (let (out, ys) = list_queue_run null [] opers in (null # out, ys))"
| "list_queue_run null (x # xs) (Deq # opers) =
     (let (out, ys) = list_queue_run null xs opers in (x # out, ys))"

fun queue_run :: "('s \<Rightarrow> 'a \<Rightarrow> 's) \<Rightarrow> ('s \<Rightarrow> 'a \<Rightarrow> 's) \<Rightarrow> ('s \<Rightarrow> 'a \<times> 's) \<Rightarrow>
    's \<Rightarrow> 'a queue_op list \<Rightarrow> 'a list \<times> 's" where
  "queue_run enq preq deq s [] = ([], s)"
| "queue_run enq preq deq s (Enq x # opers) = queue_run enq preq deq (enq s x) opers"
| "queue_run enq preq deq s (Preq x # opers) = queue_run enq preq deq (preq s x) opers"
| "queue_run enq preq deq s (Deq # opers) =
     (let (y, s) = deq s; (out, s) = queue_run enq preq deq s opers in (y # out, s))"

text \<open>A client uses the queue correctly when it never enqueues the null packet or one that is
  already in the queue, and never more packets than the queue can count.\<close>

fun queue_legal :: "'a \<Rightarrow> nat \<Rightarrow> 'a list \<Rightarrow> 'a queue_op list \<Rightarrow> bool" where
  "queue_legal null cap xs [] \<longleftrightarrow> True"
| "queue_legal null cap xs (Enq x # opers) \<longleftrightarrow>
     x \<noteq> null \<and> x \<notin> set xs \<and> length xs < cap \<and> queue_legal null cap (xs @ [x]) opers"
| "queue_legal null cap xs (Preq x # opers) \<longleftrightarrow>
     x \<noteq> null \<and> x \<notin> set xs \<and> length xs < cap \<and> queue_legal null cap (x # xs) opers"
| "queue_legal null cap xs (Deq # opers) \<longleftrightarrow> queue_legal null cap (tl xs) opers"

text \<open>The loop of a client that takes each queued packet once and puts back those it keeps.\<close>

primrec requeue :: "('s \<Rightarrow> 'a \<Rightarrow> 's) \<Rightarrow> ('s \<Rightarrow> 'a \<times> 's) \<Rightarrow> 'a \<Rightarrow> ('s \<Rightarrow> 'a \<Rightarrow> bool) \<Rightarrow>
    ('s \<Rightarrow> 'a \<Rightarrow> 's option) \<Rightarrow> nat \<Rightarrow> 's \<Rightarrow> 's option" where
  "requeue enq deq null keep discard 0 s = Some s"
| "requeue enq deq null keep discard (Suc n) s =
     (case deq s of (x, s) \<Rightarrow>
        if x = null then requeue enq deq null keep discard n s
        else if keep s x then requeue enq deq null keep discard n (enq s x)
        else do {s \<leftarrow> discard s x; requeue enq deq null keep discard n s})"

locale packet_queue =
  fixes enq :: "'s \<Rightarrow> 'a \<Rightarrow> 's"
    and preq :: "'s \<Rightarrow> 'a \<Rightarrow> 's"
    and deq :: "'s \<Rightarrow> 'a \<times> 's"
    and rep :: "'s \<Rightarrow> 'a list \<Rightarrow> bool"
    and null :: 'a
    and cap :: nat
  assumes rep_enq: "rep s xs \<Longrightarrow> x \<noteq> null \<Longrightarrow> x \<notin> set xs \<Longrightarrow> length xs < cap \<Longrightarrow> rep (enq s x) (xs @ [x])"
    and rep_preq: "rep s xs \<Longrightarrow> x \<noteq> null \<Longrightarrow> x \<notin> set xs \<Longrightarrow> length xs < cap \<Longrightarrow> rep (preq s x) (x # xs)"
    and deq_empty: "rep s [] \<Longrightarrow> deq s = (null, s)"
    and deq_first: "rep s (x # xs) \<Longrightarrow> \<exists>s'. deq s = (x, s') \<and> rep s' xs"
    and rep_distinct: "rep s xs \<Longrightarrow> distinct xs \<and> null \<notin> set xs \<and> length xs \<le> cap"
begin

lemma run_refines:
  assumes "rep s xs" "queue_legal null cap xs opers"
  shows "fst (queue_run enq preq deq s opers) = fst (list_queue_run null xs opers)
    \<and> rep (snd (queue_run enq preq deq s opers)) (snd (list_queue_run null xs opers))"
  using assms
proof (induction opers arbitrary: s xs)
  case (Cons oper opers)
  show ?case
  proof (cases oper)
    case Deq
    show ?thesis
    proof (cases xs)
      case Nil
      with Cons Deq deq_empty [of s] show ?thesis by (auto simp: split_beta)
    next
      case (Cons x ys)
      with Cons.prems deq_first obtain s' where "deq s = (x, s')" "rep s' ys" by blast
      with Cons Deq Cons.IH [of s' ys] Cons.prems show ?thesis by (auto simp: split_beta)
    qed
  qed (use Cons rep_enq rep_preq in auto)
qed simp

text \<open>Taking every packet once and putting back the kept ones leaves them in their order. \<open>I s zs\<close> is
  what a round needs to know of a state whose queue holds \<open>zs\<close>.\<close>

lemma requeue_filter:
  assumes "rep s (xs @ ys)" "I s (xs @ ys)"
    and put: "\<And>s s' x zs. I s (x # zs) \<Longrightarrow> rep s (x # zs) \<Longrightarrow> deq s = (x, s') \<Longrightarrow>
                keep s' x = K x \<and> (K x \<longrightarrow> I (enq s' x) (zs @ [x]))"
    and drop: "\<And>s s' s'' x zs. I s (x # zs) \<Longrightarrow> rep s (x # zs) \<Longrightarrow> deq s = (x, s') \<Longrightarrow> rep s' zs \<Longrightarrow> \<not> K x \<Longrightarrow>
                discard s' x = Some s'' \<Longrightarrow> I s'' zs \<and> rep s'' zs"
    and "requeue enq deq null keep discard (length xs) s = Some s'"
  shows "rep s' (ys @ filter K xs) \<and> I s' (ys @ filter K xs)"
  using assms(1,2,5)
proof (induction xs arbitrary: s ys)
  case (Cons x xs)
  have rep: "rep s (x # xs @ ys)" and inv: "I s (x # xs @ ys)" using Cons.prems(1,2) by simp_all
  from deq_first [OF rep] obtain s1 where s1: "deq s = (x, s1)" "rep s1 (xs @ ys)" by blast
  have x: "x \<noteq> null" "x \<notin> set (xs @ ys)" "length (xs @ ys) < cap"
    using rep_distinct [OF rep] by auto
  show ?case
  proof (cases "K x")
    case True
    have "rep (enq s1 x) (xs @ ys @ [x])" using rep_enq [OF s1(2) x] by simp
    moreover have "I (enq s1 x) (xs @ ys @ [x])" using put [OF inv rep s1(1)] True by simp
    moreover have "requeue enq deq null keep discard (length xs) (enq s1 x) = Some s'"
      using Cons.prems(3) s1(1) x(1) put [OF inv rep s1(1)] True by simp
    ultimately show ?thesis using Cons.IH [of "enq s1 x" "ys @ [x]"] True by simp
  next
    case False
    then obtain s2 where s2: "discard s1 x = Some s2"
        "requeue enq deq null keep discard (length xs) s2 = Some s'"
      using Cons.prems(3) s1(1) x(1) put [OF inv rep s1(1)] by (auto simp: bind_eq_Some_conv)
    have "I s2 (xs @ ys) \<and> rep s2 (xs @ ys)" using drop [OF inv rep s1(1,2) False s2(1)] .
    then show ?thesis using Cons.IH [of s2 ys, OF _ _ s2(2)] False by simp
  qed
qed simp

end

section \<open>The linked queue\<close>

fun linked :: "nbmap \<Rightarrow> ptr \<Rightarrow> ptr list \<Rightarrow> bool" where
  "linked h p [] \<longleftrightarrow> p = NULL"
| "linked h p (x # xs) \<longleftrightarrow> p = x \<and> x \<noteq> NULL \<and> linked h (queueLink (h x)) xs"

definition queue_cap :: nat where "queue_cap = 65535"

definition queue_rep :: "qstate \<Rightarrow> ptr list \<Rightarrow> bool" where
  "queue_rep s xs \<longleftrightarrow> (case s of (h, q) \<Rightarrow>
     linked h (q_head q) xs \<and> distinct xs \<and> length xs \<le> queue_cap
     \<and> (xs \<noteq> [] \<longrightarrow> q_tail q = last xs) \<and> q_count q = of_nat (length xs))"

lemma linked_not_null: "linked h p xs \<Longrightarrow> NULL \<notin> set xs"
  by (induction xs arbitrary: p) auto

lemma linked_head: "linked h p xs \<Longrightarrow> p = (case xs of [] \<Rightarrow> NULL | x # _ \<Rightarrow> x)"
  by (cases xs) auto

lemma linked_cong: "(\<And>x. x \<in> set xs \<Longrightarrow> queueLink (h' x) = queueLink (h x)) \<Longrightarrow> linked h' p xs = linked h p xs"
  by (induction xs arbitrary: p) auto

lemma queueLink_set_link [simp]:
  "queueLink (set_link x n h y) = (if y = x then n else queueLink (h y))"
  by (simp add: set_link_def)

lemma linked_set_link_other [simp]: "x \<notin> set xs \<Longrightarrow> linked (set_link x n h) p xs = linked h p xs"
  by (rule linked_cong) auto

lemma linked_append:
  "linked h p xs \<Longrightarrow> distinct (xs @ [x]) \<Longrightarrow> xs \<noteq> [] \<Longrightarrow> x \<noteq> NULL \<Longrightarrow>
   linked (set_link x NULL (set_link (last xs) x h)) p (xs @ [x])"
proof (induction xs arbitrary: p)
  case (Cons y ys)
  show ?case
  proof (cases "ys = []")
    case True
    with Cons.prems show ?thesis by auto
  next
    case False
    then have "last ys \<in> set ys" by simp
    with Cons.prems False have "y \<noteq> last ys" "y \<noteq> x" by auto
    moreover from False Cons have
      "linked (set_link x NULL (set_link (last ys) x h)) (queueLink (h y)) (ys @ [x])" by simp
    ultimately show ?thesis using Cons.prems False by simp
  qed
qed simp

lemma queue_rep_enqueue:
  assumes "queue_rep s xs" "x \<noteq> NULL" "x \<notin> set xs" "length xs < queue_cap"
  shows "queue_rep (a_netbuf_enqueue s x) (xs @ [x])"
proof (cases s)
  case (Pair h q)
  show ?thesis
  proof (cases "xs = []")
    case True
    with assms Pair show ?thesis
      by (auto simp: queue_rep_def queue_cap_def)
  next
    case False
    then have "q_head q \<noteq> NULL" "q_tail q = last xs"
      using assms(1) Pair by (auto simp: queue_rep_def neq_Nil_conv)
    with False assms Pair linked_append [of h "q_head q" xs x] show ?thesis
      by (auto simp: queue_rep_def)
  qed
qed

lemma queue_rep_prequeue:
  assumes "queue_rep s xs" "x \<noteq> NULL" "x \<notin> set xs" "length xs < queue_cap"
  shows "queue_rep (a_netbuf_prequeue s x) (x # xs)"
proof (cases s)
  case (Pair h q)
  from assms Pair show ?thesis
    by (cases xs) (auto simp: queue_rep_def)
qed

lemma queue_rep_dequeue_empty: "queue_rep s [] \<Longrightarrow> a_netbuf_dequeue s = (NULL, s)"
  by (cases s) (simp add: queue_rep_def)

lemma queue_rep_dequeue:
  assumes "queue_rep s (x # xs)"
  shows "\<exists>s'. a_netbuf_dequeue s = (x, s') \<and> queue_rep s' xs"
proof (cases s)
  case (Pair h q)
  have count: "of_nat (length (x # xs)) - 1 = (of_nat (length xs) :: u16)" by simp
  show ?thesis
  proof (cases xs)
    case Nil
    with assms Pair show ?thesis by (auto simp: queue_rep_def)
  next
    case (Cons y ys)
    then have "last xs \<in> set xs" by simp
    moreover have "x \<notin> set xs" using assms Pair by (auto simp: queue_rep_def)
    ultimately have "last xs \<noteq> x" by metis
    moreover have "last xs = q_tail q" "q_head q = x" using assms Pair Cons by (auto simp: queue_rep_def)
    ultimately show ?thesis
      using assms Pair Cons count by (auto simp: queue_rep_def)
  qed
qed

lemma queue_rep_facts: "queue_rep s xs \<Longrightarrow> distinct xs \<and> NULL \<notin> set xs \<and> length xs \<le> queue_cap"
  by (cases s) (auto simp: queue_rep_def dest: linked_not_null)

interpretation linked_queue: packet_queue a_netbuf_enqueue a_netbuf_prequeue a_netbuf_dequeue
    queue_rep NULL queue_cap
  by unfold_locales
     (rule queue_rep_enqueue queue_rep_prequeue queue_rep_dequeue_empty queue_rep_dequeue
        queue_rep_facts; assumption)+

lemma queue_rep_init: "queue_rep (h, a_netbuf_queue_init) []"
  by (simp add: queue_rep_def a_netbuf_queue_init_def queue_cap_def)

lemma queue_rep_peek:
  "queue_rep (h, q) xs \<Longrightarrow> q_head q = (case xs of [] \<Rightarrow> NULL | x # _ \<Rightarrow> x)"
  by (auto simp: queue_rep_def dest: linked_head split: list.split)

lemma queue_rep_count: "queue_rep (h, q) xs \<Longrightarrow> unat (q_count q) = length xs"
  by (simp add: queue_rep_def queue_cap_def unat_of_nat)

lemma queue_rep_count_0: "queue_rep (h, q) xs \<Longrightarrow> q_count q = 0 \<longleftrightarrow> xs = []"
  using queue_rep_count [of h q xs] by (metis length_0_conv unat_eq_0)

section \<open>Removal from the middle\<close>

lemma adv_find_linked:
  assumes "linked h p xs"
  shows "adv_find h pkt prev p = (let us = takeWhile (\<lambda>x. nb_data (h x) \<noteq> pkt) xs in
     Some (last (prev # us), case drop (length us) xs of [] \<Rightarrow> NULL | c # _ \<Rightarrow> c))"
  using assms
proof (induction xs arbitrary: p prev)
  case Nil
  then show ?case by (simp add: adv_find.simps)
next
  case (Cons x xs)
  then show ?case
    by (subst adv_find.simps) (auto simp: Let_def)
qed

lemma linked_unlink:
  "linked h p (us @ c # vs) \<Longrightarrow> distinct (us @ c # vs) \<Longrightarrow> us \<noteq> [] \<Longrightarrow>
   linked (set_link (last us) (queueLink (h c)) h) p (us @ vs)"
proof (induction us arbitrary: p)
  case (Cons u us)
  show ?case
  proof (cases "us = []")
    case True
    with Cons.prems show ?thesis by auto
  next
    case False
    then have "last us \<in> set us" by simp
    with Cons.prems have "u \<noteq> last us" by auto
    with Cons False show ?thesis by simp
  qed
qed simp

lemma dequeue_adv_absent:
  assumes "queue_rep (h, q) xs" "\<forall>x\<in>set xs. nb_data (h x) \<noteq> pkt"
  shows "a_netbuf_dequeue_adv (h, q) pkt = Some (NULL, h, q)"
proof -
  have "takeWhile (\<lambda>x. nb_data (h x) \<noteq> pkt) xs = xs" using assms(2) by (simp add: takeWhile_eq_all_conv)
  with adv_find_linked [of h "q_head q" xs pkt NULL] assms(1) show ?thesis
    by (auto simp: queue_rep_def Let_def)
qed

lemma dequeue_adv_at:
  assumes rep: "queue_rep (h, q) (us @ c # vs)"
    and us: "\<forall>x\<in>set us. nb_data (h x) \<noteq> pkt" and c: "nb_data (h c) = pkt"
  shows "\<exists>s'. a_netbuf_dequeue_adv (h, q) pkt = Some (c, s') \<and> queue_rep s' (us @ vs)"
proof -
  let ?xs = "us @ c # vs"
  have lk: "linked h (q_head q) ?xs" and dist: "distinct ?xs" and count: "q_count q = of_nat (length ?xs)"
    and len: "length ?xs \<le> queue_cap" and tail: "q_tail q = last ?xs"
    using rep by (auto simp: queue_rep_def)
  have cn: "c \<noteq> NULL" "q_head q \<noteq> NULL"
    using linked_not_null [OF lk] linked_head [OF lk] by (cases us; auto)+
  have tw: "takeWhile (\<lambda>x. nb_data (h x) \<noteq> pkt) ?xs = us"
    using us c by (simp add: takeWhile_append2)
  have find: "adv_find h pkt NULL (q_head q) = Some (last (NULL # us), c)"
    using adv_find_linked [OF lk, of pkt NULL] by (simp only: tw Let_def) simp
  have count': "q_count q - 1 = of_nat (length (us @ vs))" using count by simp
  show ?thesis
  proof (cases "us = []")
    case True
    then have "c = q_head q" "linked h (queueLink (h c)) vs" using lk by auto
    moreover have "vs \<noteq> [] \<longrightarrow> q_tail q = last vs" using tail True by auto
    ultimately show ?thesis
      using True cn dist len find count' by (auto simp: queue_rep_def)
  next
    case False
    have "c \<noteq> q_head q" using linked_head [OF lk] dist False by (cases us) auto
    moreover have "q_tail q = c \<longleftrightarrow> vs = []"
      using tail dist last_in_set [of vs] by (cases "vs = []") auto
    moreover have "linked (set_link (last us) (queueLink (h c)) h) (q_head q) (us @ vs)"
      by (rule linked_unlink [OF lk dist False])
    moreover have "vs \<noteq> [] \<longrightarrow> q_tail q = last (us @ vs)" using tail by auto
    ultimately show ?thesis
      using False cn dist len find count' by (auto simp: queue_rep_def)
  qed
qed

section \<open>Properties\<close>

text \<open>C7. The linked queue is a double-ended list: after initialisation, any sequence of
  enqueue, prequeue and dequeue calls that respects the contract returns exactly the packets the
  abstract list returns, in its order, and leaves the links, the tail and the count consistent
  with it.\<close>

theorem queue_refines_list:
  assumes "queue_legal NULL queue_cap [] opers"
    and "queue_run a_netbuf_enqueue a_netbuf_prequeue a_netbuf_dequeue (h, a_netbuf_queue_init) opers = (out, s)"
  shows "out = fst (list_queue_run NULL [] opers) \<and> queue_rep s (snd (list_queue_run NULL [] opers))"
  using linked_queue.run_refines [OF queue_rep_init assms(1), of h] assms(2) by simp

theorem queue_refines_list_witness:
  "fst (queue_run a_netbuf_enqueue a_netbuf_prequeue a_netbuf_dequeue (\<lambda>_. netbuf_zero, a_netbuf_queue_init)
     [Enq 8, Enq 16, Preq 4, Deq, Deq, Enq 4, Deq, Deq, Deq]) = [4, 8, 16, 4, NULL]"
proof -
  let ?ops = "[Enq 8, Enq 16, Preq 4, Deq, Deq, Enq 4, Deq, Deq, Deq] :: ptr queue_op list"
  have "queue_legal NULL queue_cap [] ?ops" by (simp add: queue_cap_def)
  from queue_refines_list [OF this prod.collapse [symmetric]] show ?thesis by simp
qed

text \<open>\<open>a_netbuf_dequeue_adv\<close> returns on every well-formed queue: with the first packet whose
  data pointer is the one asked for, taken out of the queue with the others left in order, or
  with the null packet and the queue as it was when there is none.\<close>

theorem dequeue_adv_removes_match:
  assumes "queue_rep (h, q) xs"
  shows "\<exists>s'. a_netbuf_dequeue_adv (h, q) pkt =
      Some (case filter (\<lambda>x. nb_data (h x) = pkt) xs of [] \<Rightarrow> NULL | c # _ \<Rightarrow> c, s')
    \<and> queue_rep s' (case filter (\<lambda>x. nb_data (h x) = pkt) xs of [] \<Rightarrow> xs | c # _ \<Rightarrow> remove1 c xs)"
proof (cases "filter (\<lambda>x. nb_data (h x) = pkt) xs")
  case Nil
  then have "\<forall>x\<in>set xs. nb_data (h x) \<noteq> pkt" by (simp add: filter_empty_conv)
  from dequeue_adv_absent [OF assms this] Nil assms show ?thesis by simp
next
  case (Cons c cs)
  then obtain us vs where xs: "xs = us @ c # vs" and us: "\<forall>x\<in>set us. nb_data (h x) \<noteq> pkt"
    and c: "nb_data (h c) = pkt"
    by (auto simp: filter_eq_Cons_iff)
  have "c \<notin> set us" using us c by auto
  then have "remove1 c xs = us @ vs" by (simp add: xs remove1_append)
  with dequeue_adv_at [OF assms [unfolded xs] us c] Cons xs show ?thesis by simp
qed

theorem dequeue_adv_removes_match_witness:
  "\<exists>s'. a_netbuf_dequeue_adv ((\<lambda>p. netbuf_zero\<lparr>nb_data := p + 1, queueLink := if p = 8 then 16 else NULL\<rparr>),
      \<lparr>q_head = 8, q_tail = 16, q_count = 2\<rparr>) 17 = Some (16, s') \<and> queue_rep s' [8]"
proof -
  have "queue_rep ((\<lambda>p. netbuf_zero\<lparr>nb_data := p + 1, queueLink := if p = 8 then 16 else NULL\<rparr>),
      \<lparr>q_head = 8, q_tail = 16, q_count = 2\<rparr>) [8, 16]"
    by (simp add: queue_rep_def queue_cap_def)
  from dequeue_adv_removes_match [OF this, of 17] show ?thesis by simp
qed

end
