(* ===== verification/Driver_Cxt.thy ===== *)
theory Driver_Cxt
  imports Netbuf_Queue
begin

text \<open>
  The driver context: \<open>A_DRIVER_CONTEXT\<close>, its \<open>A_SPI_HCD_CXT\<close> and its endpoints
  (\<^verbatim>\<open>common_src/include/driver_cxt.h\<close>), the endpoint lookups of \<^verbatim>\<open>common_src/util/util.c\<close>, and the
  small functions of \<^verbatim>\<open>common_src/driver/driver_main.c\<close> every other part calls.

  A \<open>QOSAL_BOOL\<close> is a \<open>bool\<close>; the bit fields \<open>booleans\<close>, the interrupt masks and the shadow
  registers keep their width. A pointer to \<open>ep[i]\<close> is the index \<open>i\<close>. The mutexes and the interrupt
  lock are not modelled: a definition is one critical section. The two event objects are flags
  that record that the driver task or a user task has been woken up. \<open>stk\<close> is the address of the
  local buffers of the function that runs (the driver reads and writes them through a packet
  object). \<open>cxt_ptr\<close> is the address of the context itself.
  Only the fields that the modelled functions use are in the record.
\<close>

record A_ENDPOINT_T =
  maxMsgLength :: u16
  serviceID :: u16
  intCredits :: u32
  intCreditCounter :: u8
  rptCreditCounter :: u8
  epIdx :: u8
  credits :: u8
  maxCredits :: u8
  seqNo :: u8

record A_SPI_HCD_CXT =
  PendingIrqAcks :: u8
  IrqsEnabled :: bool
  IrqDetected :: bool
  CpuInterrupt :: u8
  CpuInterruptCause :: u8
  SpiIntEnableShadow :: u16
  SpiConfigShadow :: u16
  irqMask :: u16
  HostAccessDataWidth :: u8
  DMADataWidth :: u8
  ReadBufferSpace :: u32
  WriteBufferSpace :: u32
  MaxWriteBufferSpace :: u32
  pCurrentRequest :: ptr
  OperationalClock :: u32
  PowerUpDelay :: u32
  SpiHWCapabilitiesFlags :: u8
  MiscFlags :: u8

text \<open>The function pointer \<open>asynchRequest\<close>: null, the one of this development, or another one.\<close>

datatype TEMP_FUNC_T = async_NULL | async_query_credit_deficit | async_other nat

record 'e drv = "'e nheap" +
  driver_state :: u16
  txQueryResult :: u8
  txQueryInProgress :: bool
  driver_up :: bool
  chipDown :: bool
  rxBufferStatus :: bool
  creditDeadlock :: bool
  creditDeadlockCounter :: u32
  txQueue :: A_NETBUF_QUEUE_T
  pRxReq :: ptr
  ep :: "nat \<Rightarrow> A_ENDPOINT_T"
  ac2EpMapping :: "nat \<Rightarrow> u8"
  ep2AcMapping :: "nat \<Rightarrow> u8"
  creditCount :: u16
  creditSize :: u16
  targetType :: u32
  targetVersion :: u32
  wmiReady :: bool
  wmiEnabled :: bool
  wmmEnabled :: bool
  promiscuous_mode :: u8
  rssi :: int
  conn_networkType :: u8
  conn_isConnected :: bool
  conn_isConnectPending :: bool
  tx_complete_pend :: bool
  asynchRequest :: TEMP_FUNC_T
  strrclBlock :: bool
  strrclState :: u8
  enabledSpiInts :: u16
  lookAhead :: u32
  mboxAddress :: u32
  blockSize :: u32
  blockMask :: u32
  padBuffer :: ptr
  booleans :: u16
  spi_hcd :: A_SPI_HCD_CXT
  driverSleep :: bool
  htcStart :: bool
  htc_creditInit :: u8
  tempStorage :: ptr
  tempStorageLength :: u16
  rxFreeQueue :: A_NETBUF_QUEUE_T
  pScanOut :: ptr
  driverShutdown :: bool
  driverWakeEvent :: bool
  userWakeEvent :: bool
  wmiControlEp :: u8
  deviceid :: u16
  cmd_len_err :: u32
  cmd_id_err :: u32
  strrclCxt :: ptr
  strrclCxtLen :: int
  stk :: ptr
  cxt_ptr :: ptr

text \<open>A context of zero bytes in the environment \<open>e\<close>.\<close>

definition endpoint_zero :: A_ENDPOINT_T where
  "endpoint_zero = \<lparr>maxMsgLength = 0, serviceID = 0, intCredits = 0, intCreditCounter = 0,
     rptCreditCounter = 0, epIdx = 0, credits = 0, maxCredits = 0, seqNo = 0\<rparr>"

definition spi_hcd_zero :: A_SPI_HCD_CXT where
  "spi_hcd_zero = \<lparr>PendingIrqAcks = 0, IrqsEnabled = False, IrqDetected = False, CpuInterrupt = 0,
     CpuInterruptCause = 0, SpiIntEnableShadow = 0, SpiConfigShadow = 0, irqMask = 0,
     HostAccessDataWidth = 0, DMADataWidth = 0, ReadBufferSpace = 0, WriteBufferSpace = 0,
     MaxWriteBufferSpace = 0, pCurrentRequest = NULL, OperationalClock = 0, PowerUpDelay = 0,
     SpiHWCapabilitiesFlags = 0, MiscFlags = 0\<rparr>"

definition queue_zero :: A_NETBUF_QUEUE_T where
  "queue_zero = \<lparr>q_head = NULL, q_tail = NULL, q_count = 0\<rparr>"

definition drv_zero :: "'e \<Rightarrow> 'e drv" where
  "drv_zero e = \<lparr>hw_env = e, mem = (\<lambda>_. 0), g_totAlloc = 0, nbs = (\<lambda>_. netbuf_zero),
     natives = (\<lambda>_. \<lparr>db_context = NULL, db_bufFragment = (\<lambda>_. \<lparr>frag_length = 0, frag_payload = NULL\<rparr>)\<rparr>),
     driver_state = 0, txQueryResult = 0, txQueryInProgress = False, driver_up = False,
     chipDown = False, rxBufferStatus = False, creditDeadlock = False, creditDeadlockCounter = 0,
     txQueue = queue_zero, pRxReq = NULL, ep = (\<lambda>_. endpoint_zero), ac2EpMapping = (\<lambda>_. 0),
     ep2AcMapping = (\<lambda>_. 0), creditCount = 0, creditSize = 0, targetType = 0, targetVersion = 0,
     wmiReady = False, wmiEnabled = False, wmmEnabled = False, promiscuous_mode = 0, rssi = 0,
     conn_networkType = 0, conn_isConnected = False, conn_isConnectPending = False,
     tx_complete_pend = False, asynchRequest = async_NULL, strrclBlock = False, strrclState = 0,
     enabledSpiInts = 0, lookAhead = 0, mboxAddress = 0, blockSize = 0, blockMask = 0,
     padBuffer = NULL, booleans = 0, spi_hcd = spi_hcd_zero, driverSleep = False, htcStart = False,
     htc_creditInit = 0, tempStorage = NULL, tempStorageLength = 0, rxFreeQueue = queue_zero,
     pScanOut = NULL, driverShutdown = False, driverWakeEvent = False, userWakeEvent = False,
     wmiControlEp = 0, deviceid = 0, cmd_len_err = 0, cmd_id_err = 0,
     strrclCxt = NULL, strrclCxtLen = 0, stk = 0, cxt_ptr = NULL\<rparr>"

lemmas drv_zero_defs = drv_zero_def spi_hcd_zero_def queue_zero_def endpoint_zero_def

definition ENDPOINT_MANAGED_MAX :: u16 where "ENDPOINT_MANAGED_MAX = 3"
definition ENDPOINT_MAX :: u16 where "ENDPOINT_MAX = 6"

abbreviation SDHD_BOOL_SHUTDOWN :: u16 where "SDHD_BOOL_SHUTDOWN \<equiv> 0x1"
abbreviation SDHD_BOOL_DMA_WRITE_WAIT_FOR_BUFFER :: u16 where "SDHD_BOOL_DMA_WRITE_WAIT_FOR_BUFFER \<equiv> 0x4"
abbreviation SDHD_BOOL_DMA_IN_PROG :: u16 where "SDHD_BOOL_DMA_IN_PROG \<equiv> 0x8"
abbreviation SDHD_BOOL_HOST_DMA_COPY_MODE :: u16 where "SDHD_BOOL_HOST_DMA_COPY_MODE \<equiv> 0x20"
abbreviation SDHD_BOOL_HOST_ACCESS_COPY_MODE :: u16 where "SDHD_BOOL_HOST_ACCESS_COPY_MODE \<equiv> 0x40"
abbreviation SDHD_BOOL_FATAL_ERROR :: u16 where "SDHD_BOOL_FATAL_ERROR \<equiv> 0x80"
abbreviation SDHD_BOOL_DMA_COMPLETE :: u16 where "SDHD_BOOL_DMA_COMPLETE \<equiv> 0x100"

text \<open>\<open>if(pDCxt->booleans & flag)\<close>\<close>

definition flag_set :: "u16 \<Rightarrow> 'e drv \<Rightarrow> bool" where
  "flag_set b s \<longleftrightarrow> booleans s AND b \<noteq> 0"

definition set_hcd :: "(A_SPI_HCD_CXT \<Rightarrow> A_SPI_HCD_CXT) \<Rightarrow> 'e drv \<Rightarrow> 'e drv" where
  "set_hcd f s = s\<lparr>spi_hcd := f (spi_hcd s)\<rparr>"

definition set_ep :: "nat \<Rightarrow> (A_ENDPOINT_T \<Rightarrow> A_ENDPOINT_T) \<Rightarrow> 'e drv \<Rightarrow> 'e drv" where
  "set_ep i f s = s\<lparr>ep := (ep s)(i := f (ep s i))\<rparr>"

section \<open>Lookups\<close>

definition Util_GetEndpoint :: "u16 \<Rightarrow> nat" where
  "Util_GetEndpoint i = (let i = (if i \<ge> ENDPOINT_MANAGED_MAX then ENDPOINT_MANAGED_MAX - 1 else i) in unat i)"

definition Util_AC2EndpointID :: "'e drv \<Rightarrow> u8 \<Rightarrow> u8" where
  "Util_AC2EndpointID s ac = ac2EpMapping s (unat ac)"

definition Util_EndpointID2AC :: "'e drv \<Rightarrow> u8 \<Rightarrow> u8" where
  "Util_EndpointID2AC s epid = ep2AcMapping s (unat epid)"

text \<open>\<open>DEV_CALC_RECV_PADDED_LEN\<close> and \<open>DEV_CALC_SEND_PADDED_LEN\<close>.\<close>

definition DEV_CALC_PADDED_LEN :: "'e drv \<Rightarrow> u32 \<Rightarrow> u32" where
  "DEV_CALC_PADDED_LEN s len = (len + blockMask s) AND NOT (blockMask s)"

definition nb_len :: "ptr \<Rightarrow> 'e drv \<Rightarrow> u32" where
  "nb_len p s = a_netbuf_to_len (natives s) (nbs s p)"

section \<open>Events and buffer status\<close>

definition Driver_WakeDriver :: "'e drv \<Rightarrow> 'e drv" where
  "Driver_WakeDriver s = s\<lparr>driverWakeEvent := True\<rparr>"

definition Driver_WakeUser :: "'e drv \<Rightarrow> 'e drv" where
  "Driver_WakeUser s = s\<lparr>userWakeEvent := True\<rparr>"

definition Driver_ReportRxBuffStatus :: "bool \<Rightarrow> 'e drv \<Rightarrow> 'e drv" where
  "Driver_ReportRxBuffStatus status s = (
     let oldStatus = rxBufferStatus s; s = s\<lparr>rxBufferStatus := status\<rparr> in
     if \<not> oldStatus \<and> status then
       if PendingIrqAcks (spi_hcd s) \<noteq> 0 then Driver_WakeDriver s else s
     else s)"

section \<open>The queues of the context\<close>

definition tx_enqueue :: "'e drv \<Rightarrow> ptr \<Rightarrow> 'e drv" where
  "tx_enqueue s p = (case a_netbuf_enqueue (nbs s, txQueue s) p of (h, q) \<Rightarrow> s\<lparr>nbs := h, txQueue := q\<rparr>)"

definition tx_prequeue :: "'e drv \<Rightarrow> ptr \<Rightarrow> 'e drv" where
  "tx_prequeue s p = (case a_netbuf_prequeue (nbs s, txQueue s) p of (h, q) \<Rightarrow> s\<lparr>nbs := h, txQueue := q\<rparr>)"

definition tx_dequeue :: "'e drv \<Rightarrow> ptr \<times> 'e drv" where
  "tx_dequeue s = (case a_netbuf_dequeue (nbs s, txQueue s) of (p, h, q) \<Rightarrow> (p, s\<lparr>nbs := h, txQueue := q\<rparr>))"

definition tx_rep :: "'e drv \<Rightarrow> ptr list \<Rightarrow> bool" where
  "tx_rep s xs \<longleftrightarrow> queue_rep (nbs s, txQueue s) xs"

definition rxfree_enqueue :: "'e drv \<Rightarrow> ptr \<Rightarrow> 'e drv" where
  "rxfree_enqueue s p =
     (case a_netbuf_enqueue (nbs s, rxFreeQueue s) p of (h, q) \<Rightarrow> s\<lparr>nbs := h, rxFreeQueue := q\<rparr>)"

definition rxfree_prequeue :: "'e drv \<Rightarrow> ptr \<Rightarrow> 'e drv" where
  "rxfree_prequeue s p =
     (case a_netbuf_prequeue (nbs s, rxFreeQueue s) p of (h, q) \<Rightarrow> s\<lparr>nbs := h, rxFreeQueue := q\<rparr>)"

definition rxfree_dequeue :: "'e drv \<Rightarrow> ptr \<times> 'e drv" where
  "rxfree_dequeue s =
     (case a_netbuf_dequeue (nbs s, rxFreeQueue s) of (p, h, q) \<Rightarrow> (p, s\<lparr>nbs := h, rxFreeQueue := q\<rparr>))"

definition rxfree_rep :: "'e drv \<Rightarrow> ptr list \<Rightarrow> bool" where
  "rxfree_rep s xs \<longleftrightarrow> queue_rep (nbs s, rxFreeQueue s) xs"

interpretation txq: packet_queue tx_enqueue tx_prequeue tx_dequeue tx_rep NULL queue_cap
proof unfold_locales
  fix s :: "'e drv" and xs :: "ptr list" and x :: ptr
  show "tx_rep (tx_enqueue s x) (xs @ [x])" if "tx_rep s xs" "x \<noteq> NULL" "x \<notin> set xs" "length xs < queue_cap"
    using queue_rep_enqueue [OF that [unfolded tx_rep_def]] by (auto simp: tx_rep_def tx_enqueue_def split: prod.splits)
  show "tx_rep (tx_prequeue s x) (x # xs)" if "tx_rep s xs" "x \<noteq> NULL" "x \<notin> set xs" "length xs < queue_cap"
    using queue_rep_prequeue [OF that [unfolded tx_rep_def]] by (auto simp: tx_rep_def tx_prequeue_def split: prod.splits)
  show "tx_dequeue s = (NULL, s)" if "tx_rep s []"
    using queue_rep_dequeue_empty [OF that [unfolded tx_rep_def]] by (simp add: tx_dequeue_def)
  show "\<exists>s'. tx_dequeue s = (x, s') \<and> tx_rep s' xs" if "tx_rep s (x # xs)"
    using queue_rep_dequeue [OF that [unfolded tx_rep_def]] by (auto simp: tx_rep_def tx_dequeue_def)
  show "distinct xs \<and> NULL \<notin> set xs \<and> length xs \<le> queue_cap" if "tx_rep s xs"
    using that by (auto simp: tx_rep_def dest: queue_rep_facts)
qed

interpretation rxfree: packet_queue rxfree_enqueue rxfree_prequeue rxfree_dequeue rxfree_rep NULL queue_cap
proof unfold_locales
  fix s :: "'e drv" and xs :: "ptr list" and x :: ptr
  show "rxfree_rep (rxfree_enqueue s x) (xs @ [x])"
    if "rxfree_rep s xs" "x \<noteq> NULL" "x \<notin> set xs" "length xs < queue_cap"
    using queue_rep_enqueue [OF that [unfolded rxfree_rep_def]]
    by (auto simp: rxfree_rep_def rxfree_enqueue_def split: prod.splits)
  show "rxfree_rep (rxfree_prequeue s x) (x # xs)"
    if "rxfree_rep s xs" "x \<noteq> NULL" "x \<notin> set xs" "length xs < queue_cap"
    using queue_rep_prequeue [OF that [unfolded rxfree_rep_def]]
    by (auto simp: rxfree_rep_def rxfree_prequeue_def split: prod.splits)
  show "rxfree_dequeue s = (NULL, s)" if "rxfree_rep s []"
    using queue_rep_dequeue_empty [OF that [unfolded rxfree_rep_def]] by (simp add: rxfree_dequeue_def)
  show "\<exists>s'. rxfree_dequeue s = (x, s') \<and> rxfree_rep s' xs" if "rxfree_rep s (x # xs)"
    using queue_rep_dequeue [OF that [unfolded rxfree_rep_def]] by (auto simp: rxfree_rep_def rxfree_dequeue_def)
  show "distinct xs \<and> NULL \<notin> set xs \<and> length xs \<le> queue_cap" if "rxfree_rep s xs"
    using that by (auto simp: rxfree_rep_def dest: queue_rep_facts)
qed

section \<open>Lemmas\<close>

lemma Util_GetEndpoint_less: "Util_GetEndpoint i < 3"
proof (cases "3 \<le> i")
  case True
  then show ?thesis by (simp add: Util_GetEndpoint_def ENDPOINT_MANAGED_MAX_def)
next
  case False
  then have "i < 3" by simp
  then have "unat i < unat (3 :: u16)" by (simp only: word_less_nat_alt)
  with False show ?thesis by (simp add: Util_GetEndpoint_def ENDPOINT_MANAGED_MAX_def)
qed

lemma Util_GetEndpoint_simps [simp]:
  "Util_GetEndpoint 0 = 0" "Util_GetEndpoint 1 = 1" "Util_GetEndpoint 2 = 2"
  by (simp_all add: Util_GetEndpoint_def ENDPOINT_MANAGED_MAX_def word_le_nat_alt)

lemma set_hcd_simps [simp]: "spi_hcd (set_hcd f s) = f (spi_hcd s)" "booleans (set_hcd f s) = booleans s"
  by (simp_all add: set_hcd_def)

lemma ep_set_ep [simp]: "ep (set_ep i f s) j = (if j = i then f (ep s i) else ep s j)"
  by (simp add: set_ep_def)

end
