(* ===== verification/Spi_Hcd.thy ===== *)
theory Spi_Hcd
  imports Driver_Cxt
begin

text \<open>
  The host controller driver for the SPI bus, \<^verbatim>\<open>common_src/hcd/spi_hcd.c\<close>, on top of the platform's
  bus functions \<^verbatim>\<open>custom_src/hw_interface/cust_spi_hcd.c\<close>.

  A function that can reach a failing assertion is in the option monad; the others return their
  result and the new state. A packet object that a function only reads is passed by value, with
  its bytes in the memory of the state. The \<open>sync\<close> arguments are not modelled: every transfer of
  this platform is synchronous.
\<close>

section \<open>Registers\<close>

abbreviation ATH_TRANS_DS_8 :: u8 where "ATH_TRANS_DS_8 \<equiv> 0"
abbreviation ATH_TRANS_DS_16 :: u8 where "ATH_TRANS_DS_16 \<equiv> 1"
abbreviation ATH_TRANS_DS_32 :: u8 where "ATH_TRANS_DS_32 \<equiv> 3"
abbreviation ATH_TRANS_DMA :: u16 where "ATH_TRANS_DMA \<equiv> 0x4"
abbreviation ATH_TRANS_EXT_TRANS :: u16 where "ATH_TRANS_EXT_TRANS \<equiv> 0x10"
abbreviation ATH_TRANS_EXT_TRANS_ADDR_INC :: u16 where "ATH_TRANS_EXT_TRANS_ADDR_INC \<equiv> 0"
abbreviation ATH_TRANS_EXT_TRANS_ADDR_FIXED :: u16 where "ATH_TRANS_EXT_TRANS_ADDR_FIXED \<equiv> 0x20"
abbreviation ATH_TRANS_READ :: u16 where "ATH_TRANS_READ \<equiv> 0x80"
abbreviation ATH_TRANS_WRITE :: u16 where "ATH_TRANS_WRITE \<equiv> 0"
abbreviation ATH_TRANS_ADDR_MASK :: u32 where "ATH_TRANS_ADDR_MASK \<equiv> 0x7FFF"

abbreviation CMD_ADDR_READ :: u16 where "CMD_ADDR_READ \<equiv> 0x8000"
abbreviation CMD_ADDRESS_INTERNAL :: u16 where "CMD_ADDRESS_INTERNAL \<equiv> 0x4000"

abbreviation ATH_SPI_DMA_SIZE_REG :: u16 where "ATH_SPI_DMA_SIZE_REG \<equiv> 0x0100"
abbreviation ATH_SPI_WRBUF_SPC_AVA_REG :: u16 where "ATH_SPI_WRBUF_SPC_AVA_REG \<equiv> 0x0200"
abbreviation ATH_SPI_RDBUF_BYTE_AVA_REG :: u16 where "ATH_SPI_RDBUF_BYTE_AVA_REG \<equiv> 0x0300"
abbreviation ATH_SPI_CONFIG_REG :: u16 where "ATH_SPI_CONFIG_REG \<equiv> 0x0400"
abbreviation ATH_SPI_STATUS_REG :: u16 where "ATH_SPI_STATUS_REG \<equiv> 0x0500"
abbreviation ATH_SPI_HOST_CTRL_BYTE_SIZE_REG :: u16 where "ATH_SPI_HOST_CTRL_BYTE_SIZE_REG \<equiv> 0x0600"
abbreviation ATH_SPI_HOST_CTRL_CONFIG_REG :: u16 where "ATH_SPI_HOST_CTRL_CONFIG_REG \<equiv> 0x0700"
abbreviation ATH_SPI_HOST_CTRL_RD_PORT_REG :: u16 where "ATH_SPI_HOST_CTRL_RD_PORT_REG \<equiv> 0x0800"
abbreviation ATH_SPI_HOST_CTRL_WR_PORT_REG :: u16 where "ATH_SPI_HOST_CTRL_WR_PORT_REG \<equiv> 0x0A00"
abbreviation ATH_SPI_INTR_CAUSE_REG :: u16 where "ATH_SPI_INTR_CAUSE_REG \<equiv> 0x0C00"
abbreviation ATH_SPI_INTR_ENABLE_REG :: u16 where "ATH_SPI_INTR_ENABLE_REG \<equiv> 0x0D00"
abbreviation ATH_SPI_WRBUF_WATERMARK_REG :: u16 where "ATH_SPI_WRBUF_WATERMARK_REG \<equiv> 0x1300"
abbreviation ATH_SPI_RDBUF_LOOKAHEAD1_REG :: u16 where "ATH_SPI_RDBUF_LOOKAHEAD1_REG \<equiv> 0x1400"
abbreviation ATH_SPI_RDBUF_LOOKAHEAD2_REG :: u16 where "ATH_SPI_RDBUF_LOOKAHEAD2_REG \<equiv> 0x1500"

abbreviation ATH_SPI_CONFIG_RESET :: u16 where "ATH_SPI_CONFIG_RESET \<equiv> 0x8000"
abbreviation ATH_SPI_CONFIG_IO_ENABLE :: u16 where "ATH_SPI_CONFIG_IO_ENABLE \<equiv> 0x80"
abbreviation ATH_SPI_CONFIG_BYTE_SWAP :: u16 where "ATH_SPI_CONFIG_BYTE_SWAP \<equiv> 0x4"
abbreviation ATH_SPI_CONFIG_SWAP_16BIT :: u16 where "ATH_SPI_CONFIG_SWAP_16BIT \<equiv> 0x2"
abbreviation ATH_SPI_STATUS_HOST_ACCESS_DONE :: u32 where "ATH_SPI_STATUS_HOST_ACCESS_DONE \<equiv> 1"
abbreviation ATH_SPI_STATUS_RTC_STATE_MASK :: u32 where "ATH_SPI_STATUS_RTC_STATE_MASK \<equiv> 6"
abbreviation ATH_SPI_STATUS_RTC_STATE_SLEEP :: u32 where "ATH_SPI_STATUS_RTC_STATE_SLEEP \<equiv> 4"
abbreviation ATH_SPI_HOST_CTRL_NO_ADDR_INC :: u32 where "ATH_SPI_HOST_CTRL_NO_ADDR_INC \<equiv> 0x40"
abbreviation ATH_SPI_HOST_CTRL_CONFIG_ENABLE :: u32 where "ATH_SPI_HOST_CTRL_CONFIG_ENABLE \<equiv> 0x8000"
abbreviation ATH_SPI_HOST_CTRL_CONFIG_DIR_WRITE :: u32 where "ATH_SPI_HOST_CTRL_CONFIG_DIR_WRITE \<equiv> 0x4000"

abbreviation ATH_SPI_INTR_PKT_AVAIL :: "'a::len word" where "ATH_SPI_INTR_PKT_AVAIL \<equiv> 0x1"
abbreviation ATH_SPI_HCD_ERROR_IRQS :: "'a::len word" where "ATH_SPI_HCD_ERROR_IRQS \<equiv> 0xE"
abbreviation ATH_SPI_INTR_LOCAL_CPU_INTR :: "'a::len word" where "ATH_SPI_INTR_LOCAL_CPU_INTR \<equiv> 0x10"
abbreviation ATH_SPI_INTR_CPU_INTR :: "'a::len word" where "ATH_SPI_INTR_CPU_INTR \<equiv> 0x80"
abbreviation ATH_SPI_INTR_HOST_CTRL_ACCESS_DONE :: "'a::len word" where
  "ATH_SPI_INTR_HOST_CTRL_ACCESS_DONE \<equiv> 0x300"
abbreviation ATH_SPI_INTR_WRBUF_BELOW_WMARK :: "'a::len word" where "ATH_SPI_INTR_WRBUF_BELOW_WMARK \<equiv> 0x400"
abbreviation ATH_SPI_HCD_IRQ_SOURCES :: "'a::len word" where "ATH_SPI_HCD_IRQ_SOURCES \<equiv> 0x40E"

abbreviation ATH_SPI_WRBUF_RSVD_BYTES :: u32 where "ATH_SPI_WRBUF_RSVD_BYTES \<equiv> 5"
abbreviation CPU_INT_STATUS_ADDRESS :: u32 where "CPU_INT_STATUS_ADDRESS \<equiv> 0x401"
abbreviation CPU_INT_STATUS_ENABLE_ADDRESS :: u32 where "CPU_INT_STATUS_ENABLE_ADDRESS \<equiv> 0x419"
abbreviation COUNT_ADDRESS :: u32 where "COUNT_ADDRESS \<equiv> 0x420"
abbreviation AR4XXX_NORMAL_CLOCK_RATE :: u32 where "AR4XXX_NORMAL_CLOCK_RATE \<equiv> 24000000"
abbreviation EXPECTED_MAX_WRITE_BUFFER_SPACE :: u32 where "EXPECTED_MAX_WRITE_BUFFER_SPACE \<equiv> 3163"
abbreviation HW_SPI_FRAME_WIDTH_8 :: u8 where "HW_SPI_FRAME_WIDTH_8 \<equiv> 0x01"
abbreviation HW_SPI_FRAME_WIDTH_16 :: u8 where "HW_SPI_FRAME_WIDTH_16 \<equiv> 0x02"
abbreviation HW_SPI_FRAME_WIDTH_32 :: u8 where "HW_SPI_FRAME_WIDTH_32 \<equiv> 0x08"
abbreviation HW_SPI_INT_EDGE_DETECT :: u8 where "HW_SPI_INT_EDGE_DETECT \<equiv> 0x80"
abbreviation MISC_FLAG_RESET_SPI_IF_SHUTDOWN :: u8 where "MISC_FLAG_RESET_SPI_IF_SHUTDOWN \<equiv> 0x02"

text \<open>\<open>ATH_IS_TRANS_READ\<close>, \<open>ATH_IS_TRANS_EXT_ADDR_FIXED\<close> and \<open>ATH_SET_PIO_EXTERNAL_OPERATION\<close>.\<close>

definition ATH_IS_TRANS_READ :: "netbuf \<Rightarrow> bool" where
  "ATH_IS_TRANS_READ req \<longleftrightarrow> t_cmd (trans req) AND ATH_TRANS_READ \<noteq> 0"

definition ATH_IS_TRANS_EXT_ADDR_FIXED :: "netbuf \<Rightarrow> bool" where
  "ATH_IS_TRANS_EXT_ADDR_FIXED req \<longleftrightarrow> t_cmd (trans req) AND ATH_TRANS_EXT_TRANS_ADDR_FIXED \<noteq> 0"

definition ATH_SET_PIO_EXTERNAL_OPERATION :: "netbuf \<Rightarrow> u16 \<Rightarrow> u32 \<Rightarrow> bool \<Rightarrow> u16 \<Rightarrow> netbuf" where
  "ATH_SET_PIO_EXTERNAL_OPERATION req dir addr incaddr len = req\<lparr>trans := (trans req)
     \<lparr>t_cmd := dir OR ATH_TRANS_EXT_TRANS OR
                (if incaddr then ATH_TRANS_EXT_TRANS_ADDR_INC else ATH_TRANS_EXT_TRANS_ADDR_FIXED),
      t_address := ucast (addr AND ATH_TRANS_ADDR_MASK),
      t_transferLength := len\<rparr>\<rparr>"

section \<open>The platform's bus functions\<close>

definition Custom_Hcd_EnableDisableSPIIRQ :: "'e mqx \<Rightarrow> bool \<Rightarrow> 'e drv \<Rightarrow> 'e drv" where
  "Custom_Hcd_EnableDisableSPIIRQ M enable s = s\<lparr>hw_env := gpio_irq M enable (hw_env s)\<rparr>"

definition Custom_Bus_InOutBuffer :: "'e mqx \<Rightarrow> ptr \<Rightarrow> u16 \<Rightarrow> bool \<Rightarrow> 'e drv \<Rightarrow> A_STATUS \<times> 'e drv" where
  "Custom_Bus_InOutBuffer M pBuffer len doRead s =
     (if doRead then
        case spi_fread M (unat len) (hw_env s) of (bs, e) \<Rightarrow>
          (if unat len \<noteq> length bs then A_HARDWARE else A_OK,
           s\<lparr>hw_env := e, mem := mem_put (mem s) pBuffer bs\<rparr>)
      else
        case spi_fwrite M (mem_bytes (mem s) pBuffer (unat len)) (hw_env s) of (n, e) \<Rightarrow>
          (if unat len \<noteq> n then A_HARDWARE else A_OK, s\<lparr>hw_env := e\<rparr>))"

definition Custom_Bus_StartTransfer :: "'e mqx \<Rightarrow> 'e drv \<Rightarrow> A_STATUS \<times> 'e drv" where
  "Custom_Bus_StartTransfer M s = (case spi_set_mode M (hw_env s) of (ok, e) \<Rightarrow>
     (if ok then A_OK else A_ERROR, s\<lparr>hw_env := e\<rparr>))"

definition Custom_Bus_CompleteTransfer :: "'e mqx \<Rightarrow> 'e drv \<Rightarrow> A_STATUS \<times> 'e drv" where
  "Custom_Bus_CompleteTransfer M s = (A_OK, s\<lparr>hw_env := spi_fflush M (hw_env s)\<rparr>)"

text \<open>The four bytes of a word in memory, and a word whose first bytes were overwritten.\<close>

definition le_bytes :: "u32 \<Rightarrow> u8 list" where
  "le_bytes w = [byte_of 0 w, byte_of 1 w, byte_of 2 w, byte_of 3 w]"

definition overwrite_bytes :: "u32 \<Rightarrow> u8 list \<Rightarrow> u32" where
  "overwrite_bytes w bs = (let cs = bs @ drop (length bs) (le_bytes w)
     in le32 (cs ! 0) (cs ! 1) (cs ! 2) (cs ! 3))"

definition Custom_Bus_InOutToken :: "'e mqx \<Rightarrow> u32 \<Rightarrow> u8 \<Rightarrow> u32 \<Rightarrow> 'e drv \<Rightarrow> A_STATUS \<times> u32 \<times> 'e drv" where
  "Custom_Bus_InOutToken M OutToken DataSize inToken s =
     (case Custom_Bus_StartTransfer M s of (status, s) \<Rightarrow>
      if status \<noteq> A_OK then (A_HARDWARE, inToken, s) else
      case spi_read_write M (take (unat DataSize) (le_bytes OutToken))
             (take (unat DataSize) (le_bytes inToken)) (hw_env s) of (ok, bs, e) \<Rightarrow>
      let s = s\<lparr>hw_env := e\<rparr>; inToken = overwrite_bytes inToken bs in
      if \<not> ok then (A_HARDWARE, inToken, s)
      else (A_OK, inToken, snd (Custom_Bus_CompleteTransfer M s)))"

section \<open>Tokens and transfers\<close>

text \<open>A null \<open>pInToken\<close> is \<open>None\<close>: the incoming bytes go to an uninitialised local.\<close>

definition Bus_InOutToken :: "'e mqx \<Rightarrow> u32 \<Rightarrow> u8 \<Rightarrow> u32 option \<Rightarrow> 'e drv \<Rightarrow> A_STATUS \<times> u32 \<times> 'e drv" where
  "Bus_InOutToken M OutToken DataSize inToken s =
     Custom_Bus_InOutToken M OutToken (DataSize + 1)
       (case inToken of None \<Rightarrow> uninit_u32 M (hw_env s) | Some t \<Rightarrow> t) s"

definition OUT_TOKEN_CMD_ADDR_DMA_WRITE :: "'e mqx \<Rightarrow> u16 \<Rightarrow> 'e drv \<Rightarrow> A_STATUS \<times> 'e drv" where
  "OUT_TOKEN_CMD_ADDR_DMA_WRITE M addr s =
     (case Bus_InOutToken M (ucast (swap16 addr)) ATH_TRANS_DS_16 None s of (status, _, s) \<Rightarrow> (status, s))"

definition OUT_TOKEN_CMD_ADDR_DMA_READ :: "'e mqx \<Rightarrow> u16 \<Rightarrow> 'e drv \<Rightarrow> A_STATUS \<times> 'e drv" where
  "OUT_TOKEN_CMD_ADDR_DMA_READ M addr s = OUT_TOKEN_CMD_ADDR_DMA_WRITE M (addr OR CMD_ADDR_READ) s"

definition OUT_TOKEN_CMD_ADDR_INTERNAL_READ :: "'e mqx \<Rightarrow> u16 \<Rightarrow> 'e drv \<Rightarrow> A_STATUS \<times> 'e drv" where
  "OUT_TOKEN_CMD_ADDR_INTERNAL_READ M addr s = OUT_TOKEN_CMD_ADDR_DMA_READ M (addr OR CMD_ADDRESS_INTERNAL) s"

definition OUT_TOKEN_CMD_ADDR_INTERNAL_WRITE :: "'e mqx \<Rightarrow> u16 \<Rightarrow> 'e drv \<Rightarrow> A_STATUS \<times> 'e drv" where
  "OUT_TOKEN_CMD_ADDR_INTERNAL_WRITE M addr s = OUT_TOKEN_CMD_ADDR_DMA_WRITE M (addr OR CMD_ADDRESS_INTERNAL) s"

text \<open>The loop over the fragments of a packet; it stops at the first null fragment or at the
  first transfer that fails. An object that claims 255 fragments would wrap the 8-bit index.\<close>

partial_function (option) bus_fragments ::
    "'e mqx \<Rightarrow> netbuf \<Rightarrow> bool \<Rightarrow> u16 \<Rightarrow> u16 \<Rightarrow> A_STATUS \<Rightarrow> 'e drv \<Rightarrow> (A_STATUS \<times> u16 \<times> 'e drv) option" where
  "bus_fragments M req doRead i totalLength status s =
     (case a_netbuf_get_fragment (natives s) req (ucast i) of
        (pBuf, None) \<Rightarrow> Some (status, totalLength, s)
      | (pBuf, Some len) \<Rightarrow>
          if pBuf = NULL then Some (status, totalLength, s)
          else if len \<noteq> 0 then
            (case Custom_Bus_InOutBuffer M pBuf (ucast len) doRead s of (status, s) \<Rightarrow>
               if status \<noteq> A_OK then Some (status, totalLength, s)
               else bus_fragments M req doRead (i + 1) (totalLength + ucast len) status s)
          else bus_fragments M req doRead (i + 1) (totalLength + ucast len) status s)"

text \<open>Padding bytes that the request length does not cover come from the pad buffer.\<close>

definition bus_pad :: "'e mqx \<Rightarrow> netbuf \<Rightarrow> bool \<Rightarrow> u16 \<Rightarrow> A_STATUS \<Rightarrow> 'e drv \<Rightarrow> (A_STATUS \<times> 'e drv) option" where
  "bus_pad M req doRead totalLength status s = (
     let transLen = t_transferLength (trans req) in
     if totalLength < transLen then do {
       A_ASSERT (ucast (transLen - totalLength) \<le> blockSize s);
       Some (Custom_Bus_InOutBuffer M (padBuffer s) (transLen - totalLength) doRead s)}
     else Some (status, s))"

definition Bus_InOutDescriptorSet :: "'e mqx \<Rightarrow> netbuf \<Rightarrow> 'e drv \<Rightarrow> (A_STATUS \<times> 'e drv) option" where
  "Bus_InOutDescriptorSet M req s = (
     let doRead = ATH_IS_TRANS_READ req in
     case Custom_Bus_StartTransfer M s of (status, s) \<Rightarrow>
     if status \<noteq> A_OK then Some (status, s)
     else do {
       (status, totalLength, s) \<leftarrow> bus_fragments M req doRead 0 0 status s;
       (status, s) \<leftarrow> bus_pad M req doRead totalLength status s;
       Some (if status = A_OK then Custom_Bus_CompleteTransfer M s else (status, s))
     })"

definition Hcd_TransferData :: "'e mqx \<Rightarrow> netbuf \<Rightarrow> 'e drv \<Rightarrow> (A_STATUS \<times> 'e drv) option" where
  "Hcd_TransferData M req s = Bus_InOutDescriptorSet M req s"

section \<open>Register access\<close>

definition DoPioWriteInternal :: "'e mqx \<Rightarrow> u16 \<Rightarrow> u32 \<Rightarrow> 'e drv \<Rightarrow> A_STATUS \<times> 'e drv" where
  "DoPioWriteInternal M Addr Value s = (
     let dataIn = uninit_u32 M (hw_env s);
         Addr = Addr OR CMD_ADDRESS_INTERNAL;
         Addr = swap16 Addr;
         Value = (ucast (swap16 (ucast Value)) :: u32);
         dataOut = ucast Addr OR push_bit 16 (Value AND 0xFFFF)
     in case Custom_Bus_InOutToken M dataOut 4 dataIn s of (status, _, s) \<Rightarrow> (status, s))"

definition DoPioReadInternal :: "'e mqx \<Rightarrow> u16 \<Rightarrow> 'e drv \<Rightarrow> A_STATUS \<times> u32 \<times> 'e drv" where
  "DoPioReadInternal M Addr s = (
     let dataIn = uninit_u32 M (hw_env s);
         Addr = Addr OR CMD_ADDRESS_INTERNAL OR CMD_ADDR_READ;
         dataOut = ucast (swap16 Addr)
     in case Custom_Bus_InOutToken M dataOut 4 dataIn s of (status, dataIn, s) \<Rightarrow>
          (status, ucast (swap16 (ucast (drop_bit 16 dataIn))), s))"

definition Hcd_DoPioInternalAccess_read :: "'e mqx \<Rightarrow> u16 \<Rightarrow> 'e drv \<Rightarrow> A_STATUS \<times> u32 \<times> 'e drv" where
  "Hcd_DoPioInternalAccess_read M addr s = DoPioReadInternal M addr s"

definition Hcd_DoPioInternalAccess_write :: "'e mqx \<Rightarrow> u16 \<Rightarrow> u32 \<Rightarrow> 'e drv \<Rightarrow> A_STATUS \<times> 'e drv" where
  "Hcd_DoPioInternalAccess_write M addr val s = DoPioWriteInternal M addr val s"

section \<open>Interrupt lines and masks\<close>

definition HW_EnableDisableSPIIRQ :: "'e mqx \<Rightarrow> bool \<Rightarrow> 'e drv \<Rightarrow> 'e drv" where
  "HW_EnableDisableSPIIRQ M Enable s =
     (if Enable then
        if \<not> IrqsEnabled (spi_hcd s)
        then Custom_Hcd_EnableDisableSPIIRQ M Enable (set_hcd (IrqsEnabled_update (\<lambda>_. True)) s) else s
      else
        if IrqsEnabled (spi_hcd s)
        then Custom_Hcd_EnableDisableSPIIRQ M Enable (set_hcd (IrqsEnabled_update (\<lambda>_. False)) s) else s)"

definition EnableDisableSPIIRQHwDetect :: "'e mqx \<Rightarrow> bool \<Rightarrow> 'e drv \<Rightarrow> 'e drv option" where
  "EnableDisableSPIIRQHwDetect M Enable s =
     (if SpiHWCapabilitiesFlags (spi_hcd s) AND HW_SPI_INT_EDGE_DETECT \<noteq> 0 \<and> Enable then do {
        let (status, s) = DoPioWriteInternal M ATH_SPI_INTR_ENABLE_REG 0 s;
        A_ASSERT (status = A_OK);
        let s = HW_EnableDisableSPIIRQ M True s;
        let (status, s) = DoPioWriteInternal M ATH_SPI_INTR_ENABLE_REG
                            (ucast (SpiIntEnableShadow (spi_hcd s))) s;
        A_ASSERT (status = A_OK);
        Some s}
      else Some (HW_EnableDisableSPIIRQ M Enable s))"

text \<open>\<open>MaskSPIInterrupts\<close> and \<open>Hcd_UnmaskInterrupts\<close> call each other. The first never does: the
  bits it tests are the ones it has just cleared. The second does for an empty mask only.\<close>

lemma and_not_and_self: "(m :: 'a::len word) AND (x AND NOT m) = 0"
  by (rule bit_word_eqI) (auto simp: bit_simps)

function MaskSPIInterrupts :: "'e mqx \<Rightarrow> u16 \<Rightarrow> 'e drv \<Rightarrow> A_STATUS \<times> 'e drv"
  and Hcd_UnmaskInterrupts :: "'e mqx \<Rightarrow> u16 \<Rightarrow> 'e drv \<Rightarrow> A_STATUS \<times> 'e drv" where
  "MaskSPIInterrupts M Mask s = (
     let s = set_hcd (\<lambda>h. h\<lparr>SpiIntEnableShadow := SpiIntEnableShadow h AND NOT Mask\<rparr>) s;
         s = (if Mask AND SpiIntEnableShadow (spi_hcd s) \<noteq> 0
              then snd (Hcd_UnmaskInterrupts M Mask s) else s)
     in DoPioWriteInternal M ATH_SPI_INTR_ENABLE_REG (ucast (SpiIntEnableShadow (spi_hcd s))) s)"
| "Hcd_UnmaskInterrupts M Mask s = (
     let s = set_hcd (\<lambda>h. h\<lparr>SpiIntEnableShadow := SpiIntEnableShadow h OR Mask\<rparr>) s;
         s = (if Mask AND SpiIntEnableShadow (spi_hcd s) = 0
              then snd (MaskSPIInterrupts M Mask s) else s)
     in DoPioWriteInternal M ATH_SPI_INTR_ENABLE_REG (ucast (SpiIntEnableShadow (spi_hcd s))) s)"
  by pat_completeness auto
termination
  by (relation "measure (\<lambda>x. case x of Inl _ \<Rightarrow> 0 | Inr _ \<Rightarrow> 1)")
     (auto simp: and_not_and_self)

declare MaskSPIInterrupts.simps [simp del] Hcd_UnmaskInterrupts.simps [simp del]

definition Hcd_MaskInterrupts :: "'e mqx \<Rightarrow> u16 \<Rightarrow> 'e drv \<Rightarrow> 'e drv" where
  "Hcd_MaskInterrupts M Mask s = snd (MaskSPIInterrupts M Mask s)"

section \<open>External registers\<close>

definition HandleExternalReadDone :: "'e mqx \<Rightarrow> netbuf \<Rightarrow> 'e drv \<Rightarrow> (A_STATUS \<times> 'e drv) option" where
  "HandleExternalReadDone M req s =
     (case OUT_TOKEN_CMD_ADDR_INTERNAL_READ M ATH_SPI_HOST_CTRL_RD_PORT_REG s of (status, s) \<Rightarrow>
      if status \<noteq> A_OK then Some (status, s)
      else do {
        (status, s) \<leftarrow> Hcd_TransferData M req s;
        A_ASSERT (status \<noteq> A_PENDING);
        Some (status, s)})"

text \<open>The poll of the status register: at most \<open>retry\<close> reads, with a delay between two of them.
  The result is the last status and the retries left.\<close>

fun poll_host_access_done :: "'e mqx \<Rightarrow> nat \<Rightarrow> A_STATUS \<Rightarrow> 'e drv \<Rightarrow> A_STATUS \<times> nat \<times> 'e drv" where
  "poll_host_access_done M 0 status s = (status, 0, s)"
| "poll_host_access_done M (Suc retry) status s =
     (case DoPioReadInternal M ATH_SPI_STATUS_REG s of (status, regValue, s) \<Rightarrow>
      if status \<noteq> A_OK then (status, Suc retry, s)
      else if regValue AND ATH_SPI_STATUS_HOST_ACCESS_DONE \<noteq> 0 then (status, Suc retry, s)
      else poll_host_access_done M retry status
             (if retry \<noteq> 0 then qosal_usec_delay M 1000 s else s))"

text \<open>After the poll: empty the read port, then clear the interrupt cause. The status of the
  read is overwritten by the one of the last register write.\<close>

definition pio_external_finish :: "'e mqx \<Rightarrow> netbuf \<Rightarrow> 'e drv \<Rightarrow> (A_STATUS \<times> 'e drv) option" where
  "pio_external_finish M req s =
     (case poll_host_access_done M 200 A_OK s of (status, retry, s) \<Rightarrow>
      if retry = 0 then Some (A_ERROR, s)
      else do {
        (status, s) \<leftarrow> (if ATH_IS_TRANS_READ req then HandleExternalReadDone M req s else Some (status, s));
        Some (DoPioWriteInternal M ATH_SPI_INTR_CAUSE_REG ATH_SPI_INTR_HOST_CTRL_ACCESS_DONE s)})"

text \<open>Before it: a write moves the data to the write port.\<close>

definition pio_external_write_port :: "'e mqx \<Rightarrow> netbuf \<Rightarrow> 'e drv \<Rightarrow> (A_STATUS \<times> 'e drv) option" where
  "pio_external_write_port M req s =
     (case OUT_TOKEN_CMD_ADDR_INTERNAL_WRITE M ATH_SPI_HOST_CTRL_WR_PORT_REG s of (status, s) \<Rightarrow>
      if status \<noteq> A_OK then Some (status, s)
      else do {
        (status, s) \<leftarrow> Hcd_TransferData M req s;
        A_ASSERT (status \<noteq> A_PENDING);
        Some (status, s)})"

definition Hcd_DoPioExternalAccess :: "'e mqx \<Rightarrow> netbuf \<Rightarrow> 'e drv \<Rightarrow> (A_STATUS \<times> 'e drv) option" where
  "Hcd_DoPioExternalAccess M req s = (
     let regValue = (if ATH_IS_TRANS_EXT_ADDR_FIXED req then ATH_SPI_HOST_CTRL_NO_ADDR_INC else 0)
                    OR a_netbuf_to_len (natives s) req in
     case DoPioWriteInternal M ATH_SPI_HOST_CTRL_BYTE_SIZE_REG regValue s of (status, s) \<Rightarrow>
     if status \<noteq> A_OK then Some (status, s)
     else do {
       (status, s) \<leftarrow> (if \<not> ATH_IS_TRANS_READ req then pio_external_write_port M req s else Some (status, s));
       if status \<noteq> A_OK then Some (status, s)
       else (
         let regValue = ATH_SPI_HOST_CTRL_CONFIG_ENABLE
               OR (if ATH_IS_TRANS_READ req then 0 else ATH_SPI_HOST_CTRL_CONFIG_DIR_WRITE)
               OR ucast (t_address (trans req)) in
         case DoPioWriteInternal M ATH_SPI_HOST_CTRL_CONFIG_REG regValue s of (status, s) \<Rightarrow>
         if status \<noteq> A_OK then Some (status, s)
         else pio_external_finish M req s)
     })"

section \<open>The write buffer and data transfers\<close>

definition ResetWriteBufferWaterMark :: "'e mqx \<Rightarrow> 'e drv \<Rightarrow> A_STATUS \<times> 'e drv" where
  "ResetWriteBufferWaterMark M s =
     (case DoPioWriteInternal M ATH_SPI_WRBUF_WATERMARK_REG 0 s of (status, s) \<Rightarrow>
      if status \<noteq> A_OK then (status, s)
      else DoPioWriteInternal M ATH_SPI_INTR_CAUSE_REG ATH_SPI_INTR_WRBUF_BELOW_WMARK s)"

definition byte_swap_settings :: "u8 \<Rightarrow> u16 \<Rightarrow> u16 option" where
  "byte_swap_settings TransferType swapSettings =
     (if TransferType = ATH_TRANS_DS_32 then
        Some ((swapSettings OR ATH_SPI_CONFIG_BYTE_SWAP) AND NOT ATH_SPI_CONFIG_SWAP_16BIT)
      else if TransferType = ATH_TRANS_DS_16 then
        Some ((swapSettings OR ATH_SPI_CONFIG_BYTE_SWAP) OR ATH_SPI_CONFIG_SWAP_16BIT)
      else if TransferType = ATH_TRANS_DS_8 then
        Some ((swapSettings AND NOT ATH_SPI_CONFIG_BYTE_SWAP) AND NOT ATH_SPI_CONFIG_SWAP_16BIT)
      else do {A_ASSERT False; Some swapSettings})"

definition ConfigureByteSwap :: "'e mqx \<Rightarrow> u8 \<Rightarrow> 'e drv \<Rightarrow> (A_STATUS \<times> 'e drv) option" where
  "ConfigureByteSwap M TransferType s = do {
     swapSettings \<leftarrow> byte_swap_settings TransferType (SpiConfigShadow (spi_hcd s));
     Some (if swapSettings XOR SpiConfigShadow (spi_hcd s) \<noteq> 0 then
             DoPioWriteInternal M ATH_SPI_CONFIG_REG (ucast swapSettings)
               (set_hcd (\<lambda>h. h\<lparr>SpiConfigShadow := swapSettings\<rparr>) s)
           else (A_OK, s))}"

text \<open>The body of \<open>DoDMAOp\<close>: size register, command token, data.\<close>

definition dma_transfer :: "'e mqx \<Rightarrow> netbuf \<Rightarrow> 'e drv \<Rightarrow> (A_STATUS \<times> 'e drv) option" where
  "dma_transfer M req s =
     (case DoPioWriteInternal M ATH_SPI_DMA_SIZE_REG (ucast (t_transferLength (trans req))) s of
        (status, s) \<Rightarrow>
      if status \<noteq> A_OK then Some (status, s)
      else case (if ATH_IS_TRANS_READ req
                 then OUT_TOKEN_CMD_ADDR_DMA_READ M (t_address (trans req)) s
                 else OUT_TOKEN_CMD_ADDR_DMA_WRITE M (t_address (trans req)) s) of (status, s) \<Rightarrow>
      if status \<noteq> A_OK then Some (status, s)
      else do {
        (status, s) \<leftarrow> Hcd_TransferData M req s;
        s \<leftarrow> (if status = A_PENDING
              then EnableDisableSPIIRQHwDetect M False
                     (s\<lparr>booleans := booleans s OR SDHD_BOOL_DMA_IN_PROG\<rparr>)
              else Some s);
        Some (status, s)})"

text \<open>During the transfer the packet interrupt is masked.\<close>

definition DoDMAOp :: "'e mqx \<Rightarrow> netbuf \<Rightarrow> 'e drv \<Rightarrow> (A_STATUS \<times> 'e drv) option" where
  "DoDMAOp M req s = (
     let msk = SpiIntEnableShadow (spi_hcd s) AND ATH_SPI_INTR_PKT_AVAIL;
         s = (if msk \<noteq> 0 then snd (MaskSPIInterrupts M msk s) else s) in do {
       (status, s) \<leftarrow> dma_transfer M req s;
       Some (if msk \<noteq> 0 then
               if status = A_PENDING then (status, set_hcd (\<lambda>h. h\<lparr>irqMask := msk\<rparr>) s)
               else (status, snd (Hcd_UnmaskInterrupts M msk s))
             else (status, s))})"

definition Hcd_ProgramWriteBufferWaterMark :: "'e mqx \<Rightarrow> u32 \<Rightarrow> 'e drv \<Rightarrow> (A_STATUS \<times> 'e drv) option" where
  "Hcd_ProgramWriteBufferWaterMark M len s = (
     let level = MaxWriteBufferSpace (spi_hcd s) - len in do {
       A_ASSERT (level < MaxWriteBufferSpace (spi_hcd s));
       let level = (if level \<noteq> 0 then level else 1);
       let (status, waitInterrupt, s) =
         (case DoPioWriteInternal M ATH_SPI_WRBUF_WATERMARK_REG level s of (status, s) \<Rightarrow>
          if status \<noteq> A_OK then (status, True, s) else
          case DoPioReadInternal M ATH_SPI_STATUS_REG s of (status, regValue, s) \<Rightarrow>
          if status \<noteq> A_OK then (status, True, s) else
          if regValue AND ATH_SPI_STATUS_RTC_STATE_MASK \<noteq> ATH_SPI_STATUS_RTC_STATE_SLEEP then (status, True, s) else
          case DoPioReadInternal M ATH_SPI_STATUS_REG (qosal_usec_delay M 60 s) of (status, regValue, s) \<Rightarrow>
          if status \<noteq> A_OK then (status, True, s) else
          if regValue AND ATH_SPI_STATUS_RTC_STATE_MASK \<noteq> ATH_SPI_STATUS_RTC_STATE_SLEEP then (status, True, s) else
          case DoPioReadInternal M ATH_SPI_WRBUF_SPC_AVA_REG s of (status, param, s) \<Rightarrow>
          if status \<noteq> A_OK then (status, True, s) else
          case ResetWriteBufferWaterMark M (set_hcd (\<lambda>h. h\<lparr>WriteBufferSpace := param\<rparr>) s) of
            (status, s) \<Rightarrow> (status, False, s));
       Some (if status = A_OK \<and> waitInterrupt then
               (A_PENDING, snd (Hcd_UnmaskInterrupts M ATH_SPI_INTR_WRBUF_BELOW_WMARK
                  (s\<lparr>booleans := booleans s OR SDHD_BOOL_DMA_WRITE_WAIT_FOR_BUFFER\<rparr>)))
             else (status, s))})"

definition Hcd_RefreshWriteBufferSpace :: "'e mqx \<Rightarrow> 'e drv \<Rightarrow> 'e drv" where
  "Hcd_RefreshWriteBufferSpace M s =
     (case DoPioReadInternal M ATH_SPI_WRBUF_SPC_AVA_REG s of (status, param, s) \<Rightarrow>
      if status = A_OK then set_hcd (\<lambda>h. h\<lparr>WriteBufferSpace := param\<rparr>) s else s)"

definition ADJUST_WRBUF_SPACE :: "u32 \<Rightarrow> 'e drv \<Rightarrow> 'e drv" where
  "ADJUST_WRBUF_SPACE b s =
     set_hcd (\<lambda>h. h\<lparr>WriteBufferSpace := WriteBufferSpace h - b - ATH_SPI_WRBUF_RSVD_BYTES\<rparr>) s"

definition Hcd_Request :: "'e mqx \<Rightarrow> netbuf \<Rightarrow> 'e drv \<Rightarrow> (A_STATUS \<times> 'e drv) option" where
  "Hcd_Request M req s =
     (if flag_set SDHD_BOOL_FATAL_ERROR s then Some (A_HARDWARE, s)
      else if flag_set SDHD_BOOL_SHUTDOWN s then Some (A_ECANCELED, s)
      else do {
        (status, s) \<leftarrow> ConfigureByteSwap M (DMADataWidth (spi_hcd s)) s;
        if status \<noteq> A_OK then Some (status, s)
        else if ATH_IS_TRANS_READ req then DoDMAOp M req s
        else DoDMAOp M req (ADJUST_WRBUF_SPACE (ucast (t_transferLength (trans req))) s)})"

section \<open>The CPU interrupt registers\<close>

definition local_req :: "u16 \<Rightarrow> 'e drv \<Rightarrow> netbuf" where
  "local_req n s = a_netbuf_configure (stk s) 0 n n"

definition Hcd_ReadCPUInterrupt :: "'e mqx \<Rightarrow> u8 \<Rightarrow> 'e drv \<Rightarrow> (bool \<times> u8 \<times> 'e drv) option" where
  "Hcd_ReadCPUInterrupt M cpuIntrCause s = (
     let req = ATH_SET_PIO_EXTERNAL_OPERATION (local_req 1 s) ATH_TRANS_READ CPU_INT_STATUS_ADDRESS True 1 in do {
       (status, s) \<leftarrow> Hcd_DoPioExternalAccess M req s;
       Some (if status \<noteq> A_OK then (False, cpuIntrCause, s) else (True, mem s (stk s), s))})"

definition Hcd_ClearCPUInterrupt :: "'e mqx \<Rightarrow> 'e drv \<Rightarrow> 'e drv option" where
  "Hcd_ClearCPUInterrupt M s = (
     let s = s\<lparr>mem := (mem s)(stk s := 0xff)\<rparr>;
         req = ATH_SET_PIO_EXTERNAL_OPERATION (local_req 1 s) ATH_TRANS_WRITE CPU_INT_STATUS_ADDRESS True 1
     in do {(status, s) \<leftarrow> Hcd_DoPioExternalAccess M req s; Some s})"

definition Hcd_EnableCPUInterrupt :: "'e mqx \<Rightarrow> 'e drv \<Rightarrow> 'e drv option" where
  "Hcd_EnableCPUInterrupt M s = (
     let s = s\<lparr>mem := (mem s)(stk s := 0xff)\<rparr>;
         req = ATH_SET_PIO_EXTERNAL_OPERATION (local_req 1 s) ATH_TRANS_WRITE CPU_INT_STATUS_ENABLE_ADDRESS True 1
     in do {(status, s) \<leftarrow> Hcd_DoPioExternalAccess M req s; Some s})"

section \<open>Bus interrupts\<close>

text \<open>The sources that remain after the errors, from the water mark to the CPU interrupt; the
  result says whether the packet interrupt has to be passed on.\<close>

definition bus_interrupt_wmark :: "'e mqx \<Rightarrow> u32 \<Rightarrow> 'e drv \<Rightarrow> A_STATUS \<times> 'e drv" where
  "bus_interrupt_wmark M interrupts s =
     (if interrupts AND ATH_SPI_INTR_WRBUF_BELOW_WMARK \<noteq> 0 then
        let s = snd (MaskSPIInterrupts M ATH_SPI_INTR_WRBUF_BELOW_WMARK s) in
        if flag_set SDHD_BOOL_DMA_WRITE_WAIT_FOR_BUFFER s then
          case DoPioReadInternal M ATH_SPI_WRBUF_SPC_AVA_REG s of (status, param, s) \<Rightarrow>
          if status \<noteq> A_OK then (status, s)
          else let s = set_hcd (\<lambda>h. h\<lparr>WriteBufferSpace := param\<rparr>) s;
                   s = s\<lparr>booleans := booleans s AND NOT SDHD_BOOL_DMA_WRITE_WAIT_FOR_BUFFER\<rparr>
               in ResetWriteBufferWaterMark M s
        else (A_OK, s)
      else (A_OK, s))"

definition bus_interrupt_func :: "'e mqx \<Rightarrow> u32 \<Rightarrow> 'e drv \<Rightarrow> bool \<times> 'e drv" where
  "bus_interrupt_func M interrupts s = (
     let (notify, s) =
           (if interrupts AND ATH_SPI_INTR_PKT_AVAIL \<noteq> 0
            then (True, snd (MaskSPIInterrupts M ATH_SPI_INTR_PKT_AVAIL s)) else (False, s));
         s = (if interrupts AND ATH_SPI_INTR_LOCAL_CPU_INTR \<noteq> 0
              then set_hcd (\<lambda>h. h\<lparr>CpuInterrupt := 1\<rparr>)
                     (snd (MaskSPIInterrupts M (ATH_SPI_INTR_CPU_INTR OR ATH_SPI_INTR_LOCAL_CPU_INTR) s))
              else s)
     in (notify, s))"

definition bus_interrupt_error :: "'e mqx \<Rightarrow> u32 \<Rightarrow> 'e drv \<Rightarrow> 'e drv" where
  "bus_interrupt_error M interrupts s = (
     let s = snd (DoPioWriteInternal M ATH_SPI_INTR_CAUSE_REG (interrupts AND ATH_SPI_HCD_ERROR_IRQS) s);
         s = s\<lparr>booleans := booleans s OR SDHD_BOOL_FATAL_ERROR\<rparr>
     in snd (DoPioWriteInternal M ATH_SPI_INTR_ENABLE_REG 0 s))"

definition bus_interrupt_sources :: "'e mqx \<Rightarrow> 'e drv \<Rightarrow> A_STATUS \<times> bool \<times> 'e drv" where
  "bus_interrupt_sources M s =
     (case DoPioReadInternal M ATH_SPI_INTR_CAUSE_REG s of (status, interrupts, s) \<Rightarrow>
      if status \<noteq> A_OK then (status, False, s) else
      let interrupts = interrupts AND ucast (SpiIntEnableShadow (spi_hcd s));
          hostIrqs = interrupts AND (ATH_SPI_HCD_IRQ_SOURCES OR ATH_SPI_INTR_HOST_CTRL_ACCESS_DONE) in
      case (if hostIrqs \<noteq> 0 then DoPioWriteInternal M ATH_SPI_INTR_CAUSE_REG hostIrqs s else (A_OK, s)) of
        (status, s) \<Rightarrow>
      if status \<noteq> A_OK then (status, False, s) else
      if interrupts AND ATH_SPI_HCD_ERROR_IRQS \<noteq> 0
      then (status, False, bus_interrupt_error M interrupts s) else
      let s = (if interrupts AND ATH_SPI_INTR_HOST_CTRL_ACCESS_DONE \<noteq> 0
               then snd (MaskSPIInterrupts M ATH_SPI_INTR_HOST_CTRL_ACCESS_DONE s) else s) in
      case bus_interrupt_wmark M interrupts s of (status, s) \<Rightarrow>
      if status \<noteq> A_OK then (status, False, s) else
      case bus_interrupt_func M interrupts s of (notify, s) \<Rightarrow> (status, notify, s))"

definition Hcd_BusInterrupt :: "'e mqx \<Rightarrow> 'e drv \<Rightarrow> (bool \<times> 'e drv) option" where
  "Hcd_BusInterrupt M s =
     (if flag_set SDHD_BOOL_DMA_IN_PROG s then Some (True, s)
      else do {
        let (status, notifyFunctionIRQs, s) = bus_interrupt_sources M s;
        s \<leftarrow> (if \<not> flag_set SDHD_BOOL_DMA_IN_PROG s then EnableDisableSPIIRQHwDetect M True s else Some s);
        let s = (if notifyFunctionIRQs then set_hcd (\<lambda>h. h\<lparr>PendingIrqAcks := 2\<rparr>) s else s);
        A_ASSERT (status = A_OK);
        Some (True, s)})"

section \<open>Start, stop and look-ahead\<close>

definition Hcd_ReinitTarget :: "'e mqx \<Rightarrow> 'e drv \<Rightarrow> A_STATUS \<times> 'e drv" where
  "Hcd_ReinitTarget M s =
     (case DoPioWriteInternal M ATH_SPI_CONFIG_REG (ucast (SpiConfigShadow (spi_hcd s))) s of (status, s) \<Rightarrow>
      if status \<noteq> A_OK then (status, s) else
      case ResetWriteBufferWaterMark M s of (status, s) \<Rightarrow>
      if status \<noteq> A_OK then (status, s) else
      let s = snd (Hcd_UnmaskInterrupts M ATH_SPI_HCD_ERROR_IRQS s);
          s = snd (Hcd_UnmaskInterrupts M ATH_SPI_INTR_LOCAL_CPU_INTR s)
      in (status, s))"

definition Hcd_Deinitialize :: "'e mqx \<Rightarrow> 'e drv \<Rightarrow> 'e drv" where
  "Hcd_Deinitialize M s =
     (if MiscFlags (spi_hcd s) AND MISC_FLAG_RESET_SPI_IF_SHUTDOWN \<noteq> 0
      then snd (DoPioWriteInternal M ATH_SPI_CONFIG_REG (ucast ATH_SPI_CONFIG_RESET) s) else s)"

definition Hcd_GetLookAhead :: "'e mqx \<Rightarrow> 'e drv \<Rightarrow> (A_STATUS \<times> 'e drv) option" where
  "Hcd_GetLookAhead M s =
     (case DoPioReadInternal M ATH_SPI_RDBUF_BYTE_AVA_REG s of (status, bytesAvail, s) \<Rightarrow>
      if status \<noteq> A_OK then Some (status, s) else
      let s = set_hcd (\<lambda>h. h\<lparr>ReadBufferSpace := bytesAvail\<rparr>) s in
      if bytesAvail < 4 then Some (status, s) else
      case DoPioReadInternal M ATH_SPI_RDBUF_LOOKAHEAD1_REG s of (status, assembledLookAhead, s) \<Rightarrow>
      if status \<noteq> A_OK then Some (status, s) else
      let lookAhead1 = (ucast assembledLookAhead :: u16) in
      case DoPioReadInternal M ATH_SPI_RDBUF_LOOKAHEAD2_REG s of (status, assembledLookAhead, s) \<Rightarrow>
      if status \<noteq> A_OK then Some (status, s) else
      let lookAhead2 = (ucast assembledLookAhead :: u16);
          lookAhead1 = swap16 lookAhead1;
          lookAhead2 = swap16 lookAhead2;
          assembledLookAhead = le32 (byte_of 0 lookAhead1) (byte_of 1 lookAhead1)
                                    (byte_of 0 lookAhead2) (byte_of 1 lookAhead2)
      in do {
        A_ASSERT (assembledLookAhead \<noteq> 0);
        Some (status, s\<lparr>lookAhead := assembledLookAhead\<rparr>)})"

text \<open>The widths \<open>Hcd_Init\<close> chooses from the capabilities of the hardware.\<close>

definition hcd_init_widths :: "'e drv \<Rightarrow> 'e drv" where
  "hcd_init_widths s = (
     let s = s\<lparr>booleans := booleans s AND NOT SDHD_BOOL_HOST_DMA_COPY_MODE\<rparr>;
         s = s\<lparr>booleans := booleans s OR SDHD_BOOL_HOST_ACCESS_COPY_MODE\<rparr>;
         caps = SpiHWCapabilitiesFlags (spi_hcd s) in
     if caps AND HW_SPI_FRAME_WIDTH_32 \<noteq> 0 then
       set_hcd (\<lambda>h. h\<lparr>HostAccessDataWidth := ATH_TRANS_DS_32, DMADataWidth := ATH_TRANS_DS_32\<rparr>) s
     else if caps AND HW_SPI_FRAME_WIDTH_8 \<noteq> 0 then
       (set_hcd (\<lambda>h. h\<lparr>HostAccessDataWidth := ATH_TRANS_DS_8, DMADataWidth := ATH_TRANS_DS_8\<rparr>) s)
         \<lparr>booleans := booleans s AND NOT SDHD_BOOL_HOST_ACCESS_COPY_MODE\<rparr>
     else
       set_hcd (\<lambda>h. h\<lparr>HostAccessDataWidth := ATH_TRANS_DS_16, DMADataWidth := ATH_TRANS_DS_16\<rparr>) s)"

definition hcd_init_config :: "A_SPI_HCD_CXT \<Rightarrow> u16" where
  "hcd_init_config h = (
     let cfg = 0;
         cfg = (if OperationalClock h > AR4XXX_NORMAL_CLOCK_RATE then cfg OR push_bit 9 1 else cfg);
         cfg = cfg OR ATH_SPI_CONFIG_IO_ENABLE
     in if DMADataWidth h = ATH_TRANS_DS_32 then cfg OR ATH_SPI_CONFIG_BYTE_SWAP
        else if DMADataWidth h = ATH_TRANS_DS_16 then cfg OR (ATH_SPI_CONFIG_SWAP_16BIT OR ATH_SPI_CONFIG_BYTE_SWAP)
        else cfg)"

text \<open>\<open>HW_SET_CLOCK\<close> does nothing on this platform, and \<open>Api_BootProfile\<close> only records a time stamp.\<close>

definition Hcd_Init :: "'e mqx \<Rightarrow> 'e drv \<Rightarrow> (A_STATUS \<times> 'e drv) option" where
  "Hcd_Init M s = do {
     A_ASSERT (SpiHWCapabilitiesFlags (spi_hcd s) AND (HW_SPI_FRAME_WIDTH_8 OR HW_SPI_FRAME_WIDTH_16) \<noteq> 0);
     let s = hcd_init_widths s;
     let s = set_hcd (\<lambda>h. h\<lparr>SpiConfigShadow := hcd_init_config h\<rparr>) s;
     let s = qosal_usec_delay M (PowerUpDelay (spi_hcd s) * 1000) s;
     let (status, s) = DoPioWriteInternal M ATH_SPI_CONFIG_REG (ucast (SpiConfigShadow (spi_hcd s))) s;
     if status \<noteq> A_OK then Some (status, s) else do {
       let (status, v, s) = DoPioReadInternal M ATH_SPI_WRBUF_SPC_AVA_REG s;
       let s = set_hcd (\<lambda>h. h\<lparr>WriteBufferSpace := v\<rparr>) s;
       if status \<noteq> A_OK then Some (status, s) else do {
         let s = set_hcd (\<lambda>h. h\<lparr>MaxWriteBufferSpace := WriteBufferSpace h\<rparr>) s;
         A_ASSERT (MaxWriteBufferSpace (spi_hcd s) = EXPECTED_MAX_WRITE_BUFFER_SPACE);
         let (status, s) = ResetWriteBufferWaterMark M s;
         if status \<noteq> A_OK then Some (status, s) else do {
           let s = snd (Hcd_UnmaskInterrupts M ATH_SPI_HCD_ERROR_IRQS s);
           let s = snd (Hcd_UnmaskInterrupts M ATH_SPI_INTR_LOCAL_CPU_INTR s);
           s \<leftarrow> EnableDisableSPIIRQHwDetect M True s;
           Some (status, qosal_time_delay M 2 s)}}}}"

definition Bus_TransferComplete :: "'e drv \<Rightarrow> 'e drv" where
  "Bus_TransferComplete s =
     (if \<not> flag_set SDHD_BOOL_DMA_IN_PROG s then s
      else let s = s\<lparr>booleans := booleans s OR SDHD_BOOL_DMA_COMPLETE\<rparr>;
               s = s\<lparr>booleans := booleans s AND NOT SDHD_BOOL_DMA_IN_PROG\<rparr>
           in Driver_WakeDriver s)"

text \<open>The interrupt handler (\<^verbatim>\<open>common_src/hw_interface/hw_api.c\<close>), reached through \<open>Hcd_Irq\<close>.\<close>

definition HW_InterruptHandler :: "'e mqx \<Rightarrow> 'e drv \<Rightarrow> 'e drv" where
  "HW_InterruptHandler M s =
     Driver_WakeDriver (HW_EnableDisableSPIIRQ M False (set_hcd (\<lambda>h. h\<lparr>IrqDetected := True\<rparr>) s))"

definition HW_GetMboxAddress :: "u16 \<Rightarrow> u32 \<Rightarrow> 'e drv \<Rightarrow> u32 option" where
  "HW_GetMboxAddress mbox len s = do {
     A_ASSERT (mbox = 0);
     Some (mboxAddress s + 0x800 - len)}"

end
