(* ===== verification/Spi_Registers.thy ===== *)
theory Spi_Registers
  imports Spi_Hcd
begin

text \<open>
  What the SPI host controller driver does to the chip's registers. The chip is outside the
  repository, so it appears as a hypothesis on the bus calls only: \<open>holds_register M a r\<close> says that
  the chip keeps in its register \<open>a\<close> (read off the environment by \<open>r\<close>) the last value a write
  token for \<open>a\<close> carried, and that the bus does not fail. The lemmas show that the driver's shadow
  of the interrupt enable register never gets out of step with the register itself.
\<close>

section \<open>Tokens on the wire\<close>

definition write_token :: "u16 \<Rightarrow> u16 \<Rightarrow> u8 list" where
  "write_token a v = [byte_of 1 (a OR CMD_ADDRESS_INTERNAL), byte_of 0 (a OR CMD_ADDRESS_INTERNAL),
                      byte_of 1 v, byte_of 0 v]"

definition read_token :: "u16 \<Rightarrow> u8 list" where
  "read_token a = [byte_of 1 (a OR CMD_ADDRESS_INTERNAL OR CMD_ADDR_READ),
                   byte_of 0 (a OR CMD_ADDRESS_INTERNAL OR CMD_ADDR_READ), 0, 0]"

lemma byte_of_swap16: "byte_of 0 (swap16 x) = byte_of (Suc 0) x" "byte_of (Suc 0) (swap16 x) = byte_of 0 x"
  by (simp_all add: swap16_eq)

lemma byte_of_ucast_low: "byte_of 0 (ucast (x :: u16) :: u32) = byte_of 0 x"
  "byte_of (Suc 0) (ucast (x :: u16) :: u32) = byte_of (Suc 0) x"
  "byte_of 2 (ucast (x :: u16) :: u32) = 0" "byte_of 3 (ucast (x :: u16) :: u32) = 0"
  by (rule bit_word_eqI; auto simp: byte_of_def bit_simps dest: bit_imp_le_length)+

lemma byte_of_pair:
  fixes a v :: u16
  defines "w \<equiv> ucast a OR push_bit 16 (ucast v AND 0xFFFF) :: u32"
  shows "byte_of 0 w = byte_of 0 a" "byte_of (Suc 0) w = byte_of (Suc 0) a"
    "byte_of 2 w = byte_of 0 v" "byte_of 3 w = byte_of (Suc 0) v"
proof -
  have m: "(0xFFFF :: u32) = mask 16" by (simp add: mask_eq_exp_minus_1)
  show "byte_of 0 w = byte_of 0 a" "byte_of (Suc 0) w = byte_of (Suc 0) a"
    "byte_of 2 w = byte_of 0 v" "byte_of 3 w = byte_of (Suc 0) v"
    unfolding w_def m
    by (rule bit_word_eqI; auto simp: byte_of_def bit_simps dest: bit_imp_le_length)+
qed

lemma le_bytes_write_token:
  "le_bytes (ucast (swap16 (a OR CMD_ADDRESS_INTERNAL)) OR
      push_bit 16 (ucast (swap16 v) AND 0xFFFF)) = write_token a v"
  by (simp only: le_bytes_def write_token_def byte_of_pair One_nat_def byte_of_swap16)

lemma le_bytes_read_token:
  "le_bytes (ucast (swap16 (a OR CMD_ADDRESS_INTERNAL OR CMD_ADDR_READ))) = read_token a"
  by (simp only: le_bytes_def read_token_def byte_of_ucast_low One_nat_def byte_of_swap16)

lemma length_le_bytes [simp]: "length (le_bytes w) = 4"
  by (simp add: le_bytes_def)

lemma drop_bit_le32: "ucast (drop_bit 16 (le32 a b c d)) = le16 c d"
  by (rule bit_word_eqI) (auto simp: le32_def le16_def bit_simps dest: bit_imp_le_length)

lemma overwrite_bytes_4:
  "overwrite_bytes w [a, b, c, d] = le32 a b c d"
  by (simp add: overwrite_bytes_def)

lemma swap16_le16 [simp]: "swap16 (le16 a b) = le16 b a"
  by (simp add: swap16_eq)

section \<open>What the bus changes\<close>

text \<open>A bus operation changes the environment and, when it reads data, the memory: the rest of the
  state, \<open>strip s\<close>, stays. Stated as an equation it composes by rewriting.\<close>

definition strip :: "'e drv \<Rightarrow> 'e drv" where
  "strip s = s\<lparr>hw_env := undefined, mem := (\<lambda>_. 0)\<rparr>"

lemma strip_env [simp]: "strip (s\<lparr>hw_env := e\<rparr>) = strip s" "strip (s\<lparr>mem := m\<rparr>) = strip s"
  "strip (s\<lparr>hw_env := e, mem := m\<rparr>) = strip s"
  by (simp_all add: strip_def)

lemma strip_fields:
  assumes "strip s' = strip s"
  shows "spi_hcd s' = spi_hcd s" "booleans s' = booleans s" "nbs s' = nbs s" "natives s' = natives s"
    "ep s' = ep s" "lookAhead s' = lookAhead s" "stk s' = stk s" "txQueue s' = txQueue s"
    "rxFreeQueue s' = rxFreeQueue s" "blockMask s' = blockMask s" "blockSize s' = blockSize s"
    "padBuffer s' = padBuffer s" "rxBufferStatus s' = rxBufferStatus s" "pRxReq s' = pRxReq s"
    "htcStart s' = htcStart s" "creditSize s' = creditSize s" "htc_creditInit s' = htc_creditInit s"
    "creditCount s' = creditCount s" "mboxAddress s' = mboxAddress s"
  using arg_cong [OF assms, of spi_hcd] arg_cong [OF assms, of booleans] arg_cong [OF assms, of nbs]
    arg_cong [OF assms, of natives] arg_cong [OF assms, of ep] arg_cong [OF assms, of lookAhead]
    arg_cong [OF assms, of stk] arg_cong [OF assms, of txQueue] arg_cong [OF assms, of rxFreeQueue]
    arg_cong [OF assms, of blockMask] arg_cong [OF assms, of blockSize] arg_cong [OF assms, of padBuffer]
    arg_cong [OF assms, of rxBufferStatus] arg_cong [OF assms, of pRxReq] arg_cong [OF assms, of htcStart]
    arg_cong [OF assms, of creditSize] arg_cong [OF assms, of htc_creditInit]
    arg_cong [OF assms, of creditCount] arg_cong [OF assms, of mboxAddress]
  by (simp_all add: strip_def)

lemma strip_set_hcd:
  fixes s s' :: "'e drv"
  assumes "strip s' = strip s"
  shows "strip (set_hcd f s') = strip (set_hcd f s)"
proof -
  have "strip (set_hcd f t) = set_hcd f (strip t)" for t :: "'e drv"
    by (simp add: strip_def set_hcd_def)
  with assms show ?thesis by simp
qed

text \<open>The chip keeps register \<open>a\<close>, and the bus does not fail.\<close>

definition holds_register :: "'e mqx \<Rightarrow> u16 \<Rightarrow> ('e \<Rightarrow> u16) \<Rightarrow> bool" where
  "holds_register M a r \<longleftrightarrow>
     (\<forall>e. fst (spi_set_mode M e) \<and> r (snd (spi_set_mode M e)) = r e) \<and>
     (\<forall>out inp e. fst (spi_read_write M out inp e) \<and>
        r (snd (snd (spi_read_write M out inp e))) =
          (if length out = 4 \<and> take 2 out = take 2 (write_token a 0) then le16 (out ! 3) (out ! 2) else r e)) \<and>
     (\<forall>n e. r (snd (spi_fread M n e)) = r e) \<and>
     (\<forall>bs e. r (snd (spi_fwrite M bs e)) = r e) \<and>
     (\<forall>e. r (spi_fflush M e) = r e) \<and>
     (\<forall>b e. r (gpio_irq M b e) = r e) \<and>
     (\<forall>d e. r (time_delay M d e) = r e)"

lemma Custom_Bus_InOutToken_strip:
  "Custom_Bus_InOutToken M out n t s = (status, t', s') \<Longrightarrow> strip s' = strip s"
  by (auto simp: Custom_Bus_InOutToken_def Custom_Bus_StartTransfer_def Custom_Bus_CompleteTransfer_def
      Let_def split: prod.splits if_splits)

lemma Custom_Bus_InOutToken_register:
  assumes "holds_register M a r" "Custom_Bus_InOutToken M out n t s = (status, t', s')"
  shows "status = A_OK \<and> r (hw_env s') =
    (if 4 \<le> unat n \<and> take 2 (le_bytes out) = take 2 (write_token a 0)
     then le16 (le_bytes out ! 3) (le_bytes out ! 2) else r (hw_env s))"
proof -
  let ?e1 = "snd (spi_set_mode M (hw_env s))"
  let ?x = "spi_read_write M (take (unat n) (le_bytes out)) (take (unat n) (le_bytes t)) ?e1"
  have start: "fst (spi_set_mode M (hw_env s))" "r ?e1 = r (hw_env s)"
    and rw: "fst ?x" "r (snd (snd ?x)) = (if length (take (unat n) (le_bytes out)) = 4 \<and>
        take 2 (take (unat n) (le_bytes out)) = take 2 (write_token a 0)
        then le16 (take (unat n) (le_bytes out) ! 3) (take (unat n) (le_bytes out) ! 2) else r ?e1)"
    and flush: "\<And>e. r (spi_fflush M e) = r e"
    using assms(1) by (auto simp: holds_register_def)
  have st: "status = A_OK" and e': "hw_env s' = spi_fflush M (snd (snd ?x))"
    using assms(2) start rw(1)
    by (auto simp: Custom_Bus_InOutToken_def Custom_Bus_StartTransfer_def Custom_Bus_CompleteTransfer_def
        Let_def split_beta split: if_splits)
  show ?thesis
  proof (cases "4 \<le> unat n")
    case True
    then have "take (unat n) (le_bytes out) = le_bytes out" by simp
    with True st e' rw(2) flush start(2) show ?thesis by simp
  next
    case False
    then have "length (take (unat n) (le_bytes out)) \<noteq> 4" by simp
    with False st e' rw(2) flush start(2) show ?thesis by simp
  qed
qed

lemma write_token_prefix:
  "take 2 (write_token b v) = take 2 (write_token a 0) \<longleftrightarrow> b OR CMD_ADDRESS_INTERNAL = a OR CMD_ADDRESS_INTERNAL"
proof
  assume "take 2 (write_token b v) = take 2 (write_token a 0)"
  then have "byte_of 0 (b OR CMD_ADDRESS_INTERNAL) = byte_of 0 (a OR CMD_ADDRESS_INTERNAL)"
    "byte_of (Suc 0) (b OR CMD_ADDRESS_INTERNAL) = byte_of (Suc 0) (a OR CMD_ADDRESS_INTERNAL)"
    by (simp_all add: write_token_def)
  then show "b OR CMD_ADDRESS_INTERNAL = a OR CMD_ADDRESS_INTERNAL"
    by (metis le16_bytes)
qed (simp add: write_token_def)

lemma DoPioWriteInternal_register:
  assumes "holds_register M a r" "DoPioWriteInternal M b v s = (status, s')"
  shows "status = A_OK \<and> strip s' = strip s \<and>
    r (hw_env s') = (if b OR CMD_ADDRESS_INTERNAL = a OR CMD_ADDRESS_INTERNAL then ucast v else r (hw_env s))"
proof -
  obtain t' where tok: "Custom_Bus_InOutToken M
      (ucast (swap16 (b OR CMD_ADDRESS_INTERNAL)) OR push_bit 16 (ucast (swap16 (ucast v)) AND 0xFFFF))
      4 (uninit_u32 M (hw_env s)) s = (status, t', s')"
    using assms(2) by (auto simp: DoPioWriteInternal_def Let_def split: prod.splits)
  have four: "4 \<le> unat (4 :: u8)" by simp
  have "le16 (write_token b (ucast v) ! 3) (write_token b (ucast v) ! 2) = (ucast v :: u16)"
    by (simp add: write_token_def)
  then show ?thesis
    using Custom_Bus_InOutToken_register [OF assms(1) tok, unfolded le_bytes_write_token]
      Custom_Bus_InOutToken_strip [OF tok] four
    by (simp only: write_token_prefix simp_thms if_True split: if_splits)
qed

lemma DoPioWriteInternal_strip: "DoPioWriteInternal M b v s = (status, s') \<Longrightarrow> strip s' = strip s"
  by (auto simp: DoPioWriteInternal_def Let_def split: prod.splits dest: Custom_Bus_InOutToken_strip)

lemma DoPioReadInternal_strip: "DoPioReadInternal M b s = (status, v, s') \<Longrightarrow> strip s' = strip s"
  by (auto simp: DoPioReadInternal_def Let_def split: prod.splits dest: Custom_Bus_InOutToken_strip)

text \<open>Register addresses have their two top bits clear, so a read token is never a write token.\<close>

lemma read_token_prefix:
  assumes "a AND 0xC000 = 0"
  shows "take 2 (read_token b) \<noteq> take 2 (write_token a 0)"
proof
  assume "take 2 (read_token b) = take 2 (write_token a 0)"
  then have "byte_of (Suc 0) (b OR CMD_ADDRESS_INTERNAL OR CMD_ADDR_READ) = byte_of (Suc 0) (a OR CMD_ADDRESS_INTERNAL)"
    by (simp add: read_token_def write_token_def)
  moreover have "bit (byte_of (Suc 0) (b OR CMD_ADDRESS_INTERNAL OR CMD_ADDR_READ)) 7"
    by (simp add: byte_of_def bit_simps)
  moreover have "\<not> bit a 15"
  proof -
    have "bit (a AND 0xC000) 15 = bit a 15" by (simp add: bit_simps)
    with assms show ?thesis by simp
  qed
  then have "\<not> bit (byte_of (Suc 0) (a OR CMD_ADDRESS_INTERNAL)) 7"
    by (simp add: byte_of_def bit_simps)
  ultimately show False by simp
qed

lemma DoPioReadInternal_register:
  assumes "holds_register M a r" "a AND 0xC000 = 0" "DoPioReadInternal M b s = (status, v, s')"
  shows "status = A_OK \<and> strip s' = strip s \<and> r (hw_env s') = r (hw_env s)"
proof -
  obtain t' where tok: "Custom_Bus_InOutToken M (ucast (swap16 (b OR CMD_ADDRESS_INTERNAL OR CMD_ADDR_READ)))
      4 (uninit_u32 M (hw_env s)) s = (status, t', s')"
    using assms(3) by (auto simp: DoPioReadInternal_def Let_def split: prod.splits)
  show ?thesis
    using Custom_Bus_InOutToken_register [OF assms(1) tok, unfolded le_bytes_read_token]
      Custom_Bus_InOutToken_strip [OF tok] read_token_prefix [OF assms(2), of b]
    by simp
qed

section \<open>Operations that leave the interrupt enable register alone\<close>

definition ie_register :: "'e mqx \<Rightarrow> ('e \<Rightarrow> u16) \<Rightarrow> bool" where
  "ie_register M r \<longleftrightarrow> holds_register M ATH_SPI_INTR_ENABLE_REG r"

text \<open>What such an operation keeps: the register and everything but environment and memory.\<close>

definition core :: "('e \<Rightarrow> u16) \<Rightarrow> 'e drv \<Rightarrow> u16 \<times> 'e drv" where
  "core r s = (r (hw_env s), strip s)"

lemma core_eq: "core r s' = core r s \<longleftrightarrow> r (hw_env s') = r (hw_env s) \<and> strip s' = strip s"
  by (simp add: core_def)

lemma quiet_write:
  "DoPioWriteInternal M b v s = (status, s') \<Longrightarrow> ie_register M r \<Longrightarrow>
   b OR CMD_ADDRESS_INTERNAL \<noteq> ATH_SPI_INTR_ENABLE_REG OR CMD_ADDRESS_INTERNAL \<Longrightarrow>
   status = A_OK \<and> core r s' = core r s"
  by (auto simp: core_eq ie_register_def dest: DoPioWriteInternal_register)

lemma enable_write:
  "DoPioWriteInternal M ATH_SPI_INTR_ENABLE_REG v s = (status, s') \<Longrightarrow> ie_register M r \<Longrightarrow>
   status = A_OK \<and> strip s' = strip s \<and> r (hw_env s') = ucast v"
  by (auto simp: ie_register_def dest: DoPioWriteInternal_register)

lemma quiet_read:
  "DoPioReadInternal M b s = (status, v, s') \<Longrightarrow> ie_register M r \<Longrightarrow>
   status = A_OK \<and> core r s' = core r s"
  by (auto simp: core_eq ie_register_def dest: DoPioReadInternal_register)

lemma quiet_buffer:
  "Custom_Bus_InOutBuffer M p n d s = (status, s') \<Longrightarrow> ie_register M r \<Longrightarrow>
   status \<noteq> A_PENDING \<and> core r s' = core r s"
proof -
  assume reg: "ie_register M r" and run: "Custom_Bus_InOutBuffer M p n d s = (status, s')"
  have "\<And>n e. r (snd (spi_fread M n e)) = r e" "\<And>bs e. r (snd (spi_fwrite M bs e)) = r e"
    using reg by (simp_all add: ie_register_def holds_register_def)
  with run show ?thesis
    by (auto simp: Custom_Bus_InOutBuffer_def core_eq split_beta split: if_splits)
qed

lemma quiet_start:
  "Custom_Bus_StartTransfer M s = (status, s') \<Longrightarrow> ie_register M r \<Longrightarrow> status = A_OK \<and> core r s' = core r s"
  by (auto simp: Custom_Bus_StartTransfer_def core_eq ie_register_def holds_register_def split_beta
      split: if_splits)

lemma quiet_complete:
  "Custom_Bus_CompleteTransfer M s = (status, s') \<Longrightarrow> ie_register M r \<Longrightarrow> status = A_OK \<and> core r s' = core r s"
  by (auto simp: Custom_Bus_CompleteTransfer_def core_eq ie_register_def holds_register_def)

lemma quiet_delay: "ie_register M r \<Longrightarrow> core r (qosal_usec_delay M d s) = core r s"
  by (auto simp: qosal_usec_delay_def core_eq ie_register_def holds_register_def)

lemma quiet_token:
  "OUT_TOKEN_CMD_ADDR_DMA_WRITE M b s = (status, s') \<Longrightarrow> ie_register M r \<Longrightarrow>
   status = A_OK \<and> core r s' = core r s"
proof -
  assume reg: "ie_register M r" and run: "OUT_TOKEN_CMD_ADDR_DMA_WRITE M b s = (status, s')"
  then obtain t where tok:
      "Custom_Bus_InOutToken M (ucast (swap16 b)) (1 + 1) (uninit_u32 M (hw_env s)) s = (status, t, s')"
    by (auto simp: OUT_TOKEN_CMD_ADDR_DMA_WRITE_def Bus_InOutToken_def split: prod.splits)
  have "\<not> 4 \<le> unat (1 + 1 :: u8)" by simp
  with Custom_Bus_InOutToken_register [OF reg [unfolded ie_register_def] tok]
  show ?thesis by (simp add: core_eq Custom_Bus_InOutToken_strip [OF tok])
qed

lemmas out_token_defs = OUT_TOKEN_CMD_ADDR_INTERNAL_READ_def OUT_TOKEN_CMD_ADDR_INTERNAL_WRITE_def
  OUT_TOKEN_CMD_ADDR_DMA_READ_def

lemma bus_fragments_quiet:
  assumes "bus_fragments M req d i t status s = Some (status', t', s')"
    and reg: "ie_register M r" and "status \<noteq> A_PENDING"
  shows "status' \<noteq> A_PENDING \<and> core r s' = core r s"
proof -
  have "ie_register M r \<longrightarrow> status \<noteq> A_PENDING \<longrightarrow> fst y \<noteq> A_PENDING \<and> core r (snd (snd y)) = core r s"
    if "bus_fragments M req d i t status s = Some y" for y
  proof (rule bus_fragments.raw_induct [OF _ that, where P = "\<lambda>M req d i t status s y.
      ie_register M r \<longrightarrow> status \<noteq> A_PENDING \<longrightarrow> fst y \<noteq> A_PENDING \<and> core r (snd (snd y)) = core r s"],
      goal_cases)
    case (1 f M req d i t status s y)
    show ?case
      using 1(2)
      by (auto split: prod.splits option.splits if_splits dest!: quiet_buffer [where r = r] 1(1))
  qed
  from this [OF assms(1)] assms(2,3) show ?thesis by simp
qed

lemma quiet_pad:
  "bus_pad M req d k st s = Some (status, s') \<Longrightarrow> ie_register M r \<Longrightarrow> st \<noteq> A_PENDING \<Longrightarrow>
   status \<noteq> A_PENDING \<and> core r s' = core r s"
  by (auto simp: bus_pad_def Let_def bind_eq_Some_conv split: if_splits dest!: quiet_buffer [where r = r])

lemma quiet_transfer:
  assumes run: "Hcd_TransferData M req s = Some (status, s')" and reg: "ie_register M r"
  shows "status \<noteq> A_PENDING \<and> core r s' = core r s"
proof -
  obtain st1 s1 where start: "Custom_Bus_StartTransfer M s = (st1, s1)" by fastforce
  have q1: "st1 = A_OK" "core r s1 = core r s" using quiet_start [OF start reg] by auto
  from run start q1(1) obtain st2 k s2 st3 s3 where
    frags: "bus_fragments M req (ATH_IS_TRANS_READ req) 0 0 A_OK s1 = Some (st2, k, s2)" and
    pad: "bus_pad M req (ATH_IS_TRANS_READ req) k st2 s2 = Some (st3, s3)" and
    fin: "(status, s') = (if st3 = A_OK then Custom_Bus_CompleteTransfer M s3 else (st3, s3))"
    by (auto simp: Hcd_TransferData_def Bus_InOutDescriptorSet_def Let_def bind_eq_Some_conv)
  have q2: "st2 \<noteq> A_PENDING" "core r s2 = core r s1" using bus_fragments_quiet [OF frags reg] by auto
  have q3: "st3 \<noteq> A_PENDING" "core r s3 = core r s2" using quiet_pad [OF pad reg] q2 by auto
  have "status \<noteq> A_PENDING \<and> core r s' = core r s3"
    using fin q3(1) quiet_complete [OF _ reg, of s3 status s'] by (auto split: if_splits)
  with q1(2) q2(2) q3(2) show ?thesis by simp
qed

lemma quiet_write_port:
  "pio_external_write_port M req s = Some (status, s') \<Longrightarrow> ie_register M r \<Longrightarrow> core r s' = core r s"
  by (auto simp: pio_external_write_port_def out_token_defs bind_eq_Some_conv split: prod.splits if_splits
      dest!: quiet_token [where r = r] quiet_transfer [where r = r])

lemma quiet_read_done:
  "HandleExternalReadDone M req s = Some (status, s') \<Longrightarrow> ie_register M r \<Longrightarrow> core r s' = core r s"
  by (auto simp: HandleExternalReadDone_def out_token_defs bind_eq_Some_conv split: prod.splits if_splits
      dest!: quiet_token [where r = r] quiet_transfer [where r = r])

lemma quiet_poll:
  "poll_host_access_done M n st s = (status, k, s') \<Longrightarrow> ie_register M r \<Longrightarrow> core r s' = core r s"
  by (induction n arbitrary: st s)
     (auto split: prod.splits if_splits dest!: quiet_read [where r = r] simp: quiet_delay)

lemma quiet_finish:
  "pio_external_finish M req s = Some (status, s') \<Longrightarrow> ie_register M r \<Longrightarrow> core r s' = core r s"
  by (auto simp: pio_external_finish_def bind_eq_Some_conv split: prod.splits if_splits
      dest!: quiet_poll [where r = r] quiet_read_done [where r = r] quiet_write [where r = r])

lemma quiet_external:
  assumes "Hcd_DoPioExternalAccess M req s = Some (status, s')" and reg: "ie_register M r"
  shows "core r s' = core r s"
  using assms(1)
  by (auto simp: Hcd_DoPioExternalAccess_def Let_def bind_eq_Some_conv
      split: prod.split_asm if_split_asm
      dest!: quiet_write [OF _ reg] quiet_write_port [OF _ reg] quiet_finish [OF _ reg])

lemma quiet_reset:
  "ResetWriteBufferWaterMark M s = (status, s') \<Longrightarrow> ie_register M r \<Longrightarrow> status = A_OK \<and> core r s' = core r s"
  by (auto simp: ResetWriteBufferWaterMark_def split: prod.splits if_splits dest!: quiet_write [where r = r])

section \<open>The shadow of the enable register\<close>

definition in_step :: "('e \<Rightarrow> u16) \<Rightarrow> 'e drv \<Rightarrow> bool" where
  "in_step r s \<longleftrightarrow> r (hw_env s) = SpiIntEnableShadow (spi_hcd s)"

lemma in_step_core: "core r s' = core r s \<Longrightarrow> in_step r s' = in_step r s"
  by (auto simp: core_eq in_step_def dest: strip_fields)

lemma ucast_u16_u32: "ucast (ucast (x :: u16) :: u32) = x"
  by (rule bit_word_eqI) (auto simp: bit_simps)

lemma mask_shadow:
  assumes "MaskSPIInterrupts M m s = (status, s')" and reg: "ie_register M r"
  shows "status = A_OK \<and> in_step r s' \<and>
    strip s' = strip (set_hcd (\<lambda>h. h\<lparr>SpiIntEnableShadow := SpiIntEnableShadow h AND NOT m\<rparr>) s)"
proof -
  let ?s = "set_hcd (\<lambda>h. h\<lparr>SpiIntEnableShadow := SpiIntEnableShadow h AND NOT m\<rparr>) s"
  have "DoPioWriteInternal M ATH_SPI_INTR_ENABLE_REG (ucast (SpiIntEnableShadow (spi_hcd ?s))) ?s = (status, s')"
    using assms(1) by (simp add: MaskSPIInterrupts.simps Let_def and_not_and_self)
  from enable_write [OF this reg] show ?thesis
    using strip_fields(1) [of s' ?s] by (simp add: in_step_def ucast_u16_u32)
qed

lemma or_self_absorb: "(m :: 'a::len word) AND (x OR m) = m"
  by (rule bit_word_eqI) (auto simp: bit_simps)

lemma unmask_shadow:
  assumes "Hcd_UnmaskInterrupts M m s = (status, s')" and reg: "ie_register M r"
  shows "status = A_OK \<and> in_step r s' \<and>
    strip s' = strip (set_hcd (\<lambda>h. h\<lparr>SpiIntEnableShadow := SpiIntEnableShadow h OR m\<rparr>) s)"
proof -
  let ?s = "set_hcd (\<lambda>h. h\<lparr>SpiIntEnableShadow := SpiIntEnableShadow h OR m\<rparr>) s"
  obtain t where t: "strip t = strip ?s" and
    run: "DoPioWriteInternal M ATH_SPI_INTR_ENABLE_REG (ucast (SpiIntEnableShadow (spi_hcd t))) t = (status, s')"
  proof (cases "m = 0")
    case True
    obtain st1 s1 where m: "MaskSPIInterrupts M m ?s = (st1, s1)" by fastforce
    have "set_hcd (\<lambda>h. h\<lparr>SpiIntEnableShadow := SpiIntEnableShadow h AND NOT m\<rparr>) ?s = ?s"
      using True by (simp add: set_hcd_def)
    then have "strip s1 = strip ?s" using mask_shadow [OF m reg] by simp
    with m True assms(1) that [of s1] show ?thesis
      by (simp add: Hcd_UnmaskInterrupts.simps Let_def)
  next
    case False
    with assms(1) that [of ?s] show ?thesis
      by (simp add: Hcd_UnmaskInterrupts.simps Let_def or_self_absorb)
  qed
  from enable_write [OF run reg] t show ?thesis
    using strip_fields(1) [of s' ?s] strip_fields(1) [of t ?s] by (simp add: in_step_def ucast_u16_u32)
qed

lemma mask_unmask_restores:
  fixes x m :: u16
  assumes "m = x AND p"
  shows "x AND NOT m OR m = x"
  unfolding assms by (rule bit_word_eqI) (auto simp: bit_simps)

lemma quiet_dma_token:
  "(if c then OUT_TOKEN_CMD_ADDR_DMA_READ M a s else OUT_TOKEN_CMD_ADDR_DMA_WRITE M a s) = (status, s') \<Longrightarrow>
   ie_register M r \<Longrightarrow> status = A_OK \<and> core r s' = core r s"
  by (auto simp: OUT_TOKEN_CMD_ADDR_DMA_READ_def split: if_splits dest!: quiet_token [where r = r])

lemma quiet_dma_transfer:
  assumes "dma_transfer M req s = Some (status, s')" and reg: "ie_register M r"
  shows "status \<noteq> A_PENDING \<and> core r s' = core r s"
proof -
  obtain st1 s1 where w: "DoPioWriteInternal M ATH_SPI_DMA_SIZE_REG (ucast (t_transferLength (trans req))) s = (st1, s1)"
    by fastforce
  obtain st2 s2 where t: "(if ATH_IS_TRANS_READ req then OUT_TOKEN_CMD_ADDR_DMA_READ M (t_address (trans req)) s1
      else OUT_TOKEN_CMD_ADDR_DMA_WRITE M (t_address (trans req)) s1) = (st2, s2)"
    by fastforce
  have 1: "st1 = A_OK" "core r s1 = core r s" using quiet_write [OF w reg] by auto
  have 2: "st2 = A_OK" "core r s2 = core r s1" using quiet_dma_token [OF t reg] by auto
  from assms(1) obtain st3 s3 where tr: "Hcd_TransferData M req s2 = Some (st3, s3)"
    by (auto simp: dma_transfer_def w t 1 2 bind_eq_Some_conv simp del: if_split)
  have 3: "st3 \<noteq> A_PENDING" "core r s3 = core r s2" using quiet_transfer [OF tr reg] by auto
  have "(status, s') = (st3, s3)"
    using assms(1) 3(1) unfolding dma_transfer_def w by (simp add: t 1 2 tr del: if_split)
  with 1 2 3 show ?thesis by simp
qed

text \<open>The transfer of a request masks the packet interrupt while it owns the bus and gives it back.\<close>

lemma DoDMAOp_shadow:
  assumes run: "DoDMAOp M req s = Some (status, s')" and reg: "ie_register M r" and step: "in_step r s"
  shows "status \<noteq> A_PENDING \<and> strip s' = strip s \<and> in_step r s'"
proof -
  define m where "m = SpiIntEnableShadow (spi_hcd s) AND ATH_SPI_INTR_PKT_AVAIL"
  define s1 where "s1 = (if m \<noteq> 0 then snd (MaskSPIInterrupts M m s) else s)"
  have s1: "in_step r s1" "m \<noteq> 0 \<Longrightarrow>
      strip s1 = strip (set_hcd (\<lambda>h. h\<lparr>SpiIntEnableShadow := SpiIntEnableShadow h AND NOT m\<rparr>) s)"
    "m = 0 \<Longrightarrow> s1 = s"
    using mask_shadow [OF prod.collapse [symmetric] reg, of m s] step by (auto simp: s1_def)
  have run': "DoDMAOp M req s = dma_transfer M req s1 \<bind> (\<lambda>(status, s). Some (if m \<noteq> 0 then
      if status = A_PENDING then (status, set_hcd (\<lambda>h. h\<lparr>irqMask := m\<rparr>) s)
      else (status, snd (Hcd_UnmaskInterrupts M m s)) else (status, s)))"
    by (simp only: DoDMAOp_def m_def s1_def Let_def)
  obtain st2 s2 where tr: "dma_transfer M req s1 = Some (st2, s2)"
    using run unfolding run' by (cases "dma_transfer M req s1") auto
  have "st2 \<noteq> A_PENDING" and core2: "core r s2 = core r s1" using quiet_dma_transfer [OF tr reg] by auto
  have eq: "(if m \<noteq> 0 then if st2 = A_PENDING then (st2, set_hcd (\<lambda>h. h\<lparr>irqMask := m\<rparr>) s2)
      else (st2, snd (Hcd_UnmaskInterrupts M m s2)) else (st2, s2)) = (status, s')"
    using run by (simp only: run' tr bind.simps prod.case option.inject)
  then have st: "status = st2" using \<open>st2 \<noteq> A_PENDING\<close>
    by (metis prod.inject)
  have s': "s' = (if m \<noteq> 0 then snd (Hcd_UnmaskInterrupts M m s2) else s2)"
    using eq \<open>st2 \<noteq> A_PENDING\<close> by (metis prod.inject)
  note s2 = \<open>st2 \<noteq> A_PENDING\<close> [folded st] core2
  show ?thesis
  proof (cases "m = 0")
    case True
    with s1(3) s2 s' have "core r s' = core r s" by simp
    with s2(1) step show ?thesis using in_step_core [of r s' s] by (simp add: core_eq)
  next
    case False
    note un = unmask_shadow [OF prod.collapse [symmetric] reg, of m s2]
    have step': "in_step r s'" using un s' False by simp
    have "strip s' = strip (set_hcd (\<lambda>h. h\<lparr>SpiIntEnableShadow := SpiIntEnableShadow h OR m\<rparr>) s2)"
      using un s' False by simp
    also have "strip (set_hcd (\<lambda>h. h\<lparr>SpiIntEnableShadow := SpiIntEnableShadow h OR m\<rparr>) s2) =
        strip (set_hcd (\<lambda>h. h\<lparr>SpiIntEnableShadow := SpiIntEnableShadow h OR m\<rparr>)
          (set_hcd (\<lambda>h. h\<lparr>SpiIntEnableShadow := SpiIntEnableShadow h AND NOT m\<rparr>) s))"
      using s1(2) [OF False] s2(2) by (intro strip_set_hcd) (simp add: core_eq)
    also have "\<dots> = strip s"
      using mask_unmask_restores [OF m_def] by (simp add: set_hcd_def strip_def)
    finally show ?thesis using s2(1) step' by simp
  qed
qed

lemma in_step_set_hcd:
  "in_step r s \<Longrightarrow> (\<And>h. SpiIntEnableShadow (f h) = SpiIntEnableShadow h) \<Longrightarrow> in_step r (set_hcd f s)"
  by (simp add: in_step_def set_hcd_def)

lemma word_xor_eq_0_iff: "(x :: 'a::len word) XOR y = 0 \<longleftrightarrow> x = y"
  by (metis bit.xor_cancel_right xor.assoc xor_self_eq xor.left_neutral)

lemma ConfigureByteSwap_shadow:
  assumes run: "ConfigureByteSwap M ty s = Some (status, s')" and reg: "ie_register M r" and step: "in_step r s"
  shows "status = A_OK \<and> in_step r s' \<and> SpiIntEnableShadow (spi_hcd s') = SpiIntEnableShadow (spi_hcd s)
    \<and> booleans s' = booleans s"
proof -
  obtain w where w: "byte_swap_settings ty (SpiConfigShadow (spi_hcd s)) = Some w"
    using run by (cases "byte_swap_settings ty (SpiConfigShadow (spi_hcd s))") (auto simp: ConfigureByteSwap_def)
  let ?t = "set_hcd (\<lambda>h. h\<lparr>SpiConfigShadow := w\<rparr>) s"
  have t: "in_step r ?t" using step by (rule in_step_set_hcd) simp
  show ?thesis
  proof (cases "w = SpiConfigShadow (spi_hcd s)")
    case False
    with run w have "DoPioWriteInternal M ATH_SPI_CONFIG_REG (ucast w) ?t = (status, s')"
      by (simp add: ConfigureByteSwap_def word_xor_eq_0_iff)
    from quiet_write [OF this reg] have "status = A_OK" "core r s' = core r ?t" by simp_all
    with t show ?thesis
      using in_step_core [of r s' ?t] strip_fields(1,2) [of s' ?t] by (simp add: core_eq)
  next
    case True
    with run w step show ?thesis by (simp add: ConfigureByteSwap_def)
  qed
qed

lemma Hcd_Request_shadow:
  assumes run: "Hcd_Request M req s = Some (status, s')" and reg: "ie_register M r" and step: "in_step r s"
  shows "in_step r s' \<and> SpiIntEnableShadow (spi_hcd s') = SpiIntEnableShadow (spi_hcd s)"
proof (cases "flag_set SDHD_BOOL_FATAL_ERROR s \<or> flag_set SDHD_BOOL_SHUTDOWN s")
  case True
  with run have "s' = s" by (cases "flag_set SDHD_BOOL_FATAL_ERROR s") (simp_all add: Hcd_Request_def)
  with step show ?thesis by simp
next
  case False
  with run obtain st1 s1 where cfg: "ConfigureByteSwap M (DMADataWidth (spi_hcd s)) s = Some (st1, s1)"
    by (cases "ConfigureByteSwap M (DMADataWidth (spi_hcd s)) s") (auto simp: Hcd_Request_def)
  note 1 = ConfigureByteSwap_shadow [OF cfg reg step]
  define s2 where "s2 = (if ATH_IS_TRANS_READ req then s1
    else ADJUST_WRBUF_SPACE (ucast (t_transferLength (trans req))) s1)"
  have s2: "in_step r s2" "SpiIntEnableShadow (spi_hcd s2) = SpiIntEnableShadow (spi_hcd s)"
    using 1 by (auto simp: s2_def ADJUST_WRBUF_SPACE_def intro: in_step_set_hcd)
  have dma: "DoDMAOp M req s2 = Some (status, s')"
    using run False cfg 1 by (simp add: Hcd_Request_def s2_def split: if_splits)
  from DoDMAOp_shadow [OF dma reg s2(1)] s2(2) show ?thesis
    using strip_fields(1) [of s' s2] by simp
qed

lemma EnableDisable_irq_core:
  "ie_register M r \<Longrightarrow> r (hw_env (HW_EnableDisableSPIIRQ M b s)) = r (hw_env s)
   \<and> SpiIntEnableShadow (spi_hcd (HW_EnableDisableSPIIRQ M b s)) = SpiIntEnableShadow (spi_hcd s)
   \<and> booleans (HW_EnableDisableSPIIRQ M b s) = booleans s"
  by (simp add: HW_EnableDisableSPIIRQ_def Custom_Hcd_EnableDisableSPIIRQ_def ie_register_def
      holds_register_def set_hcd_def)

lemma EnableDisableSPIIRQHwDetect_shadow:
  assumes run: "EnableDisableSPIIRQHwDetect M True s = Some s'" and reg: "ie_register M r"
    and edge: "SpiHWCapabilitiesFlags (spi_hcd s) AND HW_SPI_INT_EDGE_DETECT \<noteq> 0"
  shows "in_step r s' \<and> SpiIntEnableShadow (spi_hcd s') = SpiIntEnableShadow (spi_hcd s)
    \<and> booleans s' = booleans s"
proof -
  obtain st1 s1 where w1: "DoPioWriteInternal M ATH_SPI_INTR_ENABLE_REG 0 s = (st1, s1)" by fastforce
  let ?s2 = "HW_EnableDisableSPIIRQ M True s1"
  obtain st3 where w3: "DoPioWriteInternal M ATH_SPI_INTR_ENABLE_REG (ucast (SpiIntEnableShadow (spi_hcd ?s2))) ?s2 = (st3, s')"
    using run edge w1 by (auto simp: EnableDisableSPIIRQHwDetect_def A_ASSERT_bind_Some Let_def split: prod.splits)
  have 1: "strip s1 = strip s" using enable_write [OF w1 reg] by simp
  have 3: "strip s' = strip ?s2" "r (hw_env s') = SpiIntEnableShadow (spi_hcd ?s2)"
    using enable_write [OF w3 reg] by (simp_all add: ucast_u16_u32)
  show ?thesis
    using 3 strip_fields(1,2) [OF 3(1)] strip_fields(1,2) [OF 1] EnableDisable_irq_core [OF reg, of True s1]
    by (simp add: in_step_def)
qed

section \<open>Bus errors\<close>

lemma bus_interrupt_error_fields:
  "SpiIntEnableShadow (spi_hcd (bus_interrupt_error M v s)) = SpiIntEnableShadow (spi_hcd s)"
  "SpiHWCapabilitiesFlags (spi_hcd (bus_interrupt_error M v s)) = SpiHWCapabilitiesFlags (spi_hcd s)"
  "booleans (bus_interrupt_error M v s) = booleans s OR SDHD_BOOL_FATAL_ERROR"
proof -
  obtain st1 s1 where 1: "DoPioWriteInternal M ATH_SPI_INTR_CAUSE_REG (v AND ATH_SPI_HCD_ERROR_IRQS) s = (st1, s1)"
    by fastforce
  let ?s2 = "s1\<lparr>booleans := booleans s1 OR SDHD_BOOL_FATAL_ERROR\<rparr>"
  obtain st3 s3 where 3: "DoPioWriteInternal M ATH_SPI_INTR_ENABLE_REG 0 ?s2 = (st3, s3)"
    by fastforce
  have "bus_interrupt_error M v s = s3" by (simp add: bus_interrupt_error_def 1 3 Let_def)
  then show "SpiIntEnableShadow (spi_hcd (bus_interrupt_error M v s)) = SpiIntEnableShadow (spi_hcd s)"
    "SpiHWCapabilitiesFlags (spi_hcd (bus_interrupt_error M v s)) = SpiHWCapabilitiesFlags (spi_hcd s)"
    "booleans (bus_interrupt_error M v s) = booleans s OR SDHD_BOOL_FATAL_ERROR"
    using strip_fields(1,2) [OF DoPioWriteInternal_strip [OF 1]]
      strip_fields(1,2) [OF DoPioWriteInternal_strip [OF 3]] by simp_all
qed

lemma fatal_flag_sticky:
  "flag_set SDHD_BOOL_FATAL_ERROR (s\<lparr>booleans := b OR SDHD_BOOL_FATAL_ERROR\<rparr>)"
proof -
  have "bit ((b OR SDHD_BOOL_FATAL_ERROR) AND SDHD_BOOL_FATAL_ERROR) 7" by (simp add: bit_simps)
  then show ?thesis by (auto simp: flag_set_def)
qed

end
