(* ===== verification/Spi_Steps.thy ===== *)
theory Spi_Steps
  imports Spi_Registers
begin

text \<open>
  The operations of the SPI host controller driver as steps of one state machine, and what holds
  in every state it reaches: the interrupt enable register of the chip is the driver's shadow of
  it. Then what a bus error leaves behind, and the assembly of the look-ahead.
\<close>

section \<open>More operations and the shadow\<close>

lemma flag_set_or: "a AND b = 0 \<Longrightarrow> flag_set b (s\<lparr>booleans := c OR a\<rparr>) = flag_set b (s\<lparr>booleans := c\<rparr>)"
  by (simp add: flag_set_def bit.conj_disj_distrib2)

lemma flag_set_and_not: "a AND b = 0 \<Longrightarrow> flag_set b (s\<lparr>booleans := c AND NOT a\<rparr>) = flag_set b (s\<lparr>booleans := c\<rparr>)"
proof -
  assume z: "a AND b = 0"
  have "(c AND NOT a) AND b = c AND b"
  proof (rule bit_word_eqI)
    fix n assume "n < LENGTH(16)"
    have "bit (a AND b) n = False" using z by simp
    then show "bit ((c AND NOT a) AND b) n = bit (c AND b) n"
      using \<open>n < LENGTH(16)\<close> by (auto simp: bit_simps)
  qed
  then show ?thesis by (simp add: flag_set_def)
qed

lemma in_step_frame:
  "hw_env s' = hw_env s \<Longrightarrow> SpiIntEnableShadow (spi_hcd s') = SpiIntEnableShadow (spi_hcd s) \<Longrightarrow>
   in_step r s \<Longrightarrow> in_step r s'"
  by (simp add: in_step_def)

lemma write_ex:
  assumes "ie_register M r" "b OR CMD_ADDRESS_INTERNAL \<noteq> ATH_SPI_INTR_ENABLE_REG OR CMD_ADDRESS_INTERNAL"
  obtains s' where "DoPioWriteInternal M b v s = (A_OK, s')" "core r s' = core r s"
  using quiet_write [OF prod.collapse [symmetric] assms, of v s] that
  by (metis prod.collapse)

lemma read_ex:
  assumes "ie_register M r"
  obtains v s' where "DoPioReadInternal M b s = (A_OK, v, s')" "core r s' = core r s"
  using quiet_read [OF _ assms, of b s] that by (metis prod_cases3)

lemma reset_ex:
  assumes "ie_register M r"
  obtains s' where "ResetWriteBufferWaterMark M s = (A_OK, s')" "core r s' = core r s"
  using quiet_reset [OF prod.collapse [symmetric] assms, of s] that by (metis prod.collapse)

lemma GetLookAhead_shadow:
  assumes run: "Hcd_GetLookAhead M s = Some (status, s')" and reg: "ie_register M r" and step: "in_step r s"
  shows "status = A_OK \<and> in_step r s'"
proof -
  obtain v1 s1 where r1: "DoPioReadInternal M ATH_SPI_RDBUF_BYTE_AVA_REG s = (A_OK, v1, s1)"
    and c1: "core r s1 = core r s" by (rule read_ex [OF reg])
  let ?t = "set_hcd (\<lambda>h. h\<lparr>ReadBufferSpace := v1\<rparr>) s1"
  have t: "in_step r ?t" using in_step_core [OF c1] step by (auto intro: in_step_set_hcd)
  obtain v2 s2 where r2: "DoPioReadInternal M ATH_SPI_RDBUF_LOOKAHEAD1_REG ?t = (A_OK, v2, s2)"
    and c2: "core r s2 = core r ?t" by (rule read_ex [OF reg])
  obtain v3 s3 where r3: "DoPioReadInternal M ATH_SPI_RDBUF_LOOKAHEAD2_REG s2 = (A_OK, v3, s3)"
    and c3: "core r s3 = core r s2" by (rule read_ex [OF reg])
  have s3: "in_step r s3" using in_step_core [OF c2] in_step_core [OF c3] t by simp
  show ?thesis
  proof (cases "v1 < 4")
    case True
    with run r1 have "status = A_OK" "s' = ?t" by (simp_all add: Hcd_GetLookAhead_def)
    with t show ?thesis by simp
  next
    case False
    with run r1 r2 r3 obtain w where "status = A_OK" "s' = s3\<lparr>lookAhead := w\<rparr>"
      by (auto simp: Hcd_GetLookAhead_def Let_def A_ASSERT_bind_Some)
    with s3 show ?thesis by (simp add: in_step_def)
  qed
qed

lemma unmask_in_step: "ie_register M r \<Longrightarrow> in_step r (snd (Hcd_UnmaskInterrupts M m s))"
  using unmask_shadow [OF prod.collapse [symmetric]] by blast

lemma mask_in_step: "ie_register M r \<Longrightarrow> in_step r (snd (MaskSPIInterrupts M m s))"
  using mask_shadow [OF prod.collapse [symmetric]] by blast

lemma Reinit_shadow:
  assumes run: "Hcd_ReinitTarget M s = (status, s')" and reg: "ie_register M r"
  shows "status = A_OK \<and> in_step r s'"
proof -
  obtain s1 where r1: "DoPioWriteInternal M ATH_SPI_CONFIG_REG (ucast (SpiConfigShadow (spi_hcd s))) s = (A_OK, s1)"
    by (rule write_ex [OF reg, of ATH_SPI_CONFIG_REG]) simp
  obtain s2 where r2: "ResetWriteBufferWaterMark M s1 = (A_OK, s2)" by (rule reset_ex [OF reg])
  have "status = A_OK" "s' = snd (Hcd_UnmaskInterrupts M ATH_SPI_INTR_LOCAL_CPU_INTR
      (snd (Hcd_UnmaskInterrupts M ATH_SPI_HCD_ERROR_IRQS s2)))"
    using run r1 r2 by (simp_all add: Hcd_ReinitTarget_def Let_def)
  then show ?thesis by (simp add: unmask_in_step [OF reg])
qed

lemma Refresh_shadow:
  assumes reg: "ie_register M r" and step: "in_step r s"
  shows "in_step r (Hcd_RefreshWriteBufferSpace M s)"
proof -
  obtain v s' where "DoPioReadInternal M ATH_SPI_WRBUF_SPC_AVA_REG s = (A_OK, v, s')" "core r s' = core r s"
    by (rule read_ex [OF reg])
  with step in_step_core [of r s' s] show ?thesis
    by (auto simp: Hcd_RefreshWriteBufferSpace_def intro: in_step_set_hcd)
qed

lemma in_step_booleans [simp]: "in_step r (s\<lparr>booleans := b\<rparr>) = in_step r s"
  "in_step r (s\<lparr>mem := m\<rparr>) = in_step r s"
  by (simp_all add: in_step_def)

lemma WaterMark_shadow:
  assumes run: "Hcd_ProgramWriteBufferWaterMark M n s = Some (status, s')"
    and reg: "ie_register M r" and step: "in_step r s"
  shows "in_step r s'"
proof -
  define level where "level = MaxWriteBufferSpace (spi_hcd s) - n"
  define lv where "lv = (if level \<noteq> 0 then level else 1)"
  obtain s1 where 1: "DoPioWriteInternal M ATH_SPI_WRBUF_WATERMARK_REG lv s = (A_OK, s1)"
    by (rule write_ex [OF reg, of ATH_SPI_WRBUF_WATERMARK_REG]) simp
  obtain v2 s2 where 2: "DoPioReadInternal M ATH_SPI_STATUS_REG s1 = (A_OK, v2, s2)" by (rule read_ex [OF reg])
  obtain v3 s3 where 3: "DoPioReadInternal M ATH_SPI_STATUS_REG (qosal_usec_delay M 60 s2) = (A_OK, v3, s3)"
    and c3: "core r s3 = core r (qosal_usec_delay M 60 s2)" by (rule read_ex [OF reg])
  obtain v4 s4 where 4: "DoPioReadInternal M ATH_SPI_WRBUF_SPC_AVA_REG s3 = (A_OK, v4, s4)"
    and c4: "core r s4 = core r s3" by (rule read_ex [OF reg])
  obtain s5 where 5: "ResetWriteBufferWaterMark M (set_hcd (\<lambda>h. h\<lparr>WriteBufferSpace := v4\<rparr>) s4) = (A_OK, s5)"
    and c5: "core r s5 = core r (set_hcd (\<lambda>h. h\<lparr>WriteBufferSpace := v4\<rparr>) s4)" by (rule reset_ex [OF reg])
  have c1: "core r s1 = core r s" and c2: "core r s2 = core r s1"
    using quiet_write [OF 1 reg] quiet_read [OF 2 reg] by simp_all
  have "in_step r s4"
    using in_step_core [OF c1] in_step_core [OF c2] in_step_core [OF c3] in_step_core [OF c4]
      in_step_core [OF quiet_delay [OF reg], of 60 s2] step by simp
  then have "in_step r s5" using in_step_core [OF c5] by (auto intro: in_step_set_hcd)
  then show ?thesis
    using run 1 2 3 4 5
    by (auto simp: Hcd_ProgramWriteBufferWaterMark_def Let_def A_ASSERT_bind_Some level_def [symmetric]
        lv_def [symmetric] unmask_in_step [OF reg] split: if_splits)
qed

lemma external_shadow:
  "Hcd_DoPioExternalAccess M req s = Some (status, s') \<Longrightarrow> ie_register M r \<Longrightarrow> in_step r s \<Longrightarrow> in_step r s'"
  using quiet_external in_step_core by blast

lemma cpu_interrupt_shadow:
  assumes reg: "ie_register M r" and step: "in_step r s"
  shows "Hcd_ReadCPUInterrupt M c s = Some (ok, c', s') \<Longrightarrow> in_step r s'"
    "Hcd_ClearCPUInterrupt M s = Some s' \<Longrightarrow> in_step r s'"
    "Hcd_EnableCPUInterrupt M s = Some s' \<Longrightarrow> in_step r s'"
  using step external_shadow [OF _ reg]
  by (fastforce simp: Hcd_ReadCPUInterrupt_def Hcd_ClearCPUInterrupt_def Hcd_EnableCPUInterrupt_def Let_def
      bind_eq_Some_conv split: if_splits)+

section \<open>Bus interrupts\<close>

text \<open>What a bus interrupt keeps while it works through its sources: the capabilities and the
  mark of a transfer in progress.\<close>

definition irq_frame :: "'e drv \<Rightarrow> u8 \<times> bool" where
  "irq_frame s = (SpiHWCapabilitiesFlags (spi_hcd s), flag_set SDHD_BOOL_DMA_IN_PROG s)"

lemma irq_frame_strip: "strip s' = strip s \<Longrightarrow> irq_frame s' = irq_frame s"
  by (simp add: irq_frame_def flag_set_def strip_fields [of s' s])

lemma irq_frame_set_hcd:
  "(\<And>h. SpiHWCapabilitiesFlags (f h) = SpiHWCapabilitiesFlags h) \<Longrightarrow> irq_frame (set_hcd f s) = irq_frame s"
  by (simp add: irq_frame_def flag_set_def)

lemma irq_frame_write [simp]: "irq_frame (snd (DoPioWriteInternal M b v s)) = irq_frame s"
  using irq_frame_strip [OF DoPioWriteInternal_strip [OF prod.collapse [symmetric]]] .

lemma irq_frame_read: "DoPioReadInternal M b s = (st, v, s') \<Longrightarrow> irq_frame s' = irq_frame s"
  by (rule irq_frame_strip) (rule DoPioReadInternal_strip)

lemma irq_frame_read_snd [simp]: "irq_frame (snd (snd (DoPioReadInternal M b s))) = irq_frame s"
  by (metis irq_frame_read prod.collapse)

lemma irq_frame_mask [simp]: "irq_frame (snd (MaskSPIInterrupts M m s)) = irq_frame s"
  by (simp add: MaskSPIInterrupts.simps Let_def and_not_and_self irq_frame_set_hcd)

lemma irq_frame_reset [simp]: "irq_frame (snd (ResetWriteBufferWaterMark M s)) = irq_frame s"
  unfolding ResetWriteBufferWaterMark_def
  by (simp add: split_beta irq_frame_set_hcd)

lemma irq_frame_booleans [simp]:
  "irq_frame (s\<lparr>booleans := booleans s OR SDHD_BOOL_FATAL_ERROR\<rparr>) = irq_frame s"
  "irq_frame (s\<lparr>booleans := booleans s AND NOT SDHD_BOOL_DMA_WRITE_WAIT_FOR_BUFFER\<rparr>) = irq_frame s"
  using flag_set_or [of SDHD_BOOL_FATAL_ERROR SDHD_BOOL_DMA_IN_PROG "booleans s" s]
    flag_set_and_not [of SDHD_BOOL_DMA_WRITE_WAIT_FOR_BUFFER SDHD_BOOL_DMA_IN_PROG "booleans s" s]
  by (simp_all add: irq_frame_def)

lemmas irq_frame_booleans_num [simp] = irq_frame_booleans [simplified]

lemma irq_frame_hcd_booleans [simp]:
  "irq_frame (set_hcd f s\<lparr>booleans := booleans s AND -5\<rparr>) = irq_frame (set_hcd f s)"
  using irq_frame_booleans_num(2) [of "set_hcd f s"] by simp

lemma irq_frame_error [simp]: "irq_frame (bus_interrupt_error M v s) = irq_frame s"
  by (simp add: bus_interrupt_error_def Let_def)

lemma irq_frame_wmark: "bus_interrupt_wmark M v s = (st, s') \<Longrightarrow> irq_frame s' = irq_frame s"
  unfolding bus_interrupt_wmark_def
  by (auto simp: Let_def irq_frame_set_hcd split_beta dest!: arg_cong [where f = snd] split: if_splits)

lemma irq_frame_func: "irq_frame (snd (bus_interrupt_func M v s)) = irq_frame s"
  by (simp add: bus_interrupt_func_def Let_def irq_frame_set_hcd)

lemma irq_frame_sources:
  assumes "bus_interrupt_sources M s = (st, n, s')"
  shows "irq_frame s' = irq_frame s"
proof -
  obtain st1 v s1 where 1: "DoPioReadInternal M ATH_SPI_INTR_CAUSE_REG s = (st1, v, s1)" by (metis prod_cases3)
  define irqs where "irqs = v AND ucast (SpiIntEnableShadow (spi_hcd s1))"
  define host where "host = irqs AND (ATH_SPI_HCD_IRQ_SOURCES OR ATH_SPI_INTR_HOST_CTRL_ACCESS_DONE)"
  obtain st2 s2 where 2: "(if host \<noteq> 0 then DoPioWriteInternal M ATH_SPI_INTR_CAUSE_REG host s1 else (A_OK, s1)) = (st2, s2)"
    by fastforce
  have f2: "irq_frame s2 = irq_frame s"
    using 2 irq_frame_write [of M ATH_SPI_INTR_CAUSE_REG host s1] irq_frame_read [OF 1]
    by (cases "host = 0") auto
  define s3 where "s3 = (if irqs AND ATH_SPI_INTR_HOST_CTRL_ACCESS_DONE \<noteq> 0
      then snd (MaskSPIInterrupts M ATH_SPI_INTR_HOST_CTRL_ACCESS_DONE s2) else s2)"
  have f3: "irq_frame s3 = irq_frame s" using f2 by (simp add: s3_def)
  obtain st4 s4 where 4: "bus_interrupt_wmark M irqs s3 = (st4, s4)" by fastforce
  obtain n5 s5 where 5: "bus_interrupt_func M irqs s4 = (n5, s5)" by fastforce
  have "s' = s1 \<or> s' = s2 \<or> s' = bus_interrupt_error M irqs s2 \<or> s' = s4 \<or> s' = s5"
    using assms
    unfolding bus_interrupt_sources_def Let_def 1 prod.case irqs_def [symmetric] host_def [symmetric] 2
      s3_def [symmetric] 4 5
    by (auto split: if_splits)
  with f2 f3 irq_frame_read [OF 1] irq_frame_wmark [OF 4] irq_frame_func [of M irqs s4] 5
  show ?thesis by auto
qed

text \<open>On a platform that detects edges an interrupt always ends with the shadow in the register.\<close>

lemma BusInterrupt_shadow:
  assumes run: "Hcd_BusInterrupt M s = Some (b, s')" and reg: "ie_register M r" and step: "in_step r s"
    and edge: "SpiHWCapabilitiesFlags (spi_hcd s) AND HW_SPI_INT_EDGE_DETECT \<noteq> 0"
  shows "in_step r s'"
proof (cases "flag_set SDHD_BOOL_DMA_IN_PROG s")
  case True
  with run step show ?thesis by (simp add: Hcd_BusInterrupt_def)
next
  case False
  obtain st n s1 where 1: "bus_interrupt_sources M s = (st, n, s1)" by (metis prod_cases3)
  from irq_frame_sources [OF 1] False edge have
    f: "\<not> flag_set SDHD_BOOL_DMA_IN_PROG s1" "SpiHWCapabilitiesFlags (spi_hcd s1) AND HW_SPI_INT_EDGE_DETECT \<noteq> 0"
    by (simp_all add: irq_frame_def)
  from run False 1 f(1) obtain s2 where 2: "EnableDisableSPIIRQHwDetect M True s1 = Some s2"
    and s': "s' = (if n then set_hcd (\<lambda>h. h\<lparr>PendingIrqAcks := 2\<rparr>) s2 else s2)"
    by (auto simp: Hcd_BusInterrupt_def Let_def bind_eq_Some_conv A_ASSERT_bind_Some)
  from EnableDisableSPIIRQHwDetect_shadow [OF 2 reg f(2)] have "in_step r s2" by simp
  then show ?thesis unfolding s' by (auto intro: in_step_set_hcd)
qed

section \<open>The driver as a state machine\<close>

text \<open>The operations the rest of the driver calls once the bus is up.\<close>

inductive spi_step :: "'e mqx \<Rightarrow> 'e drv \<Rightarrow> 'e drv \<Rightarrow> bool" for M where
  request: "Hcd_Request M req s = Some (st, s') \<Longrightarrow> spi_step M s s'"
| external: "Hcd_DoPioExternalAccess M req s = Some (st, s') \<Longrightarrow> spi_step M s s'"
| mask_irqs: "Hcd_MaskInterrupts M m s = s' \<Longrightarrow> spi_step M s s'"
| unmask_irqs: "Hcd_UnmaskInterrupts M m s = (st, s') \<Longrightarrow> spi_step M s s'"
| look_ahead: "Hcd_GetLookAhead M s = Some (st, s') \<Longrightarrow> spi_step M s s'"
| reinit: "Hcd_ReinitTarget M s = (st, s') \<Longrightarrow> spi_step M s s'"
| refresh: "Hcd_RefreshWriteBufferSpace M s = s' \<Longrightarrow> spi_step M s s'"
| water_mark: "Hcd_ProgramWriteBufferWaterMark M n s = Some (st, s') \<Longrightarrow> spi_step M s s'"
| bus_interrupt: "Hcd_BusInterrupt M s = Some (b, s') \<Longrightarrow> spi_step M s s'"
| irq: "HW_InterruptHandler M s = s' \<Longrightarrow> spi_step M s s'"

inductive_cases spi_stepE: "spi_step M s s'"

text \<open>No transfer is left pending and the register is the shadow, on an edge-detecting platform.\<close>

definition spi_inv :: "('e \<Rightarrow> u16) \<Rightarrow> 'e drv \<Rightarrow> bool" where
  "spi_inv r s \<longleftrightarrow> in_step r s \<and> SpiHWCapabilitiesFlags (spi_hcd s) AND HW_SPI_INT_EDGE_DETECT \<noteq> 0 \<and>
     \<not> flag_set SDHD_BOOL_DMA_IN_PROG s"

lemma spi_inv_frame: "in_step r s' \<Longrightarrow> irq_frame s' = irq_frame s \<Longrightarrow> spi_inv r s \<Longrightarrow> spi_inv r s'"
  by (simp add: spi_inv_def irq_frame_def)

lemma irq_frame_core: "core r s' = core r s \<Longrightarrow> irq_frame s' = irq_frame s"
  by (rule irq_frame_strip) (simp add: core_eq)

lemma irq_frame_unmask [simp]: "irq_frame (snd (Hcd_UnmaskInterrupts M m s)) = irq_frame s"
  by (simp add: Hcd_UnmaskInterrupts.simps Let_def irq_frame_set_hcd)

lemma irq_frame_writeD: "DoPioWriteInternal M b v s = (st, s') \<Longrightarrow> irq_frame s' = irq_frame s"
  by (rule irq_frame_strip) (rule DoPioWriteInternal_strip)

lemma irq_frame_resetD: "ResetWriteBufferWaterMark M s = (st, s') \<Longrightarrow> irq_frame s' = irq_frame s"
  using irq_frame_reset [of M s] by simp

lemma irq_frame_delay [simp]: "irq_frame (qosal_usec_delay M d s) = irq_frame s"
  by (simp add: irq_frame_def flag_set_def qosal_usec_delay_def)

lemma irq_frame_wait: "irq_frame (s\<lparr>booleans := booleans s OR SDHD_BOOL_DMA_WRITE_WAIT_FOR_BUFFER\<rparr>) = irq_frame s"
  using flag_set_or [of SDHD_BOOL_DMA_WRITE_WAIT_FOR_BUFFER SDHD_BOOL_DMA_IN_PROG "booleans s" s]
  by (simp add: irq_frame_def)

lemma irq_frame_fields [simp]:
  "irq_frame (s\<lparr>lookAhead := w\<rparr>) = irq_frame s"
  "irq_frame (s\<lparr>driverWakeEvent := v\<rparr>) = irq_frame s" "irq_frame (s\<lparr>hw_env := e\<rparr>) = irq_frame s"
  by (simp_all add: irq_frame_def flag_set_def)

lemma irq_frame_byte_swap:
  "ConfigureByteSwap M ty s = Some (st, s') \<Longrightarrow> irq_frame s' = irq_frame s"
  by (auto simp: ConfigureByteSwap_def bind_eq_Some_conv irq_frame_set_hcd dest!: irq_frame_writeD
      split: if_splits)

lemma irq_frame_request:
  assumes run: "Hcd_Request M req s = Some (st, s')" and reg: "ie_register M r" and step: "in_step r s"
  shows "irq_frame s' = irq_frame s"
proof (cases "flag_set SDHD_BOOL_FATAL_ERROR s \<or> flag_set SDHD_BOOL_SHUTDOWN s")
  case True
  with run have "s' = s" by (cases "flag_set SDHD_BOOL_FATAL_ERROR s") (simp_all add: Hcd_Request_def)
  then show ?thesis by simp
next
  case False
  with run obtain st1 s1 where cfg: "ConfigureByteSwap M (DMADataWidth (spi_hcd s)) s = Some (st1, s1)"
    by (cases "ConfigureByteSwap M (DMADataWidth (spi_hcd s)) s") (auto simp: Hcd_Request_def)
  note 1 = ConfigureByteSwap_shadow [OF cfg reg step] irq_frame_byte_swap [OF cfg]
  define s2 where "s2 = (if ATH_IS_TRANS_READ req then s1
    else ADJUST_WRBUF_SPACE (ucast (t_transferLength (trans req))) s1)"
  have s2: "in_step r s2" "irq_frame s2 = irq_frame s"
    using 1 by (auto simp: s2_def ADJUST_WRBUF_SPACE_def irq_frame_set_hcd intro: in_step_set_hcd)
  have dma: "DoDMAOp M req s2 = Some (st, s')"
    using run False cfg 1 by (simp add: Hcd_Request_def s2_def split: if_splits)
  then have "irq_frame s' = irq_frame s2" using DoDMAOp_shadow [OF dma reg s2(1)] by (intro irq_frame_strip) simp
  with s2(2) show ?thesis by simp
qed

lemma irq_frame_look_ahead:
  "Hcd_GetLookAhead M s = Some (st, s') \<Longrightarrow> irq_frame s' = irq_frame s"
  unfolding Hcd_GetLookAhead_def
  by (auto simp: Let_def A_ASSERT_bind_Some irq_frame_set_hcd split: prod.splits if_splits dest!: irq_frame_read)

lemma irq_frame_reinit:
  "Hcd_ReinitTarget M s = (st, s') \<Longrightarrow> irq_frame s' = irq_frame s"
  unfolding Hcd_ReinitTarget_def
  by (auto simp: Let_def split: if_splits prod.splits dest!: irq_frame_writeD irq_frame_resetD)

lemma irq_frame_refresh: "irq_frame (Hcd_RefreshWriteBufferSpace M s) = irq_frame s"
  by (auto simp: Hcd_RefreshWriteBufferSpace_def irq_frame_set_hcd split_beta)

lemma irq_frame_water_mark:
  "Hcd_ProgramWriteBufferWaterMark M n s = Some (st, s') \<Longrightarrow> irq_frame s' = irq_frame s"
  unfolding Hcd_ProgramWriteBufferWaterMark_def
  by (auto simp: Let_def A_ASSERT_bind_Some irq_frame_set_hcd irq_frame_wait [simplified]
      split: prod.splits if_splits dest!: irq_frame_read irq_frame_writeD irq_frame_resetD)

lemma irq_frame_detect:
  "EnableDisableSPIIRQHwDetect M b s = Some s' \<Longrightarrow> irq_frame s' = irq_frame s"
proof -
  have e: "irq_frame (HW_EnableDisableSPIIRQ M b t) = irq_frame t" for b and t :: "'a drv"
    by (simp add: HW_EnableDisableSPIIRQ_def Custom_Hcd_EnableDisableSPIIRQ_def irq_frame_set_hcd)
  show "EnableDisableSPIIRQHwDetect M b s = Some s' \<Longrightarrow> irq_frame s' = irq_frame s"
    unfolding EnableDisableSPIIRQHwDetect_def
    by (auto simp: Let_def A_ASSERT_bind_Some e split: prod.splits if_splits dest!: irq_frame_writeD)
qed

lemma irq_frame_bus:
  assumes "Hcd_BusInterrupt M s = Some (b, s')"
  shows "irq_frame s' = irq_frame s"
  using assms unfolding Hcd_BusInterrupt_def
  by (auto simp: Let_def A_ASSERT_bind_Some bind_eq_Some_conv irq_frame_set_hcd
      split: prod.splits if_splits dest!: irq_frame_sources irq_frame_detect)

lemma handler_shadow:
  assumes reg: "ie_register M r" and step: "in_step r s"
  shows "in_step r (HW_InterruptHandler M s) \<and> irq_frame (HW_InterruptHandler M s) = irq_frame s"
proof -
  have "\<And>b e. r (gpio_irq M b e) = r e" using reg by (simp add: ie_register_def holds_register_def)
  with step show ?thesis
    by (simp add: HW_InterruptHandler_def HW_EnableDisableSPIIRQ_def Custom_Hcd_EnableDisableSPIIRQ_def
        in_step_def Driver_WakeDriver_def irq_frame_set_hcd set_hcd_def irq_frame_def flag_set_def)
qed

lemma spi_step_inv:
  assumes "spi_step M s s'" and reg: "ie_register M r" and inv: "spi_inv r s"
  shows "spi_inv r s'"
proof -
  have step: "in_step r s" using inv by (simp add: spi_inv_def)
  have "in_step r s' \<and> irq_frame s' = irq_frame s"
    using assms(1)
  proof (cases rule: spi_step.cases)
    case (request req st)
    then show ?thesis using Hcd_Request_shadow [OF request reg step] irq_frame_request [OF request reg step] by simp
  next
    case (external req st)
    then show ?thesis using external_shadow [OF external reg step] irq_frame_core [OF quiet_external [OF external reg]]
      by simp
  next
    case (mask_irqs m)
    then show ?thesis using mask_in_step [OF reg] by (auto simp: Hcd_MaskInterrupts_def)
  next
    case (unmask_irqs m st)
    then show ?thesis using unmask_in_step [OF reg, of m s] irq_frame_unmask [of M m s] by simp
  next
    case (look_ahead st)
    then show ?thesis using GetLookAhead_shadow [OF look_ahead reg step] irq_frame_look_ahead by blast
  next
    case (reinit st)
    then show ?thesis using Reinit_shadow [OF reinit reg] irq_frame_reinit by blast
  next
    case refresh
    then show ?thesis using Refresh_shadow [OF reg step] irq_frame_refresh [of M s] by simp
  next
    case (water_mark n st)
    then show ?thesis using WaterMark_shadow [OF water_mark reg step] irq_frame_water_mark by blast
  next
    case (bus_interrupt b)
    have "in_step r s'" using BusInterrupt_shadow [OF bus_interrupt reg step] inv by (simp add: spi_inv_def)
    with irq_frame_bus [OF bus_interrupt] show ?thesis by simp
  next
    case irq
    then show ?thesis using handler_shadow [OF reg step] by simp
  qed
  then show ?thesis using inv by (blast intro: spi_inv_frame)
qed

text \<open>C16. The interrupt bookkeeping never loses the chip. On a chip that keeps its interrupt enable
  register, along any sequence of the driver's operations (bus requests, external accesses,
  masking and unmasking, look-ahead reads, re-initialisation, water mark programming, bus
  interrupts, the interrupt handler) the register always equals the driver's shadow of it and no
  transfer is left in progress, so that masking one source and giving it back restores exactly
  the sources that were enabled.\<close>

theorem enable_register_in_step:
  assumes "(spi_step M)\<^sup>*\<^sup>* s s'" and "ie_register M r" and "spi_inv r s"
  shows "r (hw_env s') = SpiIntEnableShadow (spi_hcd s') \<and> \<not> flag_set SDHD_BOOL_DMA_IN_PROG s'"
proof -
  from assms have "spi_inv r s'" by (induction rule: rtranclp_induct) (auto intro: spi_step_inv)
  then show ?thesis by (simp add: spi_inv_def in_step_def)
qed

text \<open>A chip with one register, the interrupt enable register, behind the write token.\<close>

definition enable_chip :: "u16 mqx" where
  "enable_chip = \<lparr>mem_alloc_system_zero = (\<lambda>_ m e. (NULL, m, e)), mem_free = (\<lambda>_ e. e),
     get_size = (\<lambda>_ _. 0), time_delay = (\<lambda>_ e. e), spi_set_mode = (\<lambda>e. (True, e)),
     spi_read_write = (\<lambda>out inp e. (True, [0, 0, byte_of 1 e, byte_of 0 e],
       if length out = 4 \<and> take 2 out = take 2 (write_token ATH_SPI_INTR_ENABLE_REG 0)
       then le16 (out ! 3) (out ! 2) else e)),
     spi_fread = (\<lambda>n e. (replicate n 0, e)), spi_fwrite = (\<lambda>bs e. (length bs, e)),
     spi_fflush = (\<lambda>e. e), gpio_irq = (\<lambda>_ e. e), gpio_power = (\<lambda>_ e. (True, e)),
     uninit_u32 = (\<lambda>_. 0)\<rparr>"

lemma enable_chip_register: "ie_register enable_chip id"
  by (auto simp: ie_register_def holds_register_def enable_chip_def)

definition edge_drv :: "u16 \<Rightarrow> u16 drv" where
  "edge_drv v = set_hcd (\<lambda>h. h\<lparr>SpiHWCapabilitiesFlags := HW_SPI_INT_EDGE_DETECT, SpiIntEnableShadow := v\<rparr>)
                  (drv_zero v)"

lemma edge_drv_inv: "spi_inv id (edge_drv v)"
  by (simp add: spi_inv_def in_step_def edge_drv_def drv_zero_def spi_hcd_zero_def set_hcd_def flag_set_def)

theorem enable_register_in_step_witness:
  "\<exists>s'. (spi_step enable_chip)\<^sup>*\<^sup>* (edge_drv 0x1E) s' \<and> hw_env s' = SpiIntEnableShadow (spi_hcd s')
     \<and> \<not> flag_set SDHD_BOOL_DMA_IN_PROG s'"
proof -
  let ?s1 = "snd (Hcd_UnmaskInterrupts enable_chip 1 (edge_drv 0x1E))"
  let ?s2 = "HW_InterruptHandler enable_chip ?s1"
  have "spi_step enable_chip (edge_drv 0x1E) ?s1" by (rule unmask_irqs) (rule prod.collapse [symmetric])
  moreover have "spi_step enable_chip ?s1 ?s2" by (rule irq) (rule refl)
  ultimately have run: "(spi_step enable_chip)\<^sup>*\<^sup>* (edge_drv 0x1E) ?s2" by simp
  from enable_register_in_step [OF run enable_chip_register edge_drv_inv] run show ?thesis
    by (intro exI [of _ ?s2]) simp
qed

section \<open>Bus errors\<close>

lemma flag_set_fatal_and: "flag_set SDHD_BOOL_FATAL_ERROR s \<Longrightarrow> Hcd_Request M req s = Some (A_HARDWARE, s)"
  by (simp add: Hcd_Request_def)

lemma detect_ex:
  assumes reg: "ie_register M r" and edge: "SpiHWCapabilitiesFlags (spi_hcd s) AND HW_SPI_INT_EDGE_DETECT \<noteq> 0"
  obtains s' where "EnableDisableSPIIRQHwDetect M True s = Some s'"
proof -
  obtain st1 s1 where 1: "DoPioWriteInternal M ATH_SPI_INTR_ENABLE_REG 0 s = (st1, s1)" by fastforce
  obtain st2 s2 where 2: "DoPioWriteInternal M ATH_SPI_INTR_ENABLE_REG
      (ucast (SpiIntEnableShadow (spi_hcd (HW_EnableDisableSPIIRQ M True s1)))) (HW_EnableDisableSPIIRQ M True s1) = (st2, s2)"
    by fastforce
  have "EnableDisableSPIIRQHwDetect M True s = Some s2"
    using edge 1 2 enable_write [OF 1 reg] enable_write [OF 2 reg] by (simp add: EnableDisableSPIIRQHwDetect_def Let_def)
  with that show ?thesis .
qed

text \<open>C39. A bus error is final for requests but does not silence the chip. When the interrupt cause
  register shows an error source that is enabled, the bus interrupt marks the driver broken (every
  later request returns \<open>A_HARDWARE\<close> without touching the bus) and writes 0 to the interrupt
  enable register to mask all interrupts; on a platform that detects edges, such as the one of this
  repository, the same call then writes the old shadow back: the function returns with exactly the
  interrupts enabled that were enabled before.\<close>

theorem bus_error_keeps_interrupts:
  assumes reg: "ie_register M r" and inv: "spi_inv r s"
    and cause: "DoPioReadInternal M ATH_SPI_INTR_CAUSE_REG s = (A_OK, v, s1)"
    and err: "v AND ucast (SpiIntEnableShadow (spi_hcd s)) AND ATH_SPI_HCD_ERROR_IRQS \<noteq> 0"
  shows "\<exists>s'. Hcd_BusInterrupt M s = Some (True, s') \<and> r (hw_env s') = r (hw_env s)
    \<and> SpiIntEnableShadow (spi_hcd s') = SpiIntEnableShadow (spi_hcd s)
    \<and> (\<forall>req. Hcd_Request M req s' = Some (A_HARDWARE, s'))"
proof -
  have same: "spi_hcd s1 = spi_hcd s" using strip_fields(1) [OF DoPioReadInternal_strip [OF cause]] .
  define irqs where "irqs = v AND ucast (SpiIntEnableShadow (spi_hcd s1))"
  define host where "host = irqs AND (ATH_SPI_HCD_IRQ_SOURCES OR ATH_SPI_INTR_HOST_CTRL_ACCESS_DONE)"
  define s2 where "s2 = (if host \<noteq> 0 then snd (DoPioWriteInternal M ATH_SPI_INTR_CAUSE_REG host s1) else s1)"
  have ack: "(if host \<noteq> 0 then DoPioWriteInternal M ATH_SPI_INTR_CAUSE_REG host s1 else (A_OK, s1)) = (A_OK, s2)"
    using quiet_write [OF prod.collapse [symmetric] reg, of ATH_SPI_INTR_CAUSE_REG host s1]
    by (auto simp: s2_def prod_eq_iff)
  have h2: "spi_hcd s2 = spi_hcd s"
    using same strip_fields(1) [OF DoPioWriteInternal_strip [OF prod.collapse [symmetric]],
      of M ATH_SPI_INTR_CAUSE_REG host s1] by (simp add: s2_def)
  let ?e = "bus_interrupt_error M irqs s2"
  have bad: "irqs AND ATH_SPI_HCD_ERROR_IRQS \<noteq> 0" using err same by (simp add: irqs_def and.assoc)
  have src: "bus_interrupt_sources M s = (A_OK, False, ?e)"
    using bad unfolding bus_interrupt_sources_def Let_def cause prod.case
      irqs_def [symmetric] host_def [symmetric] ack by simp
  have caps: "SpiHWCapabilitiesFlags (spi_hcd ?e) AND HW_SPI_INT_EDGE_DETECT \<noteq> 0"
    and dma: "\<not> flag_set SDHD_BOOL_DMA_IN_PROG s" "\<not> flag_set SDHD_BOOL_DMA_IN_PROG ?e"
    using inv irq_frame_sources [OF src] by (simp_all add: spi_inv_def irq_frame_def)
  obtain s' where det: "EnableDisableSPIIRQHwDetect M True ?e = Some s'" by (rule detect_ex [OF reg caps])
  have run: "Hcd_BusInterrupt M s = Some (True, s')"
    by (simp add: Hcd_BusInterrupt_def dma src det)
  note fin = EnableDisableSPIIRQHwDetect_shadow [OF det reg caps] bus_interrupt_error_fields [of M irqs s2]
  have "flag_set SDHD_BOOL_FATAL_ERROR s'"
    using fin fatal_flag_sticky [of "booleans s2" s'] by (simp add: flag_set_def)
  with run fin h2 inv flag_set_fatal_and [of s' M] show ?thesis
    by (intro exI [of _ s']) (simp add: spi_inv_def in_step_def)
qed


text \<open>A chip whose interrupt cause register always shows a read error, for the witness.\<close>

definition error_chip :: "u16 mqx" where
  "error_chip = enable_chip\<lparr>spi_read_write := (\<lambda>out inp e. (True, [0, 0, 0, 0x08],
       if length out = 4 \<and> take 2 out = take 2 (write_token ATH_SPI_INTR_ENABLE_REG 0)
       then le16 (out ! 3) (out ! 2) else e))\<rparr>"

lemma error_chip_register: "ie_register error_chip id"
  by (auto simp: ie_register_def holds_register_def error_chip_def enable_chip_def)

lemma error_chip_cause: "\<exists>s1. DoPioReadInternal error_chip ATH_SPI_INTR_CAUSE_REG s = (A_OK, 8, s1)"
  by (simp add: DoPioReadInternal_def Custom_Bus_InOutToken_def Custom_Bus_StartTransfer_def
      Custom_Bus_CompleteTransfer_def error_chip_def enable_chip_def overwrite_bytes_4 drop_bit_le32)
     (simp add: le16_def Let_def)

theorem bus_error_keeps_interrupts_witness:
  "\<exists>s'. Hcd_BusInterrupt error_chip (edge_drv 0x1F) = Some (True, s') \<and> hw_env s' = 0x1F
    \<and> Hcd_Request error_chip netbuf_zero s' = Some (A_HARDWARE, s')"
proof -
  obtain s1 where cause: "DoPioReadInternal error_chip ATH_SPI_INTR_CAUSE_REG (edge_drv 0x1F) = (A_OK, 8, s1)"
    using error_chip_cause by blast
  have err: "8 AND ucast (SpiIntEnableShadow (spi_hcd (edge_drv 0x1F))) AND ATH_SPI_HCD_ERROR_IRQS \<noteq> (0 :: u32)"
    by (simp add: edge_drv_def)
  have "hw_env (edge_drv 0x1F) = 0x1F" by (simp add: edge_drv_def drv_zero_def set_hcd_def)
  then show ?thesis
    using bus_error_keeps_interrupts [OF error_chip_register edge_drv_inv cause err] by auto
qed

end
