(* ===== verification/Spi_Transfer.thy ===== *)
theory Spi_Transfer
  imports Spi_Steps
begin

text \<open>
  What goes over the bus in one transfer: the fragments of the packet in order, then padding up to
  the request's transfer length; and what becomes of a transfer that fails half-way.
\<close>

section \<open>A bus that sends what it is given\<close>

text \<open>\<open>d\<close> reads off the environment the data bytes the bus has sent.\<close>

definition sends :: "'e mqx \<Rightarrow> ('e \<Rightarrow> u8 list) \<Rightarrow> bool" where
  "sends M d \<longleftrightarrow>
     (\<forall>e. fst (spi_set_mode M e) \<and> d (snd (spi_set_mode M e)) = d e) \<and>
     (\<forall>bs e. fst (spi_fwrite M bs e) = length bs \<and> d (snd (spi_fwrite M bs e)) = d e @ bs) \<and>
     (\<forall>e. d (spi_fflush M e) = d e)"

text \<open>The bytes of fragment \<open>i\<close> of a packet: its address and length as the code looks them up.\<close>

definition frag_addr :: "'e drv \<Rightarrow> netbuf \<Rightarrow> nat \<Rightarrow> ptr" where
  "frag_addr s req i = fst (a_netbuf_get_fragment (natives s) req (of_nat i))"

definition frag_len :: "'e drv \<Rightarrow> netbuf \<Rightarrow> nat \<Rightarrow> u32" where
  "frag_len s req i = the (snd (a_netbuf_get_fragment (natives s) req (of_nat i)))"

definition frag_bytes :: "'e drv \<Rightarrow> netbuf \<Rightarrow> nat \<Rightarrow> u8 list" where
  "frag_bytes s req i = mem_bytes (mem s) (frag_addr s req i) (unat (frag_len s req i))"

definition sent_bytes :: "'e drv \<Rightarrow> netbuf \<Rightarrow> u8 list" where
  "sent_bytes s req = concat (map (frag_bytes s req) [0..<Suc (unat (num_frags req))])"

text \<open>Every fragment has an address and fits the 16-bit length of the bus call.\<close>

definition good_frags :: "'e drv \<Rightarrow> netbuf \<Rightarrow> bool" where
  "good_frags s req \<longleftrightarrow> num_frags req < 255 \<and>
     (\<forall>i\<le>unat (num_frags req). frag_addr s req i \<noteq> NULL \<and> unat (frag_len s req i) < 2 ^ 16)"

lemma write_buffer:
  assumes "sends M d"
  shows "\<exists>e. Custom_Bus_InOutBuffer M p n False s = (A_OK, s\<lparr>hw_env := e\<rparr>) \<and>
    d e = d (hw_env s) @ mem_bytes (mem s) p (unat n)"
  using assms by (auto simp: sends_def Custom_Bus_InOutBuffer_def split_beta)

lemma get_fragment_in:
  assumes "num_frags req < 255" "i \<le> unat (num_frags req)"
  shows "a_netbuf_get_fragment (natives s) req (of_nat i) = (frag_addr s req i, Some (frag_len s req i))"
proof -
  have "unat (of_nat i :: u8) = i"
    using assms by (simp add: unat_of_nat word_less_nat_alt)
  then have "(of_nat i :: u8) \<le> num_frags req" using assms(2) by (simp add: word_le_nat_alt)
  then show ?thesis
    by (auto simp: frag_addr_def frag_len_def a_netbuf_get_fragment_def Let_def)
qed

lemma get_fragment_out:
  assumes "num_frags req < 255"
  shows "a_netbuf_get_fragment tbl req (num_frags req + 1) = (NULL, None)"
proof -
  have lt: "unat (num_frags req) < 255" using assms by (simp add: word_less_nat_alt)
  then have "unat (num_frags req + 1) = Suc (unat (num_frags req))" by (simp add: unat_word_ariths)
  then have "num_frags req + 1 \<noteq> 0" "\<not> num_frags req + 1 \<le> num_frags req"
    by (auto simp: word_le_nat_alt unat_eq_zero [symmetric] simp del: unat_eq_zero)
  then show ?thesis by (simp add: a_netbuf_get_fragment_def)
qed

lemma frag_fields [simp]:
  "frag_addr (s\<lparr>hw_env := e\<rparr>) req i = frag_addr s req i" "frag_len (s\<lparr>hw_env := e\<rparr>) req i = frag_len s req i"
  "frag_bytes (s\<lparr>hw_env := e\<rparr>) req = frag_bytes s req"
  by (simp_all add: frag_addr_def frag_len_def frag_bytes_def [abs_def])

lemma ucast_index: "i < 256 \<Longrightarrow> ucast (of_nat i :: u16) = (of_nat i :: u8)"
  by (rule word_unat_eq_iff [THEN iffD2]) (simp add: unsigned_ucast_eq take_bit_eq_mod unat_of_nat)

text \<open>One round of the loop, for a fragment that exists.\<close>

lemma bus_fragments_round:
  assumes out: "sends M d" and good: "good_frags s req" and i: "i \<le> unat (num_frags req)"
  shows "\<exists>e'. bus_fragments M req False (of_nat i) acc A_OK s =
      bus_fragments M req False (of_nat (Suc i)) (acc + of_nat (length (frag_bytes s req i))) A_OK (s\<lparr>hw_env := e'\<rparr>)
    \<and> d e' = d (hw_env s) @ frag_bytes s req i"
proof -
  let ?p = "frag_addr s req i" and ?l = "frag_len s req i"
  have few: "num_frags req < 255" and p: "?p \<noteq> NULL" and l: "unat ?l < 2 ^ 16"
    using good i by (auto simp: good_frags_def)
  have small: "i < 256" using i few by (simp add: word_less_nat_alt)
  have get: "a_netbuf_get_fragment (natives s) req (ucast (of_nat i :: u16)) = (?p, Some ?l)"
    using get_fragment_in [OF few i] ucast_index [OF small] by simp
  have len: "unat (ucast ?l :: u16) = unat ?l" using l by (simp add: unsigned_ucast_eq take_bit_eq_mod)
  then have tot: "(of_nat (unat ?l) :: u16) = ucast ?l" by simp
  obtain e where buf: "Custom_Bus_InOutBuffer M ?p (ucast ?l) False s = (A_OK, s\<lparr>hw_env := e\<rparr>)"
    and sent: "d e = d (hw_env s) @ mem_bytes (mem s) ?p (unat (ucast ?l :: u16))"
    using write_buffer [OF out] by blast
  have suc: "of_nat (Suc i) = (of_nat i :: u16) + 1" by simp
  show ?thesis
  proof (cases "?l = 0")
    case True
    then have "bus_fragments M req False (of_nat i) acc A_OK s = bus_fragments M req False (of_nat (Suc i)) acc A_OK s"
      unfolding suc by (subst bus_fragments.simps) (simp add: get p)
    moreover have "frag_bytes s req i = []" using True by (simp add: frag_bytes_def mem_bytes_def)
    ultimately show ?thesis by (intro exI [of _ "hw_env s"]) simp
  next
    case False
    have "bus_fragments M req False (of_nat i) acc A_OK s =
        bus_fragments M req False (of_nat (Suc i)) (acc + ucast ?l) A_OK (s\<lparr>hw_env := e\<rparr>)"
      unfolding suc by (subst bus_fragments.simps) (simp add: get p False buf)
    then show ?thesis using sent len tot by (intro exI [of _ e]) (simp add: frag_bytes_def)
  qed
qed

lemma bus_fragments_end:
  assumes "good_frags s req"
  shows "bus_fragments M req rd (of_nat (Suc (unat (num_frags req)))) acc st s = Some (st, acc, s)"
proof -
  have few: "num_frags req < 255" using assms by (simp add: good_frags_def)
  then have lt: "Suc (unat (num_frags req)) < 256" by (simp add: word_less_nat_alt)
  have "a_netbuf_get_fragment (natives s) req (ucast (of_nat (Suc (unat (num_frags req))) :: u16)) = (NULL, None)"
    using get_fragment_out [OF few] unfolding ucast_index [OF lt] by (simp add: add.commute)
  then show ?thesis by (subst bus_fragments.simps) simp
qed

lemma bus_fragments_write:
  assumes out: "sends M d" and good: "good_frags s req" and i: "i \<le> Suc (unat (num_frags req))"
  shows "\<exists>e'. bus_fragments M req False (of_nat i) acc A_OK s =
      Some (A_OK, acc + of_nat (length (concat (map (frag_bytes s req) [i..<Suc (unat (num_frags req))]))), s\<lparr>hw_env := e'\<rparr>)
    \<and> d e' = d (hw_env s) @ concat (map (frag_bytes s req) [i..<Suc (unat (num_frags req))])"
  using i good
proof (induction "Suc (unat (num_frags req)) - i" arbitrary: i acc s)
  case 0
  then have "i = Suc (unat (num_frags req))" by simp
  then show ?case using bus_fragments_end [OF 0(3)] by (intro exI [of _ "hw_env s"]) simp
next
  case (Suc k)
  then have i: "i \<le> unat (num_frags req)" by simp
  obtain e1 where rd: "bus_fragments M req False (of_nat i) acc A_OK s =
      bus_fragments M req False (of_nat (Suc i)) (acc + of_nat (length (frag_bytes s req i))) A_OK (s\<lparr>hw_env := e1\<rparr>)"
    and d1: "d e1 = d (hw_env s) @ frag_bytes s req i"
    using bus_fragments_round [OF out Suc.prems(2) i] by blast
  have good1: "good_frags (s\<lparr>hw_env := e1\<rparr>) req" using Suc.prems(2) by (simp add: good_frags_def)
  have k: "k = Suc (unat (num_frags req)) - Suc i" and le: "Suc i \<le> Suc (unat (num_frags req))"
    using Suc.hyps(2) i by simp_all
  obtain e2 where "bus_fragments M req False (of_nat (Suc i)) (acc + of_nat (length (frag_bytes s req i))) A_OK
      (s\<lparr>hw_env := e1\<rparr>) = Some (A_OK, acc + of_nat (length (frag_bytes s req i)) +
        of_nat (length (concat (map (frag_bytes s req) [Suc i..<Suc (unat (num_frags req))]))), s\<lparr>hw_env := e2\<rparr>)"
    "d e2 = d e1 @ concat (map (frag_bytes s req) [Suc i..<Suc (unat (num_frags req))])"
    using Suc.hyps(1) [OF k le good1, of "acc + of_nat (length (frag_bytes s req i))"]
    by (auto simp del: upt_Suc of_nat_Suc)
  then show ?case
    using rd d1 i by (intro exI [of _ e2]) (simp add: upt_conv_Cons add.assoc del: upt_Suc)
qed

section \<open>Properties\<close>

lemma sent_bytes_env [simp]: "sent_bytes (s\<lparr>hw_env := e\<rparr>) req = sent_bytes s req"
  by (simp add: sent_bytes_def)

text \<open>C17. A write transfer puts the packet on the wire. On a bus that sends what it is given, the
  transfer of a write request returns \<open>A_OK\<close> and sends the fragments of the packet in order,
  without a gap, followed by as many bytes of the pad buffer as the request's transfer length
  exceeds the packet; nothing but the bus changes.\<close>

theorem write_sends_packet:
  assumes out: "sends M d" and good: "good_frags s req" and wr: "\<not> ATH_IS_TRANS_READ req"
    and fits: "length (sent_bytes s req) < 2 ^ 16"
    and pad: "unat (t_transferLength (trans req)) - length (sent_bytes s req) \<le> unat (blockSize s)"
  shows "\<exists>e. Hcd_TransferData M req s = Some (A_OK, s\<lparr>hw_env := e\<rparr>) \<and>
    d e = d (hw_env s) @ sent_bytes s req @
      mem_bytes (mem s) (padBuffer s) (unat (t_transferLength (trans req)) - length (sent_bytes s req))"
proof -
  let ?n = "length (sent_bytes s req)" and ?L = "t_transferLength (trans req)"
  define e0 where "e0 = snd (spi_set_mode M (hw_env s))"
  have start: "Custom_Bus_StartTransfer M s = (A_OK, s\<lparr>hw_env := e0\<rparr>)" and d0: "d e0 = d (hw_env s)"
    and flush: "\<And>e. d (spi_fflush M e) = d e"
    using out by (auto simp: Custom_Bus_StartTransfer_def e0_def sends_def split_beta)
  have good0: "good_frags (s\<lparr>hw_env := e0\<rparr>) req" using good by (simp add: good_frags_def)
  obtain e1 where frags: "bus_fragments M req False 0 0 A_OK (s\<lparr>hw_env := e0\<rparr>) = Some (A_OK, of_nat ?n, s\<lparr>hw_env := e1\<rparr>)"
    and d1: "d e1 = d e0 @ sent_bytes s req"
    using bus_fragments_write [OF out good0, of 0 0] by (auto simp: sent_bytes_def simp del: upt_Suc)
  have n: "unat (of_nat ?n :: u16) = ?n" using fits by (simp add: unat_of_nat)
  have whole: "Hcd_TransferData M req s =
      bus_pad M req False (of_nat ?n) A_OK (s\<lparr>hw_env := e1\<rparr>) \<bind>
        (\<lambda>(status, s). Some (if status = A_OK then Custom_Bus_CompleteTransfer M s else (status, s)))"
    using wr frags by (simp add: Hcd_TransferData_def Bus_InOutDescriptorSet_def start)
  show ?thesis
  proof (cases "?n < unat ?L")
    case False
    then have "\<not> (of_nat ?n :: u16) < ?L" using n by (simp add: word_less_nat_alt)
    with whole False d0 d1 flush show ?thesis
      by (intro exI [of _ "spi_fflush M e1"]) (simp add: bus_pad_def Custom_Bus_CompleteTransfer_def mem_bytes_def)
  next
    case True
    then have lt: "(of_nat ?n :: u16) < ?L" using n by (simp add: word_less_nat_alt)
    then have len: "unat (?L - of_nat ?n) = unat ?L - ?n" using n by (simp add: unat_sub less_imp_le)
    then have "(ucast (?L - of_nat ?n) :: u32) \<le> blockSize s"
      using pad order_trans [OF take_bit_nat_less_eq_self]
      by (simp add: word_le_nat_alt unsigned_ucast_eq)
    moreover obtain e2 where "Custom_Bus_InOutBuffer M (padBuffer s) (?L - of_nat ?n) False (s\<lparr>hw_env := e1\<rparr>)
        = (A_OK, s\<lparr>hw_env := e2\<rparr>)" and "d e2 = d e1 @ mem_bytes (mem s) (padBuffer s) (unat ?L - ?n)"
      using write_buffer [OF out, of "padBuffer s" "?L - of_nat ?n" "s\<lparr>hw_env := e1\<rparr>"] len by auto
    ultimately show ?thesis
      using whole lt d0 d1 flush
      by (intro exI [of _ "spi_fflush M e2"]) (simp add: bus_pad_def Custom_Bus_CompleteTransfer_def)
  qed
qed

text \<open>Padding hides a failed transfer. When the write of the first fragment fails (the bus
  takes fewer bytes than it was given) the loop over the fragments stops, but the pad transfer
  still runs, for the whole transfer length, and its status replaces the error: the transfer
  reports success although the packet was not sent.\<close>

theorem pad_hides_failure:
  fixes M :: "'e mqx" and s :: "'e drv" and req :: netbuf
  defines "bs \<equiv> mem_bytes (mem s) (frag_addr s req 0) (unat (ucast (frag_len s req 0) :: u16))"
    and "e0 \<equiv> snd (spi_set_mode M (hw_env s))"
  assumes mode: "fst (spi_set_mode M (hw_env s))" and wr: "\<not> ATH_IS_TRANS_READ req"
    and frag: "frag_addr s req 0 \<noteq> NULL" "frag_len s req 0 \<noteq> 0"
    and fail: "fst (spi_fwrite M bs e0) \<noteq> length bs"
    and len: "0 < t_transferLength (trans req)" "ucast (t_transferLength (trans req)) \<le> blockSize s"
    and pad: "fst (spi_fwrite M (mem_bytes (mem s) (padBuffer s) (unat (t_transferLength (trans req))))
        (snd (spi_fwrite M bs e0))) = unat (t_transferLength (trans req))"
  shows "\<exists>s'. Hcd_TransferData M req s = Some (A_OK, s')"
proof -
  have start: "Custom_Bus_StartTransfer M s = (A_OK, s\<lparr>hw_env := e0\<rparr>)"
    using mode by (auto simp: Custom_Bus_StartTransfer_def e0_def split_beta)
  have get: "a_netbuf_get_fragment (natives s) req 0 = (frag_addr s req 0, Some (frag_len s req 0))"
    by (simp add: frag_addr_def frag_len_def a_netbuf_get_fragment_def)
  define e1 where "e1 = snd (spi_fwrite M bs e0)"
  have "Custom_Bus_InOutBuffer M (frag_addr s req 0) (ucast (frag_len s req 0)) False (s\<lparr>hw_env := e0\<rparr>)
      = (A_HARDWARE, s\<lparr>hw_env := e1\<rparr>)"
    using fail by (auto simp: Custom_Bus_InOutBuffer_def split_beta e1_def bs_def)
  then have "bus_fragments M req False 0 0 A_OK (s\<lparr>hw_env := e0\<rparr>) = Some (A_HARDWARE, 0, s\<lparr>hw_env := e1\<rparr>)"
    using frag by (subst bus_fragments.simps) (simp add: get)
  moreover obtain e2 where "Custom_Bus_InOutBuffer M (padBuffer s) (t_transferLength (trans req)) False (s\<lparr>hw_env := e1\<rparr>)
      = (A_OK, s\<lparr>hw_env := e2\<rparr>)"
    using pad by (auto simp: Custom_Bus_InOutBuffer_def split_beta e1_def)
  ultimately show ?thesis
    using wr len by (simp add: Hcd_TransferData_def Bus_InOutDescriptorSet_def start bus_pad_def
        Custom_Bus_CompleteTransfer_def)
qed


text \<open>A bus that logs what it sends, and one whose first write fails.\<close>

definition log_bus :: "u8 list mqx" where
  "log_bus = \<lparr>mem_alloc_system_zero = (\<lambda>_ m e. (NULL, m, e)), mem_free = (\<lambda>_ e. e),
     get_size = (\<lambda>_ _. 0), time_delay = (\<lambda>_ e. e), spi_set_mode = (\<lambda>e. (True, e)),
     spi_read_write = (\<lambda>out inp e. (True, inp, e)), spi_fread = (\<lambda>n e. (replicate n 0, e)),
     spi_fwrite = (\<lambda>bs e. (length bs, e @ bs)), spi_fflush = (\<lambda>e. e), gpio_irq = (\<lambda>_ e. e),
     gpio_power = (\<lambda>_ e. (True, e)), uninit_u32 = (\<lambda>_. 0)\<rparr>"

definition fail_bus :: "u8 list mqx" where
  "fail_bus = log_bus\<lparr>spi_fwrite := (\<lambda>bs e. (if e = [] then 0 else length bs, e @ [0]))\<rparr>"

definition demo_req :: netbuf where
  "demo_req = (a_netbuf_configure 0x1000 64 3 256)
     \<lparr>trans := trans_zero\<lparr>t_cmd := ATH_TRANS_DMA, t_transferLength := 5\<rparr>\<rparr>"

definition demo_drv :: "u8 list drv" where
  "demo_drv = (drv_zero [])\<lparr>mem := (\<lambda>a. ucast a + 1), blockSize := 32, padBuffer := 0x20\<rparr>"

lemmas demo_defs = demo_req_def demo_drv_def drv_zero_def a_netbuf_configure_def trans_zero_def netbuf_zero_def

lemma demo_frag: "frag_addr demo_drv demo_req 0 = 0x1040" "frag_len demo_drv demo_req 0 = 3"
  "num_frags demo_req = 0"
  by (simp_all add: frag_addr_def frag_len_def a_netbuf_get_fragment_def a_netbuf_to_data_def demo_defs)

lemma demo_sent: "sent_bytes demo_drv demo_req = [65, 66, 67]"
  by (simp add: sent_bytes_def frag_bytes_def demo_frag)
     (simp add: demo_drv_def mem_bytes_def upt_rec)

theorem write_sends_packet_witness:
  "\<exists>e. Hcd_TransferData log_bus demo_req demo_drv = Some (A_OK, demo_drv\<lparr>hw_env := e\<rparr>)
    \<and> e = [65, 66, 67, 0x21, 0x22]"
proof -
  have out: "sends log_bus id" by (simp add: sends_def log_bus_def)
  have good: "good_frags demo_drv demo_req" by (simp add: good_frags_def demo_frag)
  have wr: "\<not> ATH_IS_TRANS_READ demo_req" by (simp add: ATH_IS_TRANS_READ_def demo_defs)
  have L: "t_transferLength (trans demo_req) = 5" "blockSize demo_drv = 32" "hw_env demo_drv = []"
    by (simp_all add: demo_defs)
  have pad: "mem_bytes (mem demo_drv) (padBuffer demo_drv) 2 = [0x21, 0x22]"
    by (simp add: demo_drv_def mem_bytes_def upt_rec)
  show ?thesis
    using write_sends_packet [OF out good wr] by (simp add: demo_sent L pad)
qed

theorem pad_hides_failure_witness:
  "\<exists>s'. Hcd_TransferData fail_bus demo_req demo_drv = Some (A_OK, s')"
proof (rule pad_hides_failure)
  show "\<not> ATH_IS_TRANS_READ demo_req" by (simp add: ATH_IS_TRANS_READ_def demo_defs)
qed (simp_all add: demo_frag, simp_all add: demo_defs fail_bus_def log_bus_def)

end
