(* ===== verification/Packet_Free.thy ===== *)
theory Packet_Free
  imports Spi_Hcd
begin

text \<open>
  Releasing a packet: \<open>a_netbuf_free\<close> of \<^verbatim>\<open>custom_src/driver/cust_driver_netbuf.c\<close> returns the
  object to the pool it came from, hands a transmitted packet back to the socket layer
  (\<open>txpkt_free\<close> of \<^verbatim>\<open>custom_src/stack_custom/cust_api_stack_offload.c\<close>, blocking transmit), or frees
  its memory.

  The record \<open>upper\<close> collects the calls that leave the modelled part upwards: the socket layer
  that is woken up, the WMI layer, the network stack. They are parameters; no law of them is
  assumed unless a lemma says so.
\<close>

record 'e upper =
  up_unblock :: "ptr \<Rightarrow> 'e drv \<Rightarrow> 'e drv"
  up_wmi_control_rx :: "ptr \<Rightarrow> 'e drv \<Rightarrow> 'e drv option"
  up_deliver_frame :: "ptr \<Rightarrow> 'e drv \<Rightarrow> 'e drv option"
  up_async :: "nat \<Rightarrow> 'e drv \<Rightarrow> 'e drv option"
  up_wait_event :: "u32 \<Rightarrow> 'e drv \<Rightarrow> bool \<times> 'e drv"
  up_wait_driver_event :: "u32 \<Rightarrow> 'e drv \<Rightarrow> bool \<times> 'e drv"
  up_alarm_frequency :: u32
  up_network_past :: "u16 \<Rightarrow> 'e drv \<Rightarrow> u8"

text \<open>
  \<open>up_wait_event n s\<close> is \<open>qosal_wait_for_event\<close> on the user event for \<open>n\<close> ticks: whether it
  returned \<open>A_OK\<close>, and the state after whatever the other tasks did meanwhile;
  \<open>up_wait_driver_event\<close> is the same for the driver task and its event.
  \<open>up_alarm_frequency\<close> is the board's \<open>BSP_ALARM_FREQUENCY\<close>. \<open>up_network_past i\<close> is the byte read
  as \<open>conn[i].networkType\<close> for an index past the single element of the array.
\<close>

text \<open>An operation on the object behind a pointer.\<close>

definition on_nb :: "ptr \<Rightarrow> (netbuf \<Rightarrow> netbuf option) \<Rightarrow> 'e drv \<Rightarrow> 'e drv option" where
  "on_nb p f s = do {nb \<leftarrow> f (nbs s p); Some (s\<lparr>nbs := (nbs s)(p := nb)\<rparr>)}"

definition TCP6_HEADROOM :: u32 where "TCP6_HEADROOM = 88"

definition txpkt_free :: "'e upper \<Rightarrow> ptr \<Rightarrow> 'e drv \<Rightarrow> 'e drv" where
  "txpkt_free U p s = (
     let db_context = db_context (natives s (native_orig (nbs s p)));
         s = set_nb p (\<lambda>nb. a_netbuf_reinit nb TCP6_HEADROOM) s
     in up_unblock U db_context s)"

definition a_netbuf_free_rx_pool :: "ptr \<Rightarrow> 'e drv \<Rightarrow> 'e drv" where
  "a_netbuf_free_rx_pool p s = Driver_ReportRxBuffStatus True (rxfree_enqueue s p)"

definition a_netbuf_free_tx_pool :: "ptr \<Rightarrow> 'e drv \<Rightarrow> 'e drv" where
  "a_netbuf_free_tx_pool p s = s"

definition a_netbuf_free :: "'e mqx \<Rightarrow> 'e upper \<Rightarrow> ptr \<Rightarrow> 'e drv \<Rightarrow> 'e drv" where
  "a_netbuf_free M U p s = (
     let nb = nbs s p in
     if rxPoolID nb \<noteq> 0 then a_netbuf_free_rx_pool p s
     else if txPoolID nb \<noteq> 0 then a_netbuf_free_tx_pool p s
     else if native_orig nb \<noteq> NULL then txpkt_free U p s
     else a_free M p (if nb_head nb \<noteq> NULL then a_free M (nb_head nb) s else s))"

lemma on_nb_Some:
  "on_nb p f s = Some s' \<longleftrightarrow> (\<exists>nb. f (nbs s p) = Some nb \<and> s' = s\<lparr>nbs := (nbs s)(p := nb)\<rparr>)"
  by (auto simp: on_nb_def bind_eq_Some_conv)

lemma Driver_ReportRxBuffStatus_fields [simp]:
  "nbs (Driver_ReportRxBuffStatus b s) = nbs s" "rxFreeQueue (Driver_ReportRxBuffStatus b s) = rxFreeQueue s"
  "mem (Driver_ReportRxBuffStatus b s) = mem s" "rxBufferStatus (Driver_ReportRxBuffStatus b s) = b"
  "txQueue (Driver_ReportRxBuffStatus b s) = txQueue s"
  by (simp_all add: Driver_ReportRxBuffStatus_def Driver_WakeDriver_def Let_def)

text \<open>A receive buffer that is freed is back at the end of the free queue.\<close>

lemma free_rx_pool_rep:
  assumes "rxfree_rep s xs" "p \<noteq> NULL" "p \<notin> set xs" "length xs < queue_cap"
  shows "rxfree_rep (a_netbuf_free_rx_pool p s) (xs @ [p])"
  using rxfree.rep_enq [OF assms] by (simp add: a_netbuf_free_rx_pool_def rxfree_rep_def)

end
