(* ===== verification/Htc.thy ===== *)
theory Htc
  imports Packet_Free
begin

text \<open>
  The host-target communication layer, \<^verbatim>\<open>common_src/htc/htc.c\<close>: the six-byte frame header, the
  trailer records a received frame carries, the two ways transmit credits come back (reports in
  the trailer of a received frame, and a counter register of the chip), the credit distribution at
  start-up and the service connections. The custom hooks \<open>ath_custom_htc\<close> are all null
  (\<^verbatim>\<open>custom_src/driver/cust_driver_main.c\<close>), so only the default branches are there.
\<close>

abbreviation HTC_HDR_LENGTH :: u32 where "HTC_HDR_LENGTH \<equiv> 6"
abbreviation HTC_FLAGS_NEED_CREDIT_UPDATE :: u8 where "HTC_FLAGS_NEED_CREDIT_UPDATE \<equiv> 1"
abbreviation HTC_FLAGS_RECV_TRAILER :: u8 where "HTC_FLAGS_RECV_TRAILER \<equiv> 2"
abbreviation HTC_RECORD_CREDITS :: u8 where "HTC_RECORD_CREDITS \<equiv> 1"
abbreviation HTC_RECORD_LOOKAHEAD :: u8 where "HTC_RECORD_LOOKAHEAD \<equiv> 2"
abbreviation HTC_RECORD_LOOKAHEAD_BUNDLE :: u8 where "HTC_RECORD_LOOKAHEAD_BUNDLE \<equiv> 3"
abbreviation HTC_CTRL_RSVD_SVC :: u16 where "HTC_CTRL_RSVD_SVC \<equiv> 0x001"
abbreviation WMI_CONTROL_SVC :: u16 where "WMI_CONTROL_SVC \<equiv> 0x100"
abbreviation WMI_DATA_BE_SVC :: u16 where "WMI_DATA_BE_SVC \<equiv> 0x101"
abbreviation WMI_DATA_BK_SVC :: u16 where "WMI_DATA_BK_SVC \<equiv> 0x102"
abbreviation WMI_DATA_VI_SVC :: u16 where "WMI_DATA_VI_SVC \<equiv> 0x103"
abbreviation WMI_DATA_VO_SVC :: u16 where "WMI_DATA_VO_SVC \<equiv> 0x104"

section \<open>Receive preparation\<close>

text \<open>The payload length in a look-ahead (its bytes are the first four of the frame header).\<close>

definition lookahead_payload :: "u32 \<Rightarrow> u16" where
  "lookahead_payload la = le16 (byte_of 2 la) (byte_of 3 la)"

definition Htc_PrepareRecvPacket :: "ptr \<Rightarrow> 'e drv \<Rightarrow> 'e drv option" where
  "Htc_PrepareRecvPacket p s = (
     let la = lookAhead s;
         s = set_trans p (\<lambda>t. t\<lparr>t_credits := 0, t_epid := byte_of 0 la\<rparr>) s;
         validLength = lookahead_payload la + ucast HTC_HDR_LENGTH;
         transLength = (ucast (DEV_CALC_PADDED_LEN s (ucast validLength)) :: u16)
     in do {
       s \<leftarrow> on_nb p (\<lambda>nb. a_netbuf_put nb (ucast transLength)) s;
       Some (set_trans p (\<lambda>t. t\<lparr>t_transferLength := transLength, t_lookahead := la\<rparr>) s)})"

definition Htc_RxComplete :: "'e mqx \<Rightarrow> 'e upper \<Rightarrow> ptr \<Rightarrow> 'e drv \<Rightarrow> 'e drv option" where
  "Htc_RxComplete M U p s = do {
     A_ASSERT (\<not> nb_len p s > 0);
     Some (a_netbuf_free M U p s)}"

section \<open>Credits\<close>

text \<open>The word a register read left in the local \<open>collector\<close>.\<close>

definition local_word :: "'e drv \<Rightarrow> u32" where
  "local_word s = le32 (mem s (stk s)) (mem s (stk s + 1)) (mem s (stk s + 2)) (mem s (stk s + 3))"

definition Htc_ReadCreditCounter :: "'e mqx \<Rightarrow> u32 \<Rightarrow> 'e drv \<Rightarrow> (u32 \<times> 'e drv) option" where
  "Htc_ReadCreditCounter M index s = (
     let req = ATH_SET_PIO_EXTERNAL_OPERATION (local_req 4 s) ATH_TRANS_READ (COUNT_ADDRESS + 4 * index) True 4
     in do {
       (status, s) \<leftarrow> Hcd_DoPioExternalAccess M req s;
       A_ASSERT (status = A_OK);
       Some (local_word s, s)})"

text \<open>What a counter value \<open>credits\<close> does to the endpoint.\<close>

definition credit_counter_update :: "u8 \<Rightarrow> A_ENDPOINT_T \<Rightarrow> A_ENDPOINT_T" where
  "credit_counter_update c e = (
     let e = e\<lparr>intCreditCounter := c\<rparr>; d = intCreditCounter e - rptCreditCounter e in
     if ucast d < intCredits e then e
     else let d = (ucast (ucast d - intCredits e) :: u8)
          in e\<lparr>intCredits := intCredits e + ucast d, credits := credits e + d\<rparr>)"

definition Htc_GetCreditCounterUpdate :: "'e mqx \<Rightarrow> u16 \<Rightarrow> 'e drv \<Rightarrow> 'e drv option" where
  "Htc_GetCreditCounterUpdate M epId s = (
     let i = Util_GetEndpoint epId in
     if htc_creditInit s = 0 then Some (set_ep i (\<lambda>e. e\<lparr>intCreditCounter := 0\<rparr>) s)
     else
       let reg_index = drop_bit 2 (epIdx (ep s i)); array_index = unat (epIdx (ep s i) AND 3) in do {
         (collector, s) \<leftarrow> Htc_ReadCreditCounter M (ucast reg_index) s;
         Some (set_ep i (credit_counter_update (byte_of array_index collector)) s)})"

definition endpoint_credits :: "u8 \<Rightarrow> A_ENDPOINT_T \<Rightarrow> A_ENDPOINT_T" where
  "endpoint_credits c e = e\<lparr>maxCredits := c, credits := c, rptCreditCounter := 0, intCreditCounter := 0,
     intCredits := 0\<rparr>"

definition Htc_DistributeCredits :: "'e drv \<Rightarrow> 'e drv" where
  "Htc_DistributeCredits s = (
     let numCredits = (ucast (creditCount s) :: u32);
         s = set_ep 0 (endpoint_credits 1) s;
         numCredits = numCredits - 1;
         s = set_ep 1 (endpoint_credits 1) s;
         numCredits = numCredits - 1
     in set_ep 2 (endpoint_credits (ucast numCredits)) s)"

text \<open>One entry of a credit report.\<close>

definition credit_report_entry :: "u8 \<Rightarrow> A_ENDPOINT_T \<Rightarrow> A_ENDPOINT_T" where
  "credit_report_entry c e = (
     let e = e\<lparr>rptCreditCounter := rptCreditCounter e + c\<rparr>;
         (cr, ic) = (if intCredits e \<noteq> 0 then
                       if intCredits e \<le> ucast c then (ucast (ucast c - intCredits e), 0)
                       else (0, intCredits e - ucast c)
                     else (c, intCredits e))
     in e\<lparr>intCredits := ic, credits := credits e + cr\<rparr>)"

primrec Htc_ProcessCreditRpt :: "nat \<Rightarrow> ptr \<Rightarrow> 'e drv \<Rightarrow> 'e drv option" where
  "Htc_ProcessCreditRpt 0 pRpt s = Some s"
| "Htc_ProcessCreditRpt (Suc n) pRpt s = (
     let EndpointID = mem s pRpt; Credits = mem s (pRpt + 1) in do {
       A_ASSERT (ucast EndpointID < ENDPOINT_MAX);
       Htc_ProcessCreditRpt n (pRpt + 2)
         (set_ep (Util_GetEndpoint (ucast EndpointID)) (credit_report_entry Credits) s)})"

definition HTC_ProcessCpuInterrupt :: "'e mqx \<Rightarrow> 'e drv \<Rightarrow> 'e drv option" where
  "HTC_ProcessCpuInterrupt M s = do {
     s \<leftarrow> (if CpuInterruptCause (spi_hcd s) AND 1 \<noteq> 0 \<and> htc_creditInit s = 0 then
             let s = s\<lparr>htc_creditInit := 1\<rparr>;
                 req = ATH_SET_PIO_EXTERNAL_OPERATION (local_req 4 s) ATH_TRANS_READ (COUNT_ADDRESS + 4) True 4
             in do {
               (status, s) \<leftarrow> Hcd_DoPioExternalAccess M req s;
               A_ASSERT (status = A_OK);
               Some (Htc_DistributeCredits (s\<lparr>creditCount := ucast (mem s (stk s + 3))\<rparr>))}
           else Some s);
     Some (set_hcd (\<lambda>h. h\<lparr>CpuInterruptCause := 0\<rparr>) s)}"

section \<open>Trailers\<close>

text \<open>The caller's variables behind \<open>pNextLookAheads\<close> and \<open>pNumLookAheads\<close>; \<open>want\<close> says that the
  first is not null.\<close>

type_synonym lookaheads = "u32 \<times> u32"

definition trailer_record :: "bool \<Rightarrow> u8 \<Rightarrow> u8 \<Rightarrow> ptr \<Rightarrow> lookaheads \<Rightarrow> 'e drv \<Rightarrow> (lookaheads \<times> 'e drv) option" where
  "trailer_record want RecordID Len pRecordBuf la s =
     (if RecordID = HTC_RECORD_CREDITS then do {
        s \<leftarrow> Htc_ProcessCreditRpt (unat Len div 2) pRecordBuf s;
        Some (la, s)}
      else if RecordID = HTC_RECORD_LOOKAHEAD then do {
        A_ASSERT (Len \<ge> 6);
        Some (if mem s pRecordBuf = NOT (mem s (pRecordBuf + 5)) \<and> want then
                ((le32 (mem s (pRecordBuf + 1)) (mem s (pRecordBuf + 2)) (mem s (pRecordBuf + 3))
                   (mem s (pRecordBuf + 4)), 1), s)
              else (la, s))}
      else if RecordID = HTC_RECORD_LOOKAHEAD_BUNDLE then do {A_ASSERT False; Some (la, s)}
      else Some (la, s))"

fun trailer_records :: "bool \<Rightarrow> ptr \<Rightarrow> nat \<Rightarrow> lookaheads \<Rightarrow> 'e drv \<Rightarrow> (A_STATUS \<times> lookaheads \<times> 'e drv) option" where
  "trailer_records want pBuffer len la s =
     (if len = 0 then Some (A_OK, la, s)
      else if len < 2 then Some (A_EPROTO, la, s)
      else
        let RecordID = mem s pBuffer; Len = mem s (pBuffer + 1); len = len - 2; pBuffer = pBuffer + 2 in
        if unat Len > len then Some (A_EPROTO, la, s)
        else do {
          (la, s) \<leftarrow> trailer_record want RecordID Len pBuffer la s;
          trailer_records want (pBuffer + ucast Len) (len - unat Len) la s})"

declare trailer_records.simps [simp del]

definition Htc_ProcessTrailer :: "bool \<Rightarrow> ptr \<Rightarrow> nat \<Rightarrow> lookaheads \<Rightarrow> 'e drv \<Rightarrow> (A_STATUS \<times> lookaheads \<times> 'e drv) option" where
  "Htc_ProcessTrailer want pBuffer len la s = do {
     (status, la, s) \<leftarrow> trailer_records want pBuffer len la s;
     A_ASSERT (status = A_OK);
     Some (status, la, s)}"

section \<open>Frames\<close>

text \<open>What a frame takes from its endpoint.\<close>

definition credit_consume :: "u8 \<Rightarrow> A_ENDPOINT_T \<Rightarrow> A_ENDPOINT_T" where
  "credit_consume c e = e\<lparr>credits := credits e - c, seqNo := seqNo e + 1\<rparr>"

text \<open>The header bytes: \<open>EndpointID\<close>, \<open>Flags\<close>, \<open>PayloadLen\<close> (little-endian), \<open>ControlBytes\<close>.\<close>

definition htc_header :: "u8 \<Rightarrow> u8 \<Rightarrow> u16 \<Rightarrow> u8 \<Rightarrow> u8 \<Rightarrow> u8 list" where
  "htc_header EndpointID Flags PayloadLen c0 c1 =
     [EndpointID, Flags, byte_of 0 PayloadLen, byte_of 1 PayloadLen, c0, c1]"

definition Htc_SendPacket :: "ptr \<Rightarrow> 'e drv \<Rightarrow> (A_STATUS \<times> 'e drv) option" where
  "Htc_SendPacket p s = (
     let epid = t_epid (trans (nbs s p)); i = Util_GetEndpoint (ucast epid) in
     if htcStart s \<and> credits (ep s i) = 0 then Some (A_ERROR, s)
     else do {
       (SeqNo, htcFlags, s) \<leftarrow>
         (if htcStart s then
            let c = t_credits (trans (nbs s p)); SeqNo = seqNo (ep s i) in do {
              A_ASSERT (c \<noteq> 0);
              let s = set_ep i (credit_consume c) s;
              Some (SeqNo, if credits (ep s i) = 0 then HTC_FLAGS_NEED_CREDIT_UPDATE else 0, s)}
          else Some (0, 0, s));
       let pHdrBuf = a_netbuf_to_data (nbs s p);
       Some (A_OK, s\<lparr>mem := mem_put (mem s) pHdrBuf
               (htc_header epid htcFlags (ucast (nb_len p s) - ucast HTC_HDR_LENGTH) 0 SeqNo)\<rparr>)})"

definition Htc_ProcessTxComplete :: "ptr \<Rightarrow> 'e drv \<Rightarrow> 'e drv option" where
  "Htc_ProcessTxComplete p s = on_nb p (\<lambda>nb. a_netbuf_pull nb HTC_HDR_LENGTH) s"

text \<open>The two steps of \<open>Htc_ProcessRecvHeader\<close> before the header is pulled: padding, trailer.\<close>

definition recv_trim_padding :: "ptr \<Rightarrow> u16 \<Rightarrow> 'e drv \<Rightarrow> 'e drv option" where
  "recv_trim_padding p payloadLen s =
     (if ucast payloadLen + HTC_HDR_LENGTH < nb_len p s
      then on_nb p (\<lambda>nb. a_netbuf_trim nb (nb_len p s - (ucast payloadLen + HTC_HDR_LENGTH))) s
      else Some s)"

definition recv_trailer :: "ptr \<Rightarrow> bool \<Rightarrow> ptr \<Rightarrow> u16 \<Rightarrow> lookaheads \<Rightarrow> 'e drv \<Rightarrow> (A_STATUS \<times> lookaheads \<times> 'e drv) option" where
  "recv_trailer p want pBuf payloadLen la s =
     (if mem s (pBuf + 1) AND HTC_FLAGS_RECV_TRAILER \<noteq> 0 then
        let temp = mem s (pBuf + 4) in do {
          A_ASSERT (\<not> (temp < 2 \<or> ucast temp > payloadLen));
          (status, la, s) \<leftarrow> Htc_ProcessTrailer want (pBuf + HTC_HDR_LENGTH + ucast payloadLen - ucast temp)
                               (unat temp) la s;
          s \<leftarrow> on_nb p (\<lambda>nb. a_netbuf_trim nb (ucast temp)) s;
          Some (status, la, s)}
      else Some (A_OK, la, s))"

definition Htc_ProcessRecvHeader :: "ptr \<Rightarrow> bool \<Rightarrow> lookaheads \<Rightarrow> 'e drv \<Rightarrow> (A_STATUS \<times> lookaheads \<times> 'e drv) option" where
  "Htc_ProcessRecvHeader p want la s = (
     let la = (fst la, 0);
         bufLength = (ucast (nb_len p s) :: u16);
         pBuf = a_netbuf_to_data (nbs s p) in do {
       A_ASSERT (\<not> (pBuf = NULL \<or> bufLength < ucast HTC_HDR_LENGTH));
       let payloadLen = le16 (mem s (pBuf + 2)) (mem s (pBuf + 3));
       A_ASSERT (le32 (mem s pBuf) (mem s (pBuf + 1)) (mem s (pBuf + 2)) (mem s (pBuf + 3))
                   = t_lookahead (trans (nbs s p)));
       s \<leftarrow> recv_trim_padding p payloadLen s;
       (status, la, s) \<leftarrow> recv_trailer p want pBuf payloadLen la s;
       s \<leftarrow> on_nb p (\<lambda>nb. a_netbuf_pull nb HTC_HDR_LENGTH) s;
       Some (status, la, s)})"

section \<open>Services\<close>

record HTC_SERVICE_CONNECT_RESP =
  resp_Endpoint :: u16
  resp_MaxMsgLength :: u32

text \<open>The endpoint and the message size of a service; an unknown service keeps \<open>maxMsgSize\<close> 0.\<close>

definition htc_service :: "u16 \<Rightarrow> u16 \<times> u32" where
  "htc_service ServiceID =
     (if ServiceID = HTC_CTRL_RSVD_SVC then (0, 256)
      else if ServiceID = WMI_CONTROL_SVC then (1, 1542)
      else if ServiceID = WMI_DATA_BE_SVC then (2, 4144)
      else if ServiceID = WMI_DATA_BK_SVC then (3, 4144)
      else if ServiceID = WMI_DATA_VI_SVC then (4, 4144)
      else if ServiceID = WMI_DATA_VO_SVC then (5, 4144)
      else (ENDPOINT_MAX, 0))"

definition HTC_ConnectService :: "u16 \<Rightarrow> 'e drv \<Rightarrow> (A_STATUS \<times> HTC_SERVICE_CONNECT_RESP \<times> 'e drv) option" where
  "HTC_ConnectService ServiceID s = (
     let (assignedEndpoint, maxMsgSize) = htc_service ServiceID in do {
       A_ASSERT (maxMsgSize \<noteq> 0);
       Some (A_OK, \<lparr>resp_Endpoint = assignedEndpoint, resp_MaxMsgLength = maxMsgSize\<rparr>,
         set_ep (Util_GetEndpoint assignedEndpoint)
           (\<lambda>e. e\<lparr>serviceID := ServiceID, maxMsgLength := ucast maxMsgSize\<rparr>) s)})"

definition HTC_WaitTarget :: "'e drv \<Rightarrow> (A_STATUS \<times> 'e drv) option" where
  "HTC_WaitTarget s = (
     let s = s\<lparr>creditCount := 6, creditSize := 1664\<rparr> in do {
       (status, resp, s) \<leftarrow> HTC_ConnectService HTC_CTRL_RSVD_SVC s;
       Some (status, s)})"

definition HTC_Start :: "'e mqx \<Rightarrow> 'e drv \<Rightarrow> A_STATUS \<times> 'e drv" where
  "HTC_Start M s = (
     let s = Htc_DistributeCredits s;
         s = snd (Hcd_UnmaskInterrupts M ATH_SPI_INTR_PKT_AVAIL s)
     in (A_OK, s\<lparr>htcStart := True\<rparr>))"

end
