(* ===== verification/Htc_Credits.thy ===== *)
theory Htc_Credits
  imports Htc
begin

text \<open>
  The credit protocol of the HTC layer. The chip gives every endpoint a number of transmit
  credits; a frame takes one, and the chip returns it when it has consumed the frame. Returned
  credits reach the driver over two channels that overlap: reports in the trailers of received
  frames, and an 8-bit counter register of the chip. The lemmas show that the bookkeeping of
  \<open>A_ENDPOINT_T\<close> (\<open>intCredits\<close>, \<open>rptCreditCounter\<close>) counts every credit exactly once.
\<close>

section \<open>Credit reports in memory\<close>

primrec report_entries :: "memory \<Rightarrow> ptr \<Rightarrow> nat \<Rightarrow> (u8 \<times> u8) list" where
  "report_entries m p 0 = []"
| "report_entries m p (Suc n) = (m p, m (p + 1)) # report_entries m (p + 2) n"

definition reported_to :: "nat \<Rightarrow> (u8 \<times> u8) list \<Rightarrow> u8 list" where
  "reported_to i rs = map snd (filter (\<lambda>(e, c). Util_GetEndpoint (ucast e) = i) rs)"

lemma set_ep_mem [simp]: "mem (set_ep i f s) = mem s" "nbs (set_ep i f s) = nbs s"
  "natives (set_ep i f s) = natives s"
  by (simp_all add: set_ep_def)

lemma set_ep_eta: "set_ep i f s\<lparr>ep := e\<rparr> = s\<lparr>ep := e\<rparr>"
  by (simp add: set_ep_def)

lemma reported_to_Nil [simp]: "reported_to i [] = []"
  by (simp add: reported_to_def)

lemma reported_to_Cons [simp]:
  "reported_to i ((e, c) # rs) = (if Util_GetEndpoint (ucast e) = i then c # reported_to i rs else reported_to i rs)"
  by (simp add: reported_to_def)

definition reported_state :: "(u8 \<times> u8) list \<Rightarrow> 'e drv \<Rightarrow> 'e drv" where
  "reported_state rs s = s\<lparr>ep := \<lambda>i. fold credit_report_entry (reported_to i rs) (ep s i)\<rparr>"

lemma reported_state_Nil [simp]: "reported_state [] s = s"
  by (simp add: reported_state_def)

lemma reported_state_Cons:
  "reported_state ((e, c) # rs) s =
    reported_state rs (set_ep (Util_GetEndpoint (ucast e)) (credit_report_entry c) s)"
  by (auto simp: reported_state_def set_ep_eta intro!: arg_cong [where f = "\<lambda>e. s\<lparr>ep := e\<rparr>"])

lemma ProcessCreditRpt_run:
  "Htc_ProcessCreditRpt n p s =
    (if \<forall>(e, c)\<in>set (report_entries (mem s) p n). ucast e < ENDPOINT_MAX
     then Some (reported_state (report_entries (mem s) p n) s) else None)"
proof (induction n arbitrary: p s)
  case (Suc n)
  show ?case
  proof (cases "ucast (mem s p) < ENDPOINT_MAX")
    case True
    then show ?thesis using Suc [of "p + 2" "set_ep (Util_GetEndpoint (ucast (mem s p))) (credit_report_entry (mem s (p + 1))) s"]
      by (simp add: Let_def reported_state_Cons)
  qed (simp add: Let_def)
qed simp

section \<open>One endpoint and the chip\<close>

text \<open>The endpoint with the history of the link: the credits of the start, the frames sent, the
  credits the chip has returned and the part of them it has reported in trailers.\<close>

record credit_link =
  cl_ep :: A_ENDPOINT_T
  cl_init :: nat
  cl_sent :: nat
  cl_returned :: nat
  cl_reported :: nat

definition link_start :: "u8 \<Rightarrow> A_ENDPOINT_T \<Rightarrow> credit_link" where
  "link_start c e = \<lparr>cl_ep = endpoint_credits c e, cl_init = unat c, cl_sent = 0, cl_returned = 0,
     cl_reported = 0\<rparr>"

text \<open>The driver sends a frame for one credit; the chip returns a credit, at most one for every
  frame; a report covers credits that were returned; the counter register shows the number of
  returned credits modulo 256, and is read while less than 256 of them are unreported.\<close>

inductive credit_step :: "credit_link \<Rightarrow> credit_link \<Rightarrow> bool" where
  send: "credits (cl_ep l) \<noteq> 0 \<Longrightarrow>
    credit_step l (l\<lparr>cl_ep := credit_consume 1 (cl_ep l), cl_sent := Suc (cl_sent l)\<rparr>)"
| return_credit: "cl_returned l < cl_sent l \<Longrightarrow> credit_step l (l\<lparr>cl_returned := Suc (cl_returned l)\<rparr>)"
| report: "cl_reported l + unat c \<le> cl_returned l \<Longrightarrow>
    credit_step l (l\<lparr>cl_ep := credit_report_entry c (cl_ep l), cl_reported := cl_reported l + unat c\<rparr>)"
| read_counter: "cl_returned l - cl_reported l < 256 \<Longrightarrow>
    credit_step l (l\<lparr>cl_ep := credit_counter_update (of_nat (cl_returned l)) (cl_ep l)\<rparr>)"

inductive_simps credit_step_simps: "credit_step l l'"

text \<open>What the driver knows of the returned credits, and the invariant of the link.\<close>

definition link_known :: "credit_link \<Rightarrow> nat" where
  "link_known l = cl_reported l + unat (intCredits (cl_ep l))"

definition link_inv :: "credit_link \<Rightarrow> bool" where
  "link_inv l \<longleftrightarrow> rptCreditCounter (cl_ep l) = of_nat (cl_reported l)
     \<and> link_known l \<le> cl_returned l \<and> cl_returned l \<le> cl_sent l
     \<and> unat (credits (cl_ep l)) + cl_sent l = cl_init l + link_known l \<and> cl_init l < 256"

lemma unat_u8_less: "unat (c :: u8) < 256"
  using unsigned_less [of c, where ?'a = nat] by simp

lemma unat_u8_u32: "unat (ucast (c :: u8) :: u32) = unat c"
  using unat_u8_less [of c] by (simp add: unsigned_ucast_eq take_bit_eq_mod)

lemma unat_add_u8: "unat (a :: u8) + unat b < 256 \<Longrightarrow> unat (a + b) = unat a + unat b"
  by (simp add: unat_word_ariths)

lemma link_inv_send:
  assumes "link_inv l" "credits (cl_ep l) \<noteq> 0"
  shows "link_inv (l\<lparr>cl_ep := credit_consume 1 (cl_ep l), cl_sent := Suc (cl_sent l)\<rparr>)"
proof -
  have "0 < unat (credits (cl_ep l))" using assms(2) by (simp add: unat_gt_0)
  then have "unat (credits (cl_ep l) - 1) = unat (credits (cl_ep l)) - 1" using assms(2) by (simp add: unat_minus_one)
  with assms(1) \<open>0 < _\<close> show ?thesis
    by (simp add: link_inv_def link_known_def credit_consume_def)
qed

text \<open>A report first uses up the credits that were already learned from the counter.\<close>

lemma report_known:
  assumes "unat (credits e) + (unat c - unat (intCredits e)) < 256"
  shows "unat (intCredits (credit_report_entry c e)) = unat (intCredits e) - unat c"
    "unat (credits (credit_report_entry c e)) = unat (credits e) + (unat c - unat (intCredits e))"
    "rptCreditCounter (credit_report_entry c e) = rptCreditCounter e + c"
proof -
  show "rptCreditCounter (credit_report_entry c e) = rptCreditCounter e + c"
    by (simp add: credit_report_entry_def Let_def split: prod.splits)
  consider "intCredits e = 0" | "intCredits e \<noteq> 0" "intCredits e \<le> ucast c" | "\<not> intCredits e \<le> ucast c"
    by blast
  then have "unat (intCredits (credit_report_entry c e)) = unat (intCredits e) - unat c \<and>
    unat (credits (credit_report_entry c e)) = unat (credits e) + (unat c - unat (intCredits e))"
  proof cases
    case 1
    with assms show ?thesis by (simp add: credit_report_entry_def Let_def unat_add_u8)
  next
    case 2
    have le: "unat (intCredits e) \<le> unat c" using 2(2) by (simp add: word_le_nat_alt unat_u8_u32)
    have d: "unat (ucast (ucast c - intCredits e) :: u8) = unat c - unat (intCredits e)"
      using le unat_u8_less [of c] unat_sub [OF 2(2)]
      by (simp add: unsigned_ucast_eq take_bit_eq_mod unat_u8_u32)
    with 2 le assms show ?thesis
      by (simp add: credit_report_entry_def Let_def unat_add_u8)
  next
    case 3
    then have le: "ucast c \<le> intCredits e" "unat c \<le> unat (intCredits e)"
      by (simp_all add: word_le_nat_alt unat_u8_u32)
    have nz: "intCredits e \<noteq> 0" using 3 by auto
    with 3 le unat_sub [OF le(1)] show ?thesis
      by (simp add: credit_report_entry_def Let_def unat_u8_u32)
  qed
  then show "unat (intCredits (credit_report_entry c e)) = unat (intCredits e) - unat c"
    "unat (credits (credit_report_entry c e)) = unat (credits e) + (unat c - unat (intCredits e))" by blast+
qed

lemma link_inv_report:
  assumes inv: "link_inv l" and c: "cl_reported l + unat c \<le> cl_returned l"
  shows "link_inv (l\<lparr>cl_ep := credit_report_entry c (cl_ep l), cl_reported := cl_reported l + unat c\<rparr>)"
proof -
  have "unat (credits (cl_ep l)) + (unat c - unat (intCredits (cl_ep l))) < 256"
    using inv c by (auto simp: link_inv_def link_known_def)
  note r = report_known [OF this]
  show ?thesis using inv c r by (auto simp: link_inv_def link_known_def)
qed

text \<open>A counter value brings the driver up to date.\<close>

lemma counter_known:
  assumes inv: "link_inv l" and w: "cl_returned l - cl_reported l < 256"
  defines "e \<equiv> cl_ep l" and "e' \<equiv> credit_counter_update (of_nat (cl_returned l)) (cl_ep l)"
  shows "unat (intCredits e') = cl_returned l - cl_reported l"
    "unat (credits e') = unat (credits e) + (cl_returned l - link_known l)"
    "rptCreditCounter e' = rptCreditCounter e"
proof -
  let ?T = "cl_returned l" and ?R = "cl_reported l"
  let ?d = "of_nat ?T - rptCreditCounter e :: u8" and ?i = "intCredits e"
  have le: "?R + unat ?i \<le> ?T" and rpt: "rptCreditCounter e = of_nat ?R"
    and tot: "unat (credits e) + (?T - link_known l) < 256"
    using inv by (auto simp: link_inv_def link_known_def e_def)
  have d: "unat ?d = ?T - ?R"
  proof -
    have "?d = of_nat (?T - ?R)" using le by (simp add: rpt of_nat_diff)
    then show ?thesis using w by (simp add: unat_of_nat)
  qed
  have id: "?i \<le> ucast ?d" using le by (simp add: word_le_nat_alt unat_u8_u32 d)
  have lk: "link_known l = ?R + unat ?i" by (simp add: link_known_def e_def)
  have gain: "unat (ucast ?d - ?i) = ?T - link_known l"
    using unat_sub [OF id] by (simp add: unat_u8_u32 d lk)
  then have gain8: "unat (ucast (ucast ?d - ?i) :: u8) = ?T - link_known l"
    using tot by (simp add: unsigned_ucast_eq take_bit_eq_mod)
  have e': "e' = e\<lparr>intCreditCounter := of_nat ?T, intCredits := ?i + ucast (ucast (ucast ?d - ?i) :: u8),
      credits := credits e + ucast (ucast ?d - ?i)\<rparr>"
    using id by (simp add: e'_def e_def credit_counter_update_def Let_def not_less)
  show "rptCreditCounter e' = rptCreditCounter e" by (simp add: e')
  show "unat (credits e') = unat (credits e) + (?T - link_known l)"
    using tot gain8 by (simp add: e' unat_add_u8)
  have "ucast (ucast (ucast ?d - ?i) :: u8) = ucast ?d - ?i"
    using gain gain8 by (simp add: word_unat_eq_iff unat_u8_u32)
  then have "intCredits e' = ucast ?d" by (simp add: e')
  then show "unat (intCredits e') = ?T - ?R" by (simp add: unat_u8_u32 d)
qed

lemma link_inv_counter:
  assumes "link_inv l" "cl_returned l - cl_reported l < 256"
  shows "link_inv (l\<lparr>cl_ep := credit_counter_update (of_nat (cl_returned l)) (cl_ep l)\<rparr>)"
  using counter_known [OF assms] assms(1) by (auto simp: link_inv_def link_known_def)

lemma link_inv_start: "link_inv (link_start c e)"
  using unat_u8_less [of c] by (simp add: link_inv_def link_start_def link_known_def endpoint_credits_def)

lemma link_inv_step: "credit_step l l' \<Longrightarrow> link_inv l \<Longrightarrow> link_inv l'"
proof (induction rule: credit_step.induct)
  case (return_credit l)
  then show ?case by (auto simp: link_inv_def link_known_def)
qed (simp_all add: link_inv_send link_inv_report link_inv_counter)

lemma link_inv_reach: "credit_step\<^sup>*\<^sup>* l l' \<Longrightarrow> link_inv l \<Longrightarrow> link_inv l'"
  by (induction rule: rtranclp_induct) (auto intro: link_inv_step)

lemma credit_step_init: "credit_step\<^sup>*\<^sup>* l l' \<Longrightarrow> cl_init l' = cl_init l"
  by (induction rule: rtranclp_induct) (auto elim!: credit_step.cases)

section \<open>Properties\<close>

text \<open>C@@1. Flow control. Whatever the interleaving of frames sent, credits returned by the chip,
  credit reports in trailers and reads of the chip's counter, an endpoint never owns more credits
  than the chip has room for: the credits it holds and the frames in flight together never exceed
  the credits it was given at start-up, so the 8-bit counts never wrap and the chip is never
  overrun, although a credit can reach the driver over both channels.\<close>

theorem credits_never_overrun:
  assumes "credit_step\<^sup>*\<^sup>* (link_start c e) l"
  shows "unat (credits (cl_ep l)) + (cl_sent l - cl_returned l) \<le> unat c
    \<and> unat (credits (cl_ep l)) + cl_sent l = unat c + cl_reported l + unat (intCredits (cl_ep l))"
proof -
  have "link_inv l" "cl_init l = unat c"
    using link_inv_reach [OF assms link_inv_start] credit_step_init [OF assms] by (simp_all add: link_start_def)
  then show ?thesis by (auto simp: link_inv_def link_known_def)
qed

theorem credits_never_overrun_witness:
  "\<exists>l. credit_step\<^sup>*\<^sup>* (link_start 2 endpoint_zero) l \<and> cl_sent l = 2 \<and> cl_returned l = 1
    \<and> credits (cl_ep l) = 1 \<and> unat (credits (cl_ep l)) + (cl_sent l - cl_returned l) \<le> unat (2 :: u8)"
proof -
  let ?l0 = "link_start 2 endpoint_zero"
  let ?l1 = "?l0\<lparr>cl_ep := credit_consume 1 (cl_ep ?l0), cl_sent := Suc (cl_sent ?l0)\<rparr>"
  let ?l2 = "?l1\<lparr>cl_ep := credit_consume 1 (cl_ep ?l1), cl_sent := Suc (cl_sent ?l1)\<rparr>"
  let ?l3 = "?l2\<lparr>cl_returned := Suc (cl_returned ?l2)\<rparr>"
  let ?l4 = "?l3\<lparr>cl_ep := credit_counter_update (of_nat (cl_returned ?l3)) (cl_ep ?l3)\<rparr>"
  let ?l5 = "?l4\<lparr>cl_ep := credit_report_entry 1 (cl_ep ?l4), cl_reported := cl_reported ?l4 + unat (1 :: u8)\<rparr>"
  note defs = link_start_def endpoint_credits_def credit_consume_def
  have "credit_step ?l0 ?l1" by (rule send) (simp add: defs)
  moreover have "credit_step ?l1 ?l2" by (rule send) (simp add: defs)
  moreover have "credit_step ?l2 ?l3" by (rule return_credit) (simp add: defs)
  moreover have "credit_step ?l3 ?l4" by (rule read_counter) (simp add: defs)
  moreover have "credit_step ?l4 ?l5" by (rule report) (simp add: defs)
  ultimately have run: "credit_step\<^sup>*\<^sup>* ?l0 ?l5"
    by (meson rtranclp.rtrancl_into_rtrancl rtranclp.rtrancl_refl)
  have "cl_sent ?l5 = 2" "cl_returned ?l5 = 1" "credits (cl_ep ?l5) = 1"
    by (simp_all add: defs endpoint_zero_def credit_counter_update_def credit_report_entry_def)
  with run credits_never_overrun [OF run] show ?thesis by blast
qed

text \<open>C38. No credit is lost. A read of the chip's counter recovers every credit the chip has
  returned, also those whose reports have not arrived yet, and the reports that arrive later do
  not count them again: after the read, and after any report that follows it, the endpoint holds
  what it was given, less the frames the chip has not finished with.\<close>

theorem counter_recovers_credits:
  assumes run: "credit_step\<^sup>*\<^sup>* (link_start c e) l" and window: "cl_returned l - cl_reported l < 256"
    and later: "cl_reported l + unat k \<le> cl_returned l"
  defines "e1 \<equiv> credit_counter_update (of_nat (cl_returned l)) (cl_ep l)"
  shows "unat (credits e1) + (cl_sent l - cl_returned l) = unat c
    \<and> credits (credit_report_entry k e1) = credits e1"
proof -
  have inv: "link_inv l" "cl_init l = unat c"
    using link_inv_reach [OF run link_inv_start] credit_step_init [OF run] by (simp_all add: link_start_def)
  note k = counter_known [OF inv(1) window, folded e1_def]
  have tot: "unat (credits e1) + (cl_sent l - cl_returned l) = unat c"
    using k inv by (auto simp: link_inv_def)
  have "unat k - unat (intCredits e1) = 0" using later k(1) by simp
  then have "unat (credits (credit_report_entry k e1)) = unat (credits e1)"
    using report_known(2) [of e1 k] unat_u8_less [of "credits e1"] by simp
  with tot show ?thesis by (simp add: word_unat_eq_iff)
qed

theorem counter_recovers_credits_witness:
  "credits (credit_report_entry 1 (credit_counter_update 1
      (credit_consume 1 (endpoint_credits 2 endpoint_zero)))) = 2"
proof -
  let ?l0 = "link_start 2 endpoint_zero"
  let ?l1 = "?l0\<lparr>cl_ep := credit_consume 1 (cl_ep ?l0), cl_sent := Suc (cl_sent ?l0)\<rparr>"
  let ?l2 = "?l1\<lparr>cl_returned := Suc (cl_returned ?l1)\<rparr>"
  have "credit_step ?l0 ?l1" by (rule send) (simp add: link_start_def endpoint_credits_def)
  moreover have "credit_step ?l1 ?l2" by (rule return_credit) (simp add: link_start_def)
  ultimately have run: "credit_step\<^sup>*\<^sup>* ?l0 ?l2" by simp
  have l2: "cl_returned ?l2 = 1" "cl_reported ?l2 = 0" "cl_sent ?l2 = 1"
    "cl_ep ?l2 = credit_consume 1 (endpoint_credits 2 endpoint_zero)"
    by (simp_all add: link_start_def)
  have "unat (credits (credit_counter_update 1 (cl_ep ?l2))) = unat (2 :: u8) \<and>
      credits (credit_report_entry 1 (credit_counter_update 1 (cl_ep ?l2))) = credits (credit_counter_update 1 (cl_ep ?l2))"
    using counter_recovers_credits [OF run, of 1] unfolding l2(1-3) by simp
  then show ?thesis unfolding l2(4) by (metis word_unat_eq_iff)
qed

text \<open>A credit report in a received trailer credits exactly the endpoints it names: the loop over
  the report returns if and only if every entry names one of the six endpoint ids, and then every
  endpoint has taken the entries that map to it (ids 2 to 5 share one endpoint) in their order,
  and nothing else in the context has changed.\<close>

lemma credit_report_effect:
  "Htc_ProcessCreditRpt n p s =
    (if list_all (\<lambda>(e, c). ucast e < ENDPOINT_MAX) (report_entries (mem s) p n)
     then Some (s\<lparr>ep := \<lambda>i. fold credit_report_entry (reported_to i (report_entries (mem s) p n)) (ep s i)\<rparr>)
     else None)"
  by (simp add: ProcessCreditRpt_run reported_state_def list_all_iff)

end
