(* ===== verification/Htc_Frames.thy ===== *)
theory Htc_Frames
  imports Htc_Credits
begin

text \<open>
  What the HTC layer does to the bytes of a frame: the header a transmitted frame gets, what is
  left of a received frame once header, padding and trailer are taken off, and that the two agree.
\<close>

section \<open>Packets and their bytes\<close>

lemma mem_bytes_take: "k \<le> n \<Longrightarrow> mem_bytes m a k = take k (mem_bytes m a n)"
  by (rule nth_equalityI) auto

lemma mem_bytes_drop: "k \<le> n \<Longrightarrow> mem_bytes m (a + of_nat k) (n - k) = drop k (mem_bytes m a n)"
  by (rule nth_equalityI) (auto simp: algebra_simps mem_bytes_def)

lemma length_packet_bytes: "length (packet_bytes m nb) = unat (nb_tail nb - nb_data nb)"
  by (simp add: packet_bytes_def)

lemma packet_bytes_trim:
  assumes "a_netbuf_trim nb n = Some nb'"
  shows "packet_bytes m nb' = take (length (packet_bytes m nb) - unat n) (packet_bytes m nb)"
    "nb_data nb' = nb_data nb" "trans nb' = trans nb" "num_frags nb' = num_frags nb"
proof -
  from assms have nb': "nb' = nb\<lparr>nb_tail := nb_tail nb - n\<rparr>" and le: "n \<le> nb_tail nb - nb_data nb"
    by (auto simp: a_netbuf_trim_def A_ASSERT_bind_Some)
  have "unat (nb_tail nb - n - nb_data nb) = unat (nb_tail nb - nb_data nb) - unat n"
    using unat_diff_word [OF le] by (simp add: diff_right_commute)
  then show "packet_bytes m nb' = take (length (packet_bytes m nb) - unat n) (packet_bytes m nb)"
    by (simp add: packet_bytes_def nb' mem_bytes_take)
qed (use assms in \<open>auto simp: a_netbuf_trim_def A_ASSERT_bind_Some\<close>)

lemma packet_bytes_pull:
  assumes "a_netbuf_pull nb n = Some nb'"
  shows "packet_bytes m nb' = drop (unat n) (packet_bytes m nb)"
proof -
  from assms have nb': "nb' = nb\<lparr>nb_data := nb_data nb + n\<rparr>" and le: "n \<le> nb_tail nb - nb_data nb"
    by (auto simp: a_netbuf_pull_def A_ASSERT_bind_Some)
  have "unat (nb_tail nb - (nb_data nb + n)) = unat (nb_tail nb - nb_data nb) - unat n"
    using unat_diff_word [OF le] by (simp add: diff_diff_eq)
  moreover have "unat n \<le> unat (nb_tail nb - nb_data nb)" using le by (simp add: word_le_nat_alt)
  ultimately show ?thesis
    using mem_bytes_drop [of "unat n" "unat (nb_tail nb - nb_data nb)" m "nb_data nb"]
    by (simp add: packet_bytes_def nb')
qed

lemma packet_byte:
  "i < length (packet_bytes m nb) \<Longrightarrow> m (nb_data nb + of_nat i) = packet_bytes m nb ! i"
  by (simp add: packet_bytes_def)

lemma mem_bytes_put_prefix:
  assumes "length bs \<le> n" "n \<le> 2 ^ 32"
  shows "mem_bytes (mem_put m a bs) a n = bs @ drop (length bs) (mem_bytes m a n)"
  using assms by (intro nth_equalityI) (auto simp: nth_append mem_put_apply unat_of_nat)

section \<open>Trailers leave memory and packets alone\<close>

lemma trailer_record_frame:
  "trailer_record w r n p la s = Some (la', s') \<Longrightarrow> \<exists>e. s' = s\<lparr>ep := e\<rparr>"
  by (auto simp: trailer_record_def bind_eq_Some_conv A_ASSERT_bind_Some ProcessCreditRpt_run reported_state_def
      intro: exI [of _ "ep s"] split: if_splits)

lemma trailer_records_frame:
  "trailer_records w p n la s = Some (st, la', s') \<Longrightarrow> \<exists>e. s' = s\<lparr>ep := e\<rparr>"
proof (induction w p n la s arbitrary: st la' s' rule: trailer_records.induct)
  case (1 w p n la s)
  consider "n < 2" | "\<not> n < 2" "n - 2 < unat (mem s (p + 1))" | "\<not> n < 2" "\<not> n - 2 < unat (mem s (p + 1))"
    by blast
  then show ?case
  proof cases
    case 1
    with "1.prems" have "s' = s" by (subst (asm) trailer_records.simps) (auto split: if_splits)
    then show ?thesis by (intro exI [of _ "ep s"]) simp
  next
    case 2
    with "1.prems" have "s' = s" by (subst (asm) trailer_records.simps) (auto simp: Let_def)
    then show ?thesis by (intro exI [of _ "ep s"]) simp
  next
    case 3
    with "1.prems" obtain la1 s1 where r: "trailer_record w (mem s p) (mem s (p + 1)) (p + 2) la s = Some (la1, s1)"
      and rest: "trailer_records w (p + 2 + ucast (mem s (p + 1))) (n - 2 - unat (mem s (p + 1))) la1 s1
        = Some (st, la', s')"
      by (subst (asm) trailer_records.simps) (auto simp: Let_def bind_eq_Some_conv)
    obtain e1 where "s1 = s\<lparr>ep := e1\<rparr>" using trailer_record_frame [OF r] by blast
    moreover obtain e2 where "s' = s1\<lparr>ep := e2\<rparr>"
      using "1.IH" [OF _ _ refl refl refl refl _ r refl rest] 3 by auto
    ultimately show ?thesis by auto
  qed
qed

lemma ProcessTrailer_frame:
  "Htc_ProcessTrailer w p n la s = Some (st, la', s') \<Longrightarrow> st = A_OK \<and> (\<exists>e. s' = s\<lparr>ep := e\<rparr>)"
  by (auto simp: Htc_ProcessTrailer_def bind_eq_Some_conv A_ASSERT_bind_Some dest: trailer_records_frame)

section \<open>Sending\<close>

lemma length_htc_header [simp]: "length (htc_header e f L c0 c1) = 6"
  by (simp add: htc_header_def)

text \<open>C30. A transmitted frame. When \<open>Htc_SendPacket\<close> accepts a packet whose head room of six
  bytes is already part of it, the bytes it leaves in memory are the HTC header with the packet's endpoint, the length of
  the rest, the endpoint's sequence number, and the flag that asks for a credit report exactly if
  this frame takes the last credit; the payload bytes are the ones of before. The endpoint has
  paid the packet's credits and moved its sequence number; no other endpoint changes.\<close>

theorem send_packet_frame:
  assumes run: "Htc_SendPacket p s = Some (A_OK, s')" and start: "htcStart s"
    and len: "6 \<le> length (packet_bytes (mem s) (nbs s p))"
  defines "i \<equiv> Util_GetEndpoint (ucast (t_epid (trans (nbs s p))))" and "c \<equiv> t_credits (trans (nbs s p))"
  shows "packet_bytes (mem s') (nbs s' p) =
      htc_header (t_epid (trans (nbs s p))) (if credits (ep s i) = c then HTC_FLAGS_NEED_CREDIT_UPDATE else 0)
        (ucast (nb_len p s) - 6) 0 (seqNo (ep s i)) @ drop 6 (packet_bytes (mem s) (nbs s p))
    \<and> nbs s' = nbs s \<and> ep s' = (ep s)(i := credit_consume c (ep s i)) \<and> c \<noteq> 0 \<and> credits (ep s i) \<noteq> 0"
proof -
  let ?s1 = "set_ep i (credit_consume c) s"
  have nz: "credits (ep s i) \<noteq> 0" "c \<noteq> 0" and s': "s' = ?s1\<lparr>mem := mem_put (mem ?s1) (nb_data (nbs s p))
      (htc_header (t_epid (trans (nbs s p))) (if credits (ep ?s1 i) = 0 then HTC_FLAGS_NEED_CREDIT_UPDATE else 0)
        (ucast (nb_len p ?s1) - 6) 0 (seqNo (ep s i)))\<rparr>"
    using run start by (auto simp: Htc_SendPacket_def Let_def i_def c_def A_ASSERT_bind_Some a_netbuf_to_data_def
        split: if_splits)
  have cr: "credits (credit_consume c (ep s i)) = 0 \<longleftrightarrow> credits (ep s i) = c"
    by (simp add: credit_consume_def)
  have same: "nb_len p ?s1 = nb_len p s" by (simp add: nb_len_def)
  have "packet_bytes (mem s') (nbs s p) =
      htc_header (t_epid (trans (nbs s p))) (if credits (ep s i) = c then HTC_FLAGS_NEED_CREDIT_UPDATE else 0)
        (ucast (nb_len p s) - 6) 0 (seqNo (ep s i)) @ drop 6 (packet_bytes (mem s) (nbs s p))"
    using len unat_le_2p32 [of "nb_tail (nbs s p) - nb_data (nbs s p)"]
    by (simp add: s' packet_bytes_def mem_bytes_put_prefix cr same)
  moreover have "nbs s' = nbs s" "ep s' = (ep s)(i := credit_consume c (ep s i))" by (auto simp: s' set_ep_def)
  ultimately show ?thesis using nz by simp
qed

section \<open>Receiving\<close>

text \<open>The number of trailer bytes a frame announces.\<close>

definition trailer_len :: "u8 list \<Rightarrow> nat" where
  "trailer_len bs = (if bs ! 1 AND HTC_FLAGS_RECV_TRAILER \<noteq> 0 then unat (bs ! 4) else 0)"

definition payload_len :: "u8 list \<Rightarrow> nat" where
  "payload_len bs = unat (le16 (bs ! 2) (bs ! 3))"

lemma nb_len_single: "num_frags (nbs s p) = 0 \<Longrightarrow> nb_len p s = nb_tail (nbs s p) - nb_data (nbs s p)"
  by (simp add: nb_len_def a_netbuf_to_len_def Let_def)

lemma unat_payload: "unat (ucast (L :: u16) + (6 :: u32)) = unat L + 6"
proof -
  have "unat L < 65536" using unsigned_less [of L, where ?'a = nat] by simp
  then show ?thesis by (simp add: unat_word_ariths unsigned_ucast_eq take_bit_eq_mod)
qed

text \<open>Padding comes off: the object is cut to header and payload.\<close>

lemma recv_padding:
  assumes run: "recv_trim_padding p L s = Some s'" and nf: "num_frags (nbs s p) = 0"
    and len: "unat L + 6 \<le> length (packet_bytes (mem s) (nbs s p))"
  shows "packet_bytes (mem s) (nbs s' p) = take (unat L + 6) (packet_bytes (mem s) (nbs s p))
    \<and> mem s' = mem s \<and> ep s' = ep s"
proof (cases "ucast L + 6 < nb_len p s")
  case True
  then obtain nb where trim: "a_netbuf_trim (nbs s p) (nb_len p s - (ucast L + 6)) = Some nb"
    and s': "s' = s\<lparr>nbs := (nbs s)(p := nb)\<rparr>"
    using run by (auto simp: recv_trim_padding_def on_nb_Some)
  have "unat (nb_len p s - (ucast L + 6)) = length (packet_bytes (mem s) (nbs s p)) - (unat L + 6)"
    using unat_diff_word [OF less_imp_le [OF True]] by (simp add: unat_payload nb_len_single [OF nf] length_packet_bytes)
  with packet_bytes_trim(1) [OF trim, of "mem s"] len show ?thesis by (simp add: s')
next
  case False
  then have "length (packet_bytes (mem s) (nbs s p)) \<le> unat L + 6"
    by (simp add: word_less_nat_alt unat_payload nb_len_single [OF nf] length_packet_bytes)
  with False run len show ?thesis by (simp add: recv_trim_padding_def)
qed

text \<open>The trailer comes off the end.\<close>

lemma recv_trailer_bytes:
  assumes run: "recv_trailer p w b L la s = Some (st, la', s')"
  defines "t \<equiv> if mem s (b + 1) AND HTC_FLAGS_RECV_TRAILER \<noteq> 0 then unat (mem s (b + 4)) else 0"
  shows "st = A_OK \<and> t \<le> unat L \<and> mem s' = mem s \<and>
    packet_bytes (mem s) (nbs s' p) = take (length (packet_bytes (mem s) (nbs s p)) - t) (packet_bytes (mem s) (nbs s p))"
proof (cases "mem s (b + 1) AND HTC_FLAGS_RECV_TRAILER \<noteq> 0")
  case True
  let ?t = "mem s (b + 4)"
  from run True obtain s1 nb where le: "\<not> ucast ?t > L"
    and tr: "Htc_ProcessTrailer w (b + 6 + ucast L - ucast ?t) (unat ?t) la s = Some (st, la', s1)"
    and trim: "a_netbuf_trim (nbs s1 p) (ucast ?t) = Some nb" and s': "s' = s1\<lparr>nbs := (nbs s1)(p := nb)\<rparr>"
    by (auto simp: recv_trailer_def Let_def A_ASSERT_bind_Some bind_eq_Some_conv on_nb_Some)
  obtain e where s1: "s1 = s\<lparr>ep := e\<rparr>" and st: "st = A_OK" using ProcessTrailer_frame [OF tr] by blast
  have "unat (ucast ?t :: u16) = unat ?t"
    using unat_u8_less [of ?t] by (simp add: unsigned_ucast_eq take_bit_eq_mod)
  then have "unat ?t \<le> unat L" using le by (simp add: word_less_nat_alt)
  then show ?thesis
    using packet_bytes_trim(1) [OF trim, of "mem s"] st True by (simp add: s' s1 t_def unat_u8_u32)
next
  case False
  with run show ?thesis by (simp add: recv_trailer_def t_def)
qed

text \<open>C29. A received frame. Take a packet in one buffer that holds at least the header and the
  payload its header announces. If \<open>Htc_ProcessRecvHeader\<close> returns, it returns \<open>A_OK\<close>, the first
  four bytes were the look-ahead the packet was fetched for, an announced trailer lies inside the
  payload, and what is left of the packet is exactly the payload without the trailer: the header
  in front, the padding behind and the trailer are gone. The bytes in memory stay as they are.\<close>

theorem recv_header_payload:
  assumes run: "Htc_ProcessRecvHeader p w la s = Some (st, la', s')" and nf: "num_frags (nbs s p) = 0"
    and len: "payload_len (packet_bytes (mem s) (nbs s p)) + 6 \<le> length (packet_bytes (mem s) (nbs s p))"
  defines "bs \<equiv> packet_bytes (mem s) (nbs s p)"
  shows "st = A_OK \<and> le32 (bs ! 0) (bs ! 1) (bs ! 2) (bs ! 3) = t_lookahead (trans (nbs s p))
    \<and> trailer_len bs \<le> payload_len bs
    \<and> packet_bytes (mem s') (nbs s' p) = take (payload_len bs - trailer_len bs) (drop 6 bs)
    \<and> mem s' = mem s"
proof -
  let ?b = "nb_data (nbs s p)"
  have at: "mem s (?b + of_nat i) = bs ! i" if "i < 6" for i
    using that len packet_byte [of i "mem s" "nbs s p"] by (simp add: bs_def)
  have b: "mem s ?b = bs ! 0" "mem s (?b + 1) = bs ! 1" "mem s (?b + 2) = bs ! 2" "mem s (?b + 3) = bs ! 3"
    "mem s (?b + 4) = bs ! 4"
    using at [of 0] at [of 1] at [of 2] at [of 3] at [of 4] by simp_all
  define L where "L = le16 (bs ! 2) (bs ! 3)"
  have L: "unat L = payload_len bs" by (simp add: payload_len_def L_def)
  from run obtain s1 s2 nb where look: "le32 (bs ! 0) (bs ! 1) (bs ! 2) (bs ! 3) = t_lookahead (trans (nbs s p))"
    and pad: "recv_trim_padding p L s = Some s1"
    and tr: "recv_trailer p w ?b L (fst la, 0) s1 = Some (st, la', s2)"
    and pull: "a_netbuf_pull (nbs s2 p) 6 = Some nb" and s': "s' = s2\<lparr>nbs := (nbs s2)(p := nb)\<rparr>"
    by (auto simp: Htc_ProcessRecvHeader_def Let_def a_netbuf_to_data_def A_ASSERT_bind_Some bind_eq_Some_conv b
        on_nb_Some L_def)
  have 1: "packet_bytes (mem s) (nbs s1 p) = take (payload_len bs + 6) bs" "mem s1 = mem s"
    using recv_padding [OF pad nf] len by (simp_all add: L bs_def)
  have len1: "length (packet_bytes (mem s) (nbs s1 p)) = payload_len bs + 6"
    using 1(1) len by (simp add: bs_def)
  have t: "(if mem s (?b + 1) AND HTC_FLAGS_RECV_TRAILER \<noteq> 0 then unat (mem s (?b + 4)) else 0) = trailer_len bs"
    by (simp only: trailer_len_def b)
  have 2: "st = A_OK" "trailer_len bs \<le> payload_len bs" "mem s2 = mem s"
    "packet_bytes (mem s) (nbs s2 p) = take (payload_len bs + 6 - trailer_len bs) bs"
    using recv_trailer_bytes [OF tr, unfolded 1(2) t len1] 1 by (simp_all add: L)
  have "packet_bytes (mem s) nb = drop 6 (take (payload_len bs + 6 - trailer_len bs) bs)"
    using packet_bytes_pull [OF pull, of "mem s"] 2(4) by simp
  also have "\<dots> = take (payload_len bs - trailer_len bs) (drop 6 bs)"
    using 2(2) by (simp add: drop_take)
  finally show ?thesis using 2 look by (simp add: s')
qed

text \<open>A frame on endpoint 1 with the payload \<open>[0xAA]\<close>, a credit report of two bytes for endpoint 2
  in the trailer, and two bytes of padding; and the state that received it.\<close>

definition demo_frame :: "u8 list" where
  "demo_frame = htc_header 1 HTC_FLAGS_RECV_TRAILER 5 4 0 @ [0xAA] @ [HTC_RECORD_CREDITS, 2, 2, 3] @ [0, 0]"

definition demo_recv :: "unit drv" where
  "demo_recv = (drv_zero ())\<lparr>mem := mem_put (\<lambda>_. 0) 0x1000 demo_frame,
     nbs := (\<lambda>_. netbuf_zero)(0x500 := (a_netbuf_configure 0x1000 0 13 64)
       \<lparr>trans := trans_zero\<lparr>t_lookahead := le32 1 2 5 0\<rparr>\<rparr>)\<rparr>"

lemma demo_frame_bytes: "demo_frame = [1, 2, 5, 0, 4, 0, 0xAA, 1, 2, 2, 3, 0, 0]"
  by (simp add: demo_frame_def htc_header_def byte_of_def drop_bit_eq_div)

lemma demo_recv_packet:
  "nb_data (nbs demo_recv 0x500) = 0x1000" "nb_tail (nbs demo_recv 0x500) = 0x100D"
  "num_frags (nbs demo_recv 0x500) = 0" "t_lookahead (trans (nbs demo_recv 0x500)) = le32 1 2 5 0"
  by (simp_all add: demo_recv_def a_netbuf_configure_def netbuf_zero_def)

lemma demo_recv_bytes: "packet_bytes (mem demo_recv) (nbs demo_recv 0x500) = demo_frame"
  by (simp add: packet_bytes_def demo_recv_packet)
     (simp add: demo_recv_def demo_frame_bytes mem_bytes_def upt_rec)

theorem recv_header_payload_witness:
  "\<exists>la' s'. Htc_ProcessRecvHeader 0x500 True (0, 0) demo_recv = Some (A_OK, la', s')
    \<and> packet_bytes (mem s') (nbs s' 0x500) = [0xAA]"
proof -
  let ?s1 = "set_ep 2 (credit_report_entry 3) demo_recv"
  have rpt: "Htc_ProcessCreditRpt 1 0x1009 s = Some (set_ep 2 (credit_report_entry 3) s)"
    if "mem s = mem demo_recv" for s :: "unit drv"
    using that by (simp add: demo_recv_def demo_frame_bytes ENDPOINT_MAX_def)
  have tr: "trailer_records True 0x1007 4 (0, 0) s = Some (A_OK, (0, 0), set_ep 2 (credit_report_entry 3) s)"
    if m: "mem s = mem demo_recv" for s :: "unit drv"
  proof -
    have "mem s 0x1007 = 1" "mem s 0x1008 = 2" using m by (simp_all add: demo_recv_def demo_frame_bytes)
    moreover have "trailer_records True 0x100B 0 (0, 0) s' = Some (A_OK, (0, 0), s')" for s' :: "unit drv"
      by (simp add: trailer_records.simps)
    ultimately show ?thesis
      by (simp add: trailer_records.simps [of True "0x1007"] trailer_record_def rpt [OF m, simplified])
  qed
  have b: "mem demo_recv 0x1000 = 1" "mem demo_recv 0x1001 = 2" "mem demo_recv 0x1002 = 5"
    "mem demo_recv 0x1003 = 0" "mem demo_recv 0x1004 = 4"
    by (simp_all add: demo_recv_def demo_frame_bytes)
  have len: "nb_len 0x500 demo_recv = 13" by (simp add: nb_len_single demo_recv_packet)
  have le: "le16 5 0 = 5" by (simp add: le16_def)
  obtain nb1 where nb1: "a_netbuf_trim (nbs demo_recv 0x500) 2 = Some nb1" "nb_data nb1 = 0x1000" "nb_tail nb1 = 0x100B"
    by (simp add: a_netbuf_trim_def demo_recv_packet)
  obtain nb2 where nb2: "a_netbuf_trim nb1 4 = Some nb2" "nb_data nb2 = 0x1000" "nb_tail nb2 = 0x1007"
    using nb1 by (simp add: a_netbuf_trim_def)
  obtain nb3 where nb3: "a_netbuf_pull nb2 6 = Some nb3"
    using nb2 by (simp add: a_netbuf_pull_def)
  have pad: "recv_trim_padding 0x500 5 demo_recv = Some (demo_recv\<lparr>nbs := (nbs demo_recv)(0x500 := nb1)\<rparr>)"
    by (simp add: recv_trim_padding_def len on_nb_def nb1)
  obtain s' where run: "Htc_ProcessRecvHeader 0x500 True (0, 0) demo_recv = Some (A_OK, (0, 0), s')"
    by (simp add: Htc_ProcessRecvHeader_def Let_def a_netbuf_to_data_def demo_recv_packet len b le pad
        recv_trailer_def Htc_ProcessTrailer_def tr on_nb_def nb2 nb3)
  have nf: "num_frags (nbs demo_recv 0x500) = 0" by (simp add: demo_recv_packet)
  have "payload_len demo_frame + 6 \<le> length demo_frame" by (simp add: payload_len_def demo_frame_bytes le)
  with recv_header_payload [OF run nf] run show ?thesis
    by (auto simp: demo_recv_bytes payload_len_def trailer_len_def demo_frame_bytes le)
qed

definition demo_send :: "unit drv" where
  "demo_send = (drv_zero ())\<lparr>htcStart := True, mem := (\<lambda>a. ucast a),
     ep := (\<lambda>_. endpoint_zero)(1 := endpoint_zero\<lparr>credits := 1, seqNo := 7\<rparr>),
     nbs := (\<lambda>_. netbuf_zero)(0x500 := (a_netbuf_configure 0x1000 0 9 64)
       \<lparr>trans := trans_zero\<lparr>t_epid := 1, t_credits := 1\<rparr>\<rparr>)\<rparr>"

lemma demo_send_packet:
  "htcStart demo_send" "t_epid (trans (nbs demo_send 0x500)) = 1" "t_credits (trans (nbs demo_send 0x500)) = 1"
  "ep demo_send (Suc 0) = endpoint_zero\<lparr>credits := 1, seqNo := 7\<rparr>" "nb_len 0x500 demo_send = 9"
  "mem demo_send = (\<lambda>a. ucast a)" "nb_data (nbs demo_send 0x500) = 0x1000" "nb_tail (nbs demo_send 0x500) = 0x1009"
  "num_frags (nbs demo_send 0x500) = 0"
  by (simp_all add: demo_send_def nb_len_def a_netbuf_to_len_def a_netbuf_configure_def netbuf_zero_def)

lemma demo_send_bytes: "packet_bytes (\<lambda>a. ucast a) (nbs demo_send 0x500) = [0, 1, 2, 3, 4, 5, 6, 7, 8]"
  by (simp add: packet_bytes_def demo_send_packet) (simp add: mem_bytes_def upt_rec)

lemma demo_send_runs: "\<exists>s'. Htc_SendPacket 0x500 demo_send = Some (A_OK, s') \<and> nbs s' = nbs demo_send"
  by (simp add: Htc_SendPacket_def Let_def demo_send_packet set_ep_def)

theorem send_packet_frame_witness:
  "\<exists>s'. Htc_SendPacket 0x500 demo_send = Some (A_OK, s')
    \<and> packet_bytes (mem s') (nbs s' 0x500) = [1, HTC_FLAGS_NEED_CREDIT_UPDATE, 3, 0, 0, 7, 6, 7, 8]"
proof -
  obtain s' where run: "Htc_SendPacket 0x500 demo_send = Some (A_OK, s')" using demo_send_runs by blast
  have "6 \<le> length (packet_bytes (mem demo_send) (nbs demo_send 0x500))" by (simp add: demo_send_packet demo_send_bytes)
  from send_packet_frame [OF run demo_send_packet(1) this] run show ?thesis
    by (auto simp: demo_send_packet demo_send_bytes htc_header_def byte_of_def)
qed

section \<open>There and back\<close>

lemma flag_no_trailer: "(if b then HTC_FLAGS_NEED_CREDIT_UPDATE else 0) AND HTC_FLAGS_RECV_TRAILER = 0"
  by simp

lemma packet_head:
  assumes "packet_bytes m nb = htc_header e f L c0 c1 @ xs"
  shows "m (nb_data nb) = e" "m (nb_data nb + 1) = f" "m (nb_data nb + 2) = byte_of 0 L"
    "m (nb_data nb + 3) = byte_of 1 L" "m (nb_data nb + 4) = c0"
  using packet_byte [of 0 m nb] packet_byte [of 1 m nb] packet_byte [of 2 m nb] packet_byte [of 3 m nb]
    packet_byte [of 4 m nb]
  by (simp_all add: assms) (simp_all add: htc_header_def)

text \<open>C8. A frame survives the layer. Let \<open>Htc_SendPacket\<close> accept a packet of at most 65535 bytes in one buffer,
  six of them head room, and let a packet somewhere hold the same bytes, fetched for the look-ahead they start
  with. Then \<open>Htc_ProcessRecvHeader\<close> accepts that packet without assertion failure, finds no further
  look-ahead, and leaves the bytes that followed the head room before the frame was sent.\<close>

theorem htc_frame_roundtrip:
  assumes run: "Htc_SendPacket p s = Some (A_OK, s')" and start: "htcStart s" and nf: "num_frags (nbs s p) = 0"
    and len: "6 \<le> length (packet_bytes (mem s) (nbs s p))" "length (packet_bytes (mem s) (nbs s p)) < 65536"
    and same: "packet_bytes (mem r) (nbs r q) = packet_bytes (mem s') (nbs s' p)"
    and q: "num_frags (nbs r q) = 0" "nb_data (nbs r q) \<noteq> NULL"
    and la: "t_lookahead (trans (nbs r q)) = le32 (mem r (nb_data (nbs r q))) (mem r (nb_data (nbs r q) + 1))
      (mem r (nb_data (nbs r q) + 2)) (mem r (nb_data (nbs r q) + 3))"
  shows "\<exists>r'. Htc_ProcessRecvHeader q w l r = Some (A_OK, (fst l, 0), r')
    \<and> packet_bytes (mem r') (nbs r' q) = drop 6 (packet_bytes (mem s) (nbs s p))"
proof -
  define old where "old = packet_bytes (mem s) (nbs s p)"
  define L :: u16 where "L = ucast (nb_len p s) - 6"
  obtain e fl n where new: "packet_bytes (mem r) (nbs r q) = htc_header e fl L 0 n @ drop 6 old"
    and fl: "fl AND HTC_FLAGS_RECV_TRAILER = 0"
    using send_packet_frame [OF run start len(1)] same flag_no_trailer by (metis L_def old_def)
  note h = packet_head [OF new]
  have n: "unat (nb_len p s) = length old" by (simp add: nb_len_single [OF nf] length_packet_bytes old_def)
  have L: "unat L = length old - 6"
    using len n by (simp add: L_def old_def unat_sub_if_size word_size unsigned_ucast_eq take_bit_eq_mod)
  have m: "unat (nb_len q r) = length old"
    using len by (simp add: nb_len_single [OF q(1)] new flip: length_packet_bytes [of "mem r"]) (simp add: old_def)
  have noPad: "recv_trim_padding q L r = Some r"
    using len by (simp add: recv_trim_padding_def word_less_nat_alt unat_payload L m) (simp add: old_def)
  have noTrailer: "recv_trailer q w (nb_data (nbs r q)) L (fst l, 0) r = Some (A_OK, (fst l, 0), r)"
    by (simp add: recv_trailer_def h fl)
  have "\<not> nb_tail (nbs r q) - nb_data (nbs r q) < 6"
    using m len(1) by (simp add: nb_len_single [OF q(1)] old_def word_less_nat_alt)
  then obtain nb where pull: "a_netbuf_pull (nbs r q) 6 = Some nb" by (simp add: a_netbuf_pull_def)
  have short: "\<not> (ucast (nb_len q r) :: u16) < 6"
    using len m by (simp add: word_less_nat_alt unsigned_ucast_eq take_bit_eq_mod old_def)
  have "packet_bytes (mem r) nb = drop 6 old" using packet_bytes_pull [OF pull, of "mem r"] by (simp add: new)
  then show ?thesis
    by (simp add: Htc_ProcessRecvHeader_def Let_def a_netbuf_to_data_def q h noPad noTrailer short on_nb_def pull
        la [unfolded h] old_def)
qed

text \<open>The packet of another driver that received what this one sent.\<close>

definition demo_received :: "unit drv \<Rightarrow> unit drv" where
  "demo_received s = s\<lparr>nbs := (\<lambda>_. netbuf_zero)(0x600 := (nbs s 0x500)\<lparr>trans := trans_zero
     \<lparr>t_lookahead := le32 (mem s 0x1000) (mem s 0x1001) (mem s 0x1002) (mem s 0x1003)\<rparr>\<rparr>)\<rparr>"

theorem htc_frame_roundtrip_witness:
  "\<exists>s' r'. Htc_SendPacket 0x500 demo_send = Some (A_OK, s')
    \<and> Htc_ProcessRecvHeader 0x600 False (9, 9) (demo_received s') = Some (A_OK, (9, 0), r')
    \<and> packet_bytes (mem r') (nbs r' 0x600) = [6, 7, 8]"
proof -
  obtain s' where run: "Htc_SendPacket 0x500 demo_send = Some (A_OK, s')" "nbs s' = nbs demo_send"
    using demo_send_runs by blast
  have nf: "num_frags (nbs demo_send 0x500) = 0" by (simp add: demo_send_packet)
  have len: "6 \<le> length (packet_bytes (mem demo_send) (nbs demo_send 0x500))"
    "length (packet_bytes (mem demo_send) (nbs demo_send 0x500)) < 65536"
    by (simp_all add: demo_send_packet demo_send_bytes)
  have "packet_bytes (mem (demo_received s')) (nbs (demo_received s') 0x600) = packet_bytes (mem s') (nbs s' 0x500)"
    by (simp add: demo_received_def packet_bytes_def)
  moreover have "num_frags (nbs (demo_received s') 0x600) = 0" "nb_data (nbs (demo_received s') 0x600) = 0x1000"
    by (simp_all add: demo_received_def run demo_send_packet)
  ultimately have "\<exists>r'. Htc_ProcessRecvHeader 0x600 False (9, 9) (demo_received s') = Some (A_OK, (fst (9 :: u32, 9 :: u32), 0), r')
    \<and> packet_bytes (mem r') (nbs r' 0x600) = drop 6 (packet_bytes (mem demo_send) (nbs demo_send 0x500))"
    by (intro htc_frame_roundtrip [OF run(1) demo_send_packet(1) nf len]) (simp_all, simp add: demo_received_def)
  with run show ?thesis by (auto simp: demo_send_packet demo_send_bytes)
qed

end
