(* ===== verification/Driver_Wait.thy ===== *)
theory Driver_Wait
  imports Htc_Frames
begin

text \<open>
  How a user task waits for the driver task: \<open>Driver_WaitForCondition\<close>
  (\<^verbatim>\<open>common_src/driver/driver_main.c\<close>) and \<open>Api_DriverAccessCheck\<close>
  (\<^verbatim>\<open>common_src/api_interface/api_ioctl.c\<close>), which every request of the upper layers passes.

  The loops may run forever, so they are partial functions: \<open>None\<close> is a task that stays blocked.
\<close>

abbreviation ACCESS_REQUEST_IOCTL :: u8 where "ACCESS_REQUEST_IOCTL \<equiv> 0"
abbreviation ACCESS_REQUEST_TX :: u8 where "ACCESS_REQUEST_TX \<equiv> 1"
abbreviation ACCESS_REQUEST_RX :: u8 where "ACCESS_REQUEST_RX \<equiv> 2"

definition wait_ticks :: "'e upper \<Rightarrow> u32 \<Rightarrow> u32" where
  "wait_ticks U msec = (let ret = msec * up_alarm_frequency U div 1000 in if ret = 0 then 1 else ret)"

partial_function (option) wait_loop ::
    "'e upper \<Rightarrow> ('e drv \<Rightarrow> bool) \<Rightarrow> bool \<Rightarrow> u32 \<Rightarrow> 'e drv \<Rightarrow> (A_STATUS \<times> 'e drv) option" where
  "wait_loop U cond v ret s =
     (if cond s \<noteq> v then
        (case up_wait_event U ret s of (ok, s) \<Rightarrow>
           if \<not> ok then Some (A_ERROR, s)
           else wait_loop U cond v ret (s\<lparr>userWakeEvent := False\<rparr>))
      else Some (A_OK, s))"

definition Driver_WaitForCondition ::
    "'e upper \<Rightarrow> ('e drv \<Rightarrow> bool) \<Rightarrow> bool \<Rightarrow> u32 \<Rightarrow> 'e drv \<Rightarrow> (A_STATUS \<times> 'e drv) option" where
  "Driver_WaitForCondition U cond v msec s = wait_loop U cond v (wait_ticks U msec) s"

text \<open>\<open>do { DRIVER_WAIT_FOR_CONDITION(...) } while (cond)\<close>\<close>

partial_function (option) wait_until_clear :: "'e upper \<Rightarrow> ('e drv \<Rightarrow> bool) \<Rightarrow> 'e drv \<Rightarrow> 'e drv option" where
  "wait_until_clear U cond s = do {
     (_, s) \<leftarrow> Driver_WaitForCondition U cond False 5000 s;
     if cond s then wait_until_clear U cond s else Some s}"

partial_function (option) Api_DriverAccessCheck ::
    "'e upper \<Rightarrow> bool \<Rightarrow> u8 \<Rightarrow> 'e drv \<Rightarrow> (A_STATUS \<times> 'e drv) option" where
  "Api_DriverAccessCheck U block_allowed request_reason s =
     (if chipDown s \<and> \<not> block_allowed then Some (A_ERROR, s)
      else do {
        (blocked, s) \<leftarrow> (if chipDown s then do {s \<leftarrow> wait_until_clear U chipDown s; Some (True, s)}
                         else Some (False, s));
        if request_reason \<noteq> ACCESS_REQUEST_RX \<and> strrclBlock s \<and> \<not> block_allowed then Some (A_ERROR, s)
        else do {
          (blocked, s) \<leftarrow> (if request_reason \<noteq> ACCESS_REQUEST_RX \<and> strrclBlock s
                           then do {s \<leftarrow> wait_until_clear U strrclBlock s; Some (True, s)}
                           else Some (blocked, s));
          if blocked then Api_DriverAccessCheck U block_allowed request_reason s else Some (A_OK, s)}})"

section \<open>What a caller may rely on\<close>

lemma wait_until_clear_cond:
  assumes "wait_until_clear U cond s = Some s'"
  shows "\<not> cond s'"
proof (rule wait_until_clear.raw_induct [where P = "\<lambda>U cond s y. \<not> cond y", OF _ assms], goal_cases)
  case (1 wait U cond s y)
  from 1(2) show ?case by (auto simp: bind_eq_Some_conv dest: 1(1) split: if_splits)
qed

text \<open>The states in which a request must not be passed on.\<close>

definition access_barred :: "u8 \<Rightarrow> 'e drv \<Rightarrow> bool" where
  "access_barred r s \<longleftrightarrow> chipDown s \<or> r \<noteq> ACCESS_REQUEST_RX \<and> strrclBlock s"

lemma access_waits:
  assumes "Api_DriverAccessCheck U b r s = Some y"
  shows "(fst y = A_OK \<longrightarrow> \<not> access_barred r (snd y)) \<and> (fst y \<noteq> A_OK \<longrightarrow> fst y = A_ERROR \<and> \<not> b)"
proof (rule Api_DriverAccessCheck.raw_induct [where P = "\<lambda>U b r s y. (fst y = A_OK \<longrightarrow> \<not> access_barred r (snd y))
    \<and> (fst y \<noteq> A_OK \<longrightarrow> fst y = A_ERROR \<and> \<not> b)", OF _ assms], goal_cases)
  case (1 chk U b r s y)
  from 1(2) show ?case
    by (auto simp: bind_eq_Some_conv access_barred_def dest!: wait_until_clear_cond
        dest: 1(1) [unfolded access_barred_def] split: if_splits)
qed

lemma access_no_block:
  "Api_DriverAccessCheck U False r s = Some (if access_barred r s then A_ERROR else A_OK, s)"
  by (subst Api_DriverAccessCheck.simps) (auto simp: access_barred_def)

text \<open>C31. Access control. If \<open>Api_DriverAccessCheck\<close> lets a caller pass, the chip is powered and,
  unless the request is a received packet, no store-recall command is in progress, both at the same
  moment, however often the two flags changed while the caller waited. A caller that allows
  blocking is never refused; one that forbids it is refused exactly if one of the conditions fails
  at the call, and nothing has changed then.\<close>

theorem access_granted:
  assumes "Api_DriverAccessCheck U b r s = Some (st, s')"
  shows "(if st = A_OK then \<not> access_barred r s' else st = A_ERROR \<and> \<not> b)
    \<and> (\<not> b \<longrightarrow> s' = s \<and> (st = A_OK \<longleftrightarrow> \<not> access_barred r s))"
  using access_waits [OF assms] access_no_block [of U r s] assms by (cases b) (auto split: if_splits)

section \<open>Waiting ends\<close>

text \<open>A wait makes progress if every time a barred task waits, the measure of what the other tasks
  still have to do goes down.\<close>

definition waits_progress :: "'e upper \<Rightarrow> ('e drv \<Rightarrow> nat) \<Rightarrow> bool" where
  "waits_progress U todo \<longleftrightarrow>
     (\<forall>s n. (chipDown s \<or> strrclBlock s) \<longrightarrow> todo (snd (up_wait_event U n s)) < todo s)
     \<and> (\<forall>s. todo (s\<lparr>userWakeEvent := False\<rparr>) \<le> todo s)"

lemma wait_loop_returns:
  assumes "waits_progress U todo" and cond: "\<And>s. cond s \<Longrightarrow> chipDown s \<or> strrclBlock s"
  shows "\<exists>st s'. wait_loop U cond False n s = Some (st, s') \<and> todo s' \<le> todo s \<and> (cond s \<longrightarrow> todo s' < todo s)"
proof (induction "todo s" arbitrary: s rule: less_induct)
  case less
  show ?case
  proof (cases "cond s")
    case False
    then show ?thesis by (subst wait_loop.simps) simp
  next
    case True
    obtain ok s1 where w: "up_wait_event U n s = (ok, s1)" by fastforce
    let ?s2 = "s1\<lparr>userWakeEvent := False\<rparr>"
    have lt: "todo s1 < todo s" "todo ?s2 \<le> todo s1"
      using assms(1) cond [OF True] w unfolding waits_progress_def by (metis snd_conv, blast)
    obtain st s3 where "wait_loop U cond False n ?s2 = Some (st, s3)" "todo s3 \<le> todo ?s2"
      using less [of ?s2] lt by auto
    with lt True w show ?thesis by (subst wait_loop.simps) auto
  qed
qed

lemma wait_until_clear_returns:
  assumes "waits_progress U todo" and cond: "\<And>s. cond s \<Longrightarrow> chipDown s \<or> strrclBlock s"
  shows "\<exists>s'. wait_until_clear U cond s = Some s' \<and> todo s' \<le> todo s \<and> (cond s \<longrightarrow> todo s' < todo s)"
proof (induction "todo s" arbitrary: s rule: less_induct)
  case less
  obtain st s1 where 1: "wait_loop U cond False (wait_ticks U 5000) s = Some (st, s1)" "todo s1 \<le> todo s"
    "cond s \<longrightarrow> todo s1 < todo s"
    using wait_loop_returns [OF assms] by metis
  show ?case
  proof (cases "cond s1")
    case False
    with 1 show ?thesis by (subst wait_until_clear.simps) (simp add: Driver_WaitForCondition_def)
  next
    case True
    have "cond s"
    proof (rule ccontr)
      assume "\<not> cond s"
      then have "wait_loop U cond False (wait_ticks U 5000) s = Some (A_OK, s)" by (subst wait_loop.simps) simp
      with 1 True \<open>\<not> cond s\<close> show False by simp
    qed
    with 1 less [of s1] obtain s2 where "wait_until_clear U cond s1 = Some s2" "todo s2 \<le> todo s1" by auto
    with 1 True \<open>cond s\<close> show ?thesis by (subst wait_until_clear.simps) (auto simp: Driver_WaitForCondition_def)
  qed
qed

text \<open>C32. Waiting ends. If every wait of a barred task lets the other tasks make progress, then a
  caller that allows blocking gets through: \<open>Api_DriverAccessCheck\<close> returns, and returns \<open>A_OK\<close>.
  In particular nothing is lost between the two nested loops, the inner one for a flag and the
  outer one that starts over after every wait.\<close>

theorem access_returns:
  assumes "waits_progress U todo"
  shows "\<exists>s'. Api_DriverAccessCheck U True r s = Some (A_OK, s')"
proof (induction "todo s" arbitrary: s rule: less_induct)
  case less
  obtain s1 where 1: "wait_until_clear U chipDown s = Some s1" "todo s1 \<le> todo s" "chipDown s \<longrightarrow> todo s1 < todo s"
    using wait_until_clear_returns [OF assms, of chipDown s] by auto
  obtain s2 where 2: "wait_until_clear U strrclBlock s1 = Some s2" "strrclBlock s1 \<longrightarrow> todo s2 < todo s1"
    "todo s2 \<le> todo s1"
    using wait_until_clear_returns [OF assms, of strrclBlock s1] by auto
  obtain s3 where 3: "wait_until_clear U strrclBlock s = Some s3" "strrclBlock s \<longrightarrow> todo s3 < todo s"
    using wait_until_clear_returns [OF assms, of strrclBlock s] by auto
  have again: "\<exists>s'. Api_DriverAccessCheck U True r t = Some (A_OK, s')" if "todo t < todo s" for t
    using less that by blast
  show ?case
    using 1 2 3 again [of s1] again [of s2] again [of s3]
    by (subst Api_DriverAccessCheck.simps) auto
qed

section \<open>Witnesses\<close>

text \<open>Other tasks that clear one of the two flags each time the task waits.\<close>

definition demo_upper :: "'e upper" where
  "demo_upper = \<lparr>up_unblock = (\<lambda>_ s. s), up_wmi_control_rx = (\<lambda>_ s. Some s), up_deliver_frame = (\<lambda>_ s. Some s),
     up_async = (\<lambda>_ s. Some s),
     up_wait_event = (\<lambda>_ s. (True, if chipDown s then s\<lparr>chipDown := False\<rparr> else s\<lparr>strrclBlock := False\<rparr>)),
     up_wait_driver_event = (\<lambda>_ s. (True, s\<lparr>driverWakeEvent := False\<rparr>)), up_alarm_frequency = 200, up_network_past = (\<lambda>_ _. 0)\<rparr>"

definition demo_todo :: "'e drv \<Rightarrow> nat" where
  "demo_todo s = (if chipDown s then 1 else 0) + (if strrclBlock s then 1 else 0)"

lemma demo_waits: "waits_progress demo_upper demo_todo"
  by (simp add: waits_progress_def demo_upper_def demo_todo_def)

definition demo_barred :: "unit drv" where
  "demo_barred = (drv_zero ())\<lparr>chipDown := True, strrclBlock := True\<rparr>"

theorem access_returns_witness:
  "\<exists>s'. Api_DriverAccessCheck demo_upper True ACCESS_REQUEST_TX demo_barred = Some (A_OK, s')"
  by (rule access_returns [OF demo_waits])

theorem access_granted_witness:
  "Api_DriverAccessCheck demo_upper False ACCESS_REQUEST_TX demo_barred = Some (A_ERROR, demo_barred)"
proof -
  have "access_barred ACCESS_REQUEST_TX demo_barred" by (simp add: access_barred_def demo_barred_def)
  moreover obtain st s' where run: "Api_DriverAccessCheck demo_upper False ACCESS_REQUEST_TX demo_barred = Some (st, s')"
    by (simp add: access_no_block)
  ultimately show ?thesis using access_granted [OF run] by (auto split: if_splits)
qed

end
