(* ===== verification/Wmi_Data.thy ===== *)
theory Wmi_Data
  imports Htc_Frames
begin

text \<open>
  The data path of the WMI layer, \<^verbatim>\<open>common_src/wmi/wmi.c\<close>: the \<open>WMI_DATA_HDR\<close> of
  \<^verbatim>\<open>include/wmi.h\<close> and its field macros, the header and meta data that are put in front of a frame
  that is sent, the choice of its priority, and the conversions between DIX and 802.3 frames.

  Headers are packed structs in the packet's memory: a record of the fields with the bytes it
  stands for. The \<open>wmi_t\<close> context is not used by these functions.
\<close>

section \<open>The data header\<close>

record WMI_DATA_HDR =
  dh_rssi :: u8
  dh_info :: u8
  dh_info2 :: u16
  dh_info3 :: u16

abbreviation sizeof_WMI_DATA_HDR :: u32 where "sizeof_WMI_DATA_HDR \<equiv> 6"
abbreviation sizeof_ATH_MAC_HDR :: u32 where "sizeof_ATH_MAC_HDR \<equiv> 14"
abbreviation sizeof_ATH_LLC_SNAP_HDR :: u32 where "sizeof_ATH_LLC_SNAP_HDR \<equiv> 8"
abbreviation WMI_MAX_TX_META_SZ :: u32 where "WMI_MAX_TX_META_SZ \<equiv> 12"
abbreviation WMI_META_VERSION_3 :: u8 where "WMI_META_VERSION_3 \<equiv> 3"
abbreviation WMI_META_VERSION_5 :: u8 where "WMI_META_VERSION_5 \<equiv> 5"
abbreviation DATA_MSGTYPE :: u8 where "DATA_MSGTYPE \<equiv> 0"
abbreviation WMI_DATA_HDR_DATA_TYPE_802_3 :: u8 where "WMI_DATA_HDR_DATA_TYPE_802_3 \<equiv> 0"
abbreviation WMI_DATA_HDR_DATA_TYPE_802_11 :: u8 where "WMI_DATA_HDR_DATA_TYPE_802_11 \<equiv> 1"
abbreviation WMI_DATA_HDR_DATA_TYPE_ACL :: u8 where "WMI_DATA_HDR_DATA_TYPE_ACL \<equiv> 2"

definition data_hdr_at :: "memory \<Rightarrow> ptr \<Rightarrow> WMI_DATA_HDR" where
  "data_hdr_at m a = \<lparr>dh_rssi = m a, dh_info = m (a + 1), dh_info2 = mem16 m (a + 2), dh_info3 = mem16 m (a + 4)\<rparr>"

definition data_hdr_bytes :: "WMI_DATA_HDR \<Rightarrow> u8 list" where
  "data_hdr_bytes h = [dh_rssi h, dh_info h] @ le16_bytes_of (dh_info2 h) @ le16_bytes_of (dh_info3 h)"

definition WMI_DATA_HDR_SET_MSG_TYPE :: "u8 \<Rightarrow> WMI_DATA_HDR \<Rightarrow> WMI_DATA_HDR" where
  "WMI_DATA_HDR_SET_MSG_TYPE t h = h\<lparr>dh_info := (dh_info h AND NOT 3) OR t\<rparr>"

definition WMI_DATA_HDR_SET_MORE_BIT :: "WMI_DATA_HDR \<Rightarrow> WMI_DATA_HDR" where
  "WMI_DATA_HDR_SET_MORE_BIT h = h\<lparr>dh_info := dh_info h OR push_bit 5 1\<rparr>"

definition WMI_DATA_HDR_SET_UP :: "u8 \<Rightarrow> WMI_DATA_HDR \<Rightarrow> WMI_DATA_HDR" where
  "WMI_DATA_HDR_SET_UP p h = h\<lparr>dh_info := (dh_info h AND NOT (push_bit 2 7)) OR push_bit 2 p\<rparr>"

definition WMI_DATA_HDR_GET_UP :: "WMI_DATA_HDR \<Rightarrow> u8" where
  "WMI_DATA_HDR_GET_UP h = drop_bit 2 (dh_info h) AND 7"

definition WMI_DATA_HDR_SET_DATA_TYPE :: "u8 \<Rightarrow> WMI_DATA_HDR \<Rightarrow> WMI_DATA_HDR" where
  "WMI_DATA_HDR_SET_DATA_TYPE p h = h\<lparr>dh_info := (dh_info h AND NOT (push_bit 6 3)) OR push_bit 6 p\<rparr>"

definition WMI_DATA_HDR_GET_DATA_TYPE :: "WMI_DATA_HDR \<Rightarrow> u8" where
  "WMI_DATA_HDR_GET_DATA_TYPE h = drop_bit 6 (dh_info h) AND 3"

definition WMI_DATA_HDR_GET_DOT11 :: "WMI_DATA_HDR \<Rightarrow> bool" where
  "WMI_DATA_HDR_GET_DOT11 h \<longleftrightarrow> WMI_DATA_HDR_GET_DATA_TYPE h = WMI_DATA_HDR_DATA_TYPE_802_11"

definition WMI_DATA_HDR_IS_AMSDU :: "WMI_DATA_HDR \<Rightarrow> u16" where
  "WMI_DATA_HDR_IS_AMSDU h = drop_bit 12 (dh_info2 h) AND 1"

definition WMI_DATA_HDR_SET_META :: "u8 \<Rightarrow> WMI_DATA_HDR \<Rightarrow> WMI_DATA_HDR" where
  "WMI_DATA_HDR_SET_META v h = h\<lparr>dh_info2 := (dh_info2 h AND NOT (push_bit 13 7)) OR push_bit 13 (ucast v)\<rparr>"

definition WMI_DATA_HDR_GET_META :: "WMI_DATA_HDR \<Rightarrow> u16" where
  "WMI_DATA_HDR_GET_META h = drop_bit 13 (dh_info2 h) AND 7"

definition WMI_DATA_HDR_GET_DEVID :: "WMI_DATA_HDR \<Rightarrow> u16" where
  "WMI_DATA_HDR_GET_DEVID h = dh_info3 h AND 0xF"

definition data_hdr_zero :: WMI_DATA_HDR where
  "data_hdr_zero = \<lparr>dh_rssi = 0, dh_info = 0, dh_info2 = 0, dh_info3 = 0\<rparr>"

section \<open>Operations\<close>

text \<open>The local copy of the meta data: 11 bytes for version 3, one byte for version 5.\<close>

definition wmi_meta_add :: "ptr \<Rightarrow> u8 \<Rightarrow> ptr \<Rightarrow> 'e drv \<Rightarrow> (A_STATUS \<times> u8 \<times> 'e drv) option" where
  "wmi_meta_add osbuf version pTxMetaS s =
     (if version = WMI_META_VERSION_3 then do {
        A_ASSERT (osbuf \<noteq> NULL);
        s \<leftarrow> on_nb osbuf (\<lambda>nb. a_netbuf_push nb WMI_MAX_TX_META_SZ) s;
        Some (A_OK, WMI_META_VERSION_3, s\<lparr>mem := A_MEMCPY (mem s) (a_netbuf_to_data (nbs s osbuf)) pTxMetaS 11\<rparr>)}
      else if version = WMI_META_VERSION_5 then do {
        A_ASSERT (osbuf \<noteq> NULL);
        s \<leftarrow> on_nb osbuf (\<lambda>nb. a_netbuf_push nb WMI_MAX_TX_META_SZ) s;
        Some (A_OK, WMI_META_VERSION_5, s\<lparr>mem := A_MEMCPY (mem s) (a_netbuf_to_data (nbs s osbuf)) pTxMetaS 1\<rparr>)}
      else Some (A_OK, version, s))"

definition wmi_data_hdr_add ::
    "ptr \<Rightarrow> u8 \<Rightarrow> bool \<Rightarrow> u8 \<Rightarrow> u8 \<Rightarrow> ptr \<Rightarrow> 'e drv \<Rightarrow> (A_STATUS \<times> 'e drv) option" where
  "wmi_data_hdr_add osbuf msgType bMoreData data_type metaVersion pTxMetaS s = do {
     A_ASSERT (osbuf \<noteq> NULL);
     (status, metaVersion, s) \<leftarrow> wmi_meta_add osbuf metaVersion pTxMetaS s;
     if status \<noteq> A_OK then Some (status, s)
     else do {
       s \<leftarrow> on_nb osbuf (\<lambda>nb. a_netbuf_push nb sizeof_WMI_DATA_HDR) s;
       let h = WMI_DATA_HDR_SET_MSG_TYPE msgType data_hdr_zero;
           h = WMI_DATA_HDR_SET_DATA_TYPE data_type h;
           h = (if bMoreData then WMI_DATA_HDR_SET_MORE_BIT h else h);
           h = WMI_DATA_HDR_SET_META metaVersion h
       in Some (status, s\<lparr>mem := mem_put (mem s) (a_netbuf_to_data (nbs s osbuf)) (data_hdr_bytes h)\<rparr>)}}"

definition wmi_data_hdr_remove :: "ptr \<Rightarrow> 'e drv \<Rightarrow> (A_STATUS \<times> 'e drv) option" where
  "wmi_data_hdr_remove osbuf s = do {
     A_ASSERT (osbuf \<noteq> NULL);
     s \<leftarrow> on_nb osbuf (\<lambda>nb. a_netbuf_pull nb sizeof_WMI_DATA_HDR) s;
     Some (A_OK, s)}"

abbreviation WMM_AC_BE :: u8 where "WMM_AC_BE \<equiv> 0"
abbreviation WMM_AC_BK :: u8 where "WMM_AC_BK \<equiv> 1"
abbreviation WMM_AC_VI :: u8 where "WMM_AC_VI \<equiv> 2"
abbreviation WMM_AC_VO :: u8 where "WMM_AC_VO \<equiv> 3"

definition up_to_ac :: "u8 list" where
  "up_to_ac = [WMM_AC_BE, WMM_AC_BK, WMM_AC_BK, WMM_AC_BE, WMM_AC_VI, WMM_AC_VI, WMM_AC_VO, WMM_AC_VO]"

text \<open>The priority of an IP packet; \<open>ip_tos\<close> is its second byte.\<close>

definition wmi_determine_userPriority :: "memory \<Rightarrow> ptr \<Rightarrow> u32 \<Rightarrow> u8" where
  "wmi_determine_userPriority m pkt layer2Pri = (
     let ipPri = drop_bit 5 (m (pkt + 1)); ipPri = ipPri AND 7 in
     if layer2Pri AND 7 > ucast ipPri then ucast layer2Pri AND 7 else ipPri)"

definition wmi_implicit_create_pstream :: "ptr \<Rightarrow> u32 \<Rightarrow> bool \<Rightarrow> 'e drv \<Rightarrow> (u8 \<times> 'e drv) option" where
  "wmi_implicit_create_pstream osbuf layer2Priority wmm s = do {
     A_ASSERT (osbuf \<noteq> NULL);
     let datap = a_netbuf_to_data (nbs s osbuf);
         dtHdr = data_hdr_at (mem s) datap;
         metasize = (if WMI_DATA_HDR_GET_META dtHdr \<noteq> 0 then WMI_MAX_TX_META_SZ else 0);
         userPriority =
           (if \<not> wmm then 0
            else
              let llcHdr = datap + sizeof_WMI_DATA_HDR + metasize + sizeof_ATH_MAC_HDR in
              if mem16 (mem s) (llcHdr + 6) = swap16 0x0800
              then wmi_determine_userPriority (mem s) (llcHdr + sizeof_ATH_LLC_SNAP_HDR) layer2Priority
              else ucast layer2Priority AND 7);
         trafficClass = up_to_ac ! unat (userPriority AND 7)
     in Some (trafficClass, s\<lparr>mem := (mem s)(datap + 1 := dh_info (WMI_DATA_HDR_SET_UP userPriority dtHdr))\<rparr>)}"

definition wmi_dix_2_dot3 :: "ptr \<Rightarrow> 'e drv \<Rightarrow> (A_STATUS \<times> 'e drv) option" where
  "wmi_dix_2_dot3 osbuf s = do {
     A_ASSERT (osbuf \<noteq> NULL);
     if a_netbuf_headroom (nbs s osbuf) < sizeof_ATH_LLC_SNAP_HDR + sizeof_WMI_DATA_HDR then Some (A_NO_MEMORY, s)
     else
       let datap = a_netbuf_to_data (nbs s osbuf); typeorlen = mem16 (mem s) (datap + 12) in
       if \<not> swap16 typeorlen \<ge> 0x0600 then Some (A_OK, s)
       else
         let macHdr = mem_bytes (mem s) datap 6 @ mem_bytes (mem s) (datap + 6) 6 @
               le16_bytes_of (swap16 (ucast (nb_len osbuf s - sizeof_ATH_MAC_HDR + sizeof_ATH_LLC_SNAP_HDR)))
         in do {
           s \<leftarrow> on_nb osbuf (\<lambda>nb. a_netbuf_push nb sizeof_ATH_LLC_SNAP_HDR) s;
           let datap = a_netbuf_to_data (nbs s osbuf);
               m = mem_put (mem s) datap macHdr;
               llcHdr = datap + sizeof_ATH_MAC_HDR
           in Some (A_OK, s\<lparr>mem := mem_put m llcHdr ([0xAA, 0xAA, 0x03, 0, 0, 0] @ le16_bytes_of typeorlen)\<rparr>)}}"

definition wmi_dot3_2_dix :: "ptr \<Rightarrow> 'e drv \<Rightarrow> (A_STATUS \<times> 'e drv) option" where
  "wmi_dot3_2_dix osbuf s = do {
     A_ASSERT (osbuf \<noteq> NULL);
     let datap = a_netbuf_to_data (nbs s osbuf);
         macHdr = mem_bytes (mem s) datap 12 @ le16_bytes_of (mem16 (mem s) (datap + sizeof_ATH_MAC_HDR + 6))
     in do {
       s \<leftarrow> on_nb osbuf (\<lambda>nb. a_netbuf_pull nb sizeof_ATH_LLC_SNAP_HDR) s;
       Some (A_OK, s\<lparr>mem := mem_put (mem s) (a_netbuf_to_data (nbs s osbuf)) macHdr\<rparr>)}}"

end
