(* ===== verification/Wmi_Frames.thy ===== *)
theory Wmi_Frames
  imports Wmi_Data
begin

text \<open>
  What the WMI data path does to the bytes of a frame: the two header conversions are inverse to
  each other, and the header that is put in front of a frame carries the priority the frame's own
  bytes ask for.
\<close>

section \<open>Bytes in front of a packet and inside it\<close>

lemma push_bytes:
  assumes "nb_wf nb" "a_netbuf_push nb n = Some nb'"
  shows "packet_bytes m nb' = mem_bytes m (nb_data nb') (unat n) @ packet_bytes m nb"
proof -
  from assms(2) have nb': "nb' = nb\<lparr>nb_data := nb_data nb - n\<rparr>" and room: "n \<le> nb_data nb - nb_head nb"
    by (auto simp: a_netbuf_push_def bind_eq_Some_conv not_less)
  have d: "unat (nb_data nb - n) = unat (nb_data nb) - unat n" "unat n \<le> unat (nb_data nb)"
     "nb_data nb - n \<le> nb_data nb" "nb_data nb \<le> nb_tail nb"
    using assms(1) word_minus_le [OF _ room] by (auto simp: nb_wf_def)
  have le: "nb_data nb - n \<le> nb_tail nb" using d(3,4) by simp
  have "unat (nb_tail nb - (nb_data nb - n)) = unat n + unat (nb_tail nb - nb_data nb)"
    using d by (simp only: unat_diff_word [OF le] unat_diff_word [OF d(4)]) (simp add: word_le_nat_alt)
  then show ?thesis by (simp add: packet_bytes_def nb' mem_bytes_add)
qed

lemma push_pull:
  assumes "nb_wf nb" "a_netbuf_push nb n = Some nb'"
  shows "a_netbuf_pull nb' n = Some nb"
proof -
  have "unat n \<le> length (packet_bytes m nb')" for m using push_bytes [OF assms, of m] by simp
  then have "unat n \<le> unat (nb_tail nb' - nb_data nb')" by (simp add: length_packet_bytes)
  moreover have "nb' = nb\<lparr>nb_data := nb_data nb - n\<rparr>"
    using assms(2) by (auto simp: a_netbuf_push_def A_ASSERT_bind_Some)
  ultimately show ?thesis by (simp add: a_netbuf_pull_def A_ASSERT_bind_Some word_less_nat_alt)
qed

lemma put_front:
  "length bs \<le> length (packet_bytes m nb) \<Longrightarrow>
   packet_bytes (mem_put m (nb_data nb) bs) nb = bs @ drop (length bs) (packet_bytes m nb)"
  using unat_le_2p32 [of "nb_tail nb - nb_data nb"] by (simp add: packet_bytes_def mem_bytes_put_prefix)

lemma put_inside:
  assumes "nb_wf nb" "k + length bs \<le> length (packet_bytes m nb)"
  shows "packet_bytes (mem_put m (nb_data nb + of_nat k) bs) nb
    = take k (packet_bytes m nb) @ bs @ drop (k + length bs) (packet_bytes m nb)"
proof -
  define n where "n = length (packet_bytes m nb)"
  have n: "n = unat (nb_tail nb) - unat (nb_data nb)" "unat (nb_data nb) + n \<le> 2 ^ 32"
    using assms(1) unat_le_2p32 [of "nb_tail nb"]
    by (auto simp: n_def length_packet_bytes unat_diff_word nb_wf_def word_le_nat_alt)
  have k: "unat (nb_data nb + of_nat k) = unat (nb_data nb) + k" if "k < n"
    using n that by (intro unat_offset) simp
  have split: "packet_bytes m' nb = mem_bytes m' (nb_data nb) k @ mem_bytes m' (nb_data nb + of_nat k) (n - k)" for m'
    using assms(2) mem_bytes_add [of m' "nb_data nb" k "n - k"] by (simp add: packet_bytes_def n_def)
  show ?thesis
  proof (cases bs)
    case Nil
    then show ?thesis by simp
  next
    case (Cons b cs)
    then have lt: "k < n" using assms(2) by (simp add: n_def)
    have 1: "mem_bytes (mem_put m (nb_data nb + of_nat k) bs) (nb_data nb) k = mem_bytes m (nb_data nb) k"
      using assms(2) n k [OF lt] by (intro mem_bytes_mem_put_before) (simp_all add: n_def)
    have 2: "mem_bytes (mem_put m (nb_data nb + of_nat k) bs) (nb_data nb + of_nat k) (n - k)
        = bs @ drop (length bs) (mem_bytes m (nb_data nb + of_nat k) (n - k))"
      using assms(2) n by (intro mem_bytes_put_prefix) (simp_all add: n_def)
    show ?thesis unfolding split 1 2 using lt by (simp add: ac_simps)
  qed
qed

lemma packet_slice:
  assumes "k + n \<le> length (packet_bytes m nb)"
  shows "mem_bytes m (nb_data nb + of_nat k) n = take n (drop k (packet_bytes m nb))"
  by (rule nth_equalityI) (use assms in \<open>auto simp: packet_bytes_def algebra_simps mem_bytes_def\<close>)

lemma packet_mem16:
  assumes "k + 2 \<le> length (packet_bytes m nb)"
  shows "mem16 m (nb_data nb + of_nat k) = le16 (packet_bytes m nb ! k) (packet_bytes m nb ! Suc k)"
  using assms packet_byte [of k m nb] packet_byte [of "Suc k" m nb] by (simp add: mem16_def algebra_simps)

lemma le16_bytes_of_le16 [simp]: "le16_bytes_of (le16 a b) = [a, b]"
  by (simp add: le16_bytes_of_def)

lemma length_le16_bytes_of [simp]: "length (le16_bytes_of w) = 2"
  by (simp add: le16_bytes_of_def)

lemma length_data_hdr_bytes [simp]: "length (data_hdr_bytes h) = 6"
  by (simp add: data_hdr_bytes_def)

lemma take_drop_two: "k + 2 \<le> length xs \<Longrightarrow> xs ! k # xs ! Suc k # drop (k + 2) xs = drop k xs"
  by (metis Cons_nth_drop_Suc Suc_le_lessD add_2_eq_Suc' less_SucI not_less_eq_eq Suc_leD)

section \<open>DIX and 802.3\<close>

text \<open>C21. The conversions between DIX and 802.3 frames are inverse to each other. Let
  \<open>wmi_dix_2_dot3\<close> accept a DIX frame (its type field is an EtherType). The packet then starts with
  the two addresses, the length of the rest as a big-endian number, and the LLC/SNAP header, and
  goes on with the old type field and payload; \<open>wmi_dot3_2_dix\<close> then restores the object and
  every byte of the frame.\<close>

theorem dix_dot3_roundtrip:
  assumes run: "wmi_dix_2_dot3 p s = Some (A_OK, s1)" and wf: "nb_wf (nbs s p)"
    and len: "14 \<le> length (packet_bytes (mem s) (nbs s p))"
    and dix: "0x600 \<le> le16 (packet_bytes (mem s) (nbs s p) ! 13) (packet_bytes (mem s) (nbs s p) ! 12)"
  defines "old \<equiv> packet_bytes (mem s) (nbs s p)" and "n \<equiv> (ucast (nb_len p s - 6) :: u16)"
  shows "packet_bytes (mem s1) (nbs s1 p)
      = take 12 old @ [byte_of 1 n, byte_of 0 n] @ [0xAA, 0xAA, 0x03, 0, 0, 0] @ drop 12 old
    \<and> (\<exists>s2. wmi_dot3_2_dix p s1 = Some (A_OK, s2) \<and> nbs s2 = nbs s \<and> packet_bytes (mem s2) (nbs s2 p) = old)"
proof -
  let ?d = "nb_data (nbs s p)"
  have ty: "mem16 (mem s) (?d + 12) = le16 (old ! 12) (old ! 13)"
    using packet_mem16 [of 12 "mem s" "nbs s p"] len by (simp add: old_def)
  have adr: "mem_bytes (mem s) ?d 6 = take 6 old" "mem_bytes (mem s) (?d + 6) 6 = take 6 (drop 6 old)"
    using packet_slice [of 0 6 "mem s" "nbs s p"] packet_slice [of 6 6 "mem s" "nbs s p"] len by (simp_all add: old_def)
  have mac: "take 6 old @ take 6 (drop 6 old) = take 12 old" using take_add [of 6 6 old] by simp
  define hdr where "hdr = take 12 old @ [byte_of 1 n, byte_of 0 n]"
  define llc where "llc = [0xAA, 0xAA, 0x03, 0, 0, 0, old ! 12, old ! 13]"
  have L: "le16_bytes_of (swap16 (ucast (nb_len p s - 14 + 8))) = [byte_of 1 n, byte_of 0 n]"
    by (simp add: swap16_eq n_def algebra_simps)
  have [simp]: "length hdr = 14" using len by (simp add: hdr_def old_def)
  have nz: "p \<noteq> NULL" using run by (auto simp: wmi_dix_2_dot3_def A_ASSERT_bind_Some)
  obtain nb1 where push: "a_netbuf_push (nbs s p) 8 = Some nb1"
    and s1: "s1 = s\<lparr>nbs := (nbs s)(p := nb1), mem := mem_put (mem_put (mem s) (nb_data nb1) hdr) (nb_data nb1 + 14) llc\<rparr>"
    using run dix by (auto simp: wmi_dix_2_dot3_def A_ASSERT_bind_Some a_netbuf_to_data_def Let_def ty swap16_eq
        old_def [symmetric] n_def bind_eq_Some_conv on_nb_Some adr L hdr_def llc_def mac [symmetric] split: if_splits)
  have wf1: "nb_wf nb1" using a_netbuf_push_wf [OF wf push] .
  obtain room where room: "length room = 8" "packet_bytes (mem s) nb1 = room @ old"
    using that [of "mem_bytes (mem s) (nb_data nb1) 8"] push_bytes [OF wf push, of "mem s"] by (simp add: old_def)
  have pb1: "packet_bytes (mem_put (mem s) (nb_data nb1) hdr) nb1 = hdr @ drop 6 old"
    using len by (subst put_front) (simp_all add: room old_def)
  have pb2: "packet_bytes (mem s1) nb1 = hdr @ llc @ drop 14 old"
    using put_inside [of nb1 14 llc "mem_put (mem s) (nb_data nb1) hdr", unfolded pb1] wf1 len
    by (simp add: s1 llc_def old_def)
  have llc: "llc @ drop 14 old = [0xAA, 0xAA, 0x03, 0, 0, 0] @ drop 12 old"
    using take_drop_two [of 12 old] len by (simp add: llc_def old_def)
  have pull: "a_netbuf_pull nb1 8 = Some (nbs s p)"
    by (rule push_pull [OF wf push])
  let ?nb = "nbs s p"
  have d: "nb_data nb1 + 8 = ?d" using push by (auto simp: a_netbuf_push_def A_ASSERT_bind_Some)
  have mac1: "mem_bytes (mem s1) (nb_data nb1) 12 @ le16_bytes_of (mem16 (mem s1) (20 + nb_data nb1)) = take 14 old"
  proof -
    have "mem_bytes (mem s1) (nb_data nb1) 12 = take 12 old"
      using packet_slice [of 0 12 "mem s1" nb1, unfolded pb2] len by (simp add: hdr_def old_def)
    moreover have "mem16 (mem s1) (20 + nb_data nb1) = le16 (old ! 12) (old ! 13)"
      using packet_mem16 [of 20 "mem s1" nb1, unfolded pb2] by (simp add: llc_def nth_append add.commute)
    moreover have "take 14 old = take 12 old @ [old ! 12, old ! 13]"
      using len take_add [of 12 2 old] by (simp add: old_def numeral_2_eq_2 take_Suc_conv_app_nth drop_Suc nth_tl hd_drop_conv_nth)
    ultimately show ?thesis by simp
  qed
  have "packet_bytes (mem s1) ?nb = drop 8 (hdr @ llc @ drop 14 old)"
    using packet_bytes_pull [OF pull, of "mem s1"] pb2 by simp
  then have "packet_bytes (mem_put (mem s1) ?d (take 14 old)) ?nb = old"
    using len by (subst put_front) (simp_all add: llc_def old_def [symmetric])
  moreover have "wmi_dot3_2_dix p s1 = Some (A_OK, s1\<lparr>nbs := nbs s, mem := mem_put (mem s1) ?d (take 14 old)\<rparr>)"
    using nz mac1 by (simp add: wmi_dot3_2_dix_def a_netbuf_to_data_def s1 on_nb_def pull Let_def)
  ultimately show ?thesis using pb2 llc by (simp add: s1 hdr_def)
qed

section \<open>Fields of the data header\<close>

lemma get_set_up: "p AND 7 = p \<Longrightarrow> WMI_DATA_HDR_GET_UP (WMI_DATA_HDR_SET_UP p h) = p"
proof -
  assume p: "p AND 7 = p"
  have "drop_bit 2 ((dh_info h AND NOT (push_bit 2 7)) OR push_bit 2 p) AND 7 = p AND 7"
    unfolding mask_eq_exp_minus_1 [of 3, where 'a = "8 word", simplified, symmetric]
    by (rule bit_word_eqI) (auto simp: bit_simps)
  with p show ?thesis by (simp add: WMI_DATA_HDR_GET_UP_def WMI_DATA_HDR_SET_UP_def)
qed

lemma set_up_data_type:
  assumes "p AND 7 = p"
  shows "WMI_DATA_HDR_GET_DATA_TYPE (WMI_DATA_HDR_SET_UP p h) = WMI_DATA_HDR_GET_DATA_TYPE h"
proof -
  have "drop_bit 6 ((i AND NOT (push_bit 2 7)) OR push_bit 2 (p AND 7)) AND 3 = drop_bit 6 i AND 3" for i :: u8
    unfolding mask_eq_exp_minus_1 [of 3, where 'a = "8 word", simplified, symmetric]
      mask_eq_exp_minus_1 [of 2, where 'a = "8 word", simplified, symmetric]
    by (rule bit_word_eqI) (auto simp: bit_simps)
  with assms show ?thesis by (simp add: WMI_DATA_HDR_GET_DATA_TYPE_def WMI_DATA_HDR_SET_UP_def)
qed

lemma set_up_meta: "WMI_DATA_HDR_GET_META (WMI_DATA_HDR_SET_UP p h) = WMI_DATA_HDR_GET_META h"
  by (simp add: WMI_DATA_HDR_GET_META_def WMI_DATA_HDR_SET_UP_def)

lemma get_set_data_type: "t AND 3 = t \<Longrightarrow> WMI_DATA_HDR_GET_DATA_TYPE (WMI_DATA_HDR_SET_DATA_TYPE t h) = t"
proof -
  assume t: "t AND 3 = t"
  have "drop_bit 6 ((dh_info h AND NOT (push_bit 6 3)) OR push_bit 6 t) AND 3 = t AND 3"
    unfolding mask_eq_exp_minus_1 [of 2, where 'a = "8 word", simplified, symmetric]
    by (rule bit_word_eqI) (auto simp: bit_simps)
  with t show ?thesis by (simp add: WMI_DATA_HDR_GET_DATA_TYPE_def WMI_DATA_HDR_SET_DATA_TYPE_def)
qed

lemma get_set_meta: "v AND 7 = v \<Longrightarrow> WMI_DATA_HDR_GET_META (WMI_DATA_HDR_SET_META v h) = ucast v"
proof -
  assume v: "v AND 7 = v"
  have "drop_bit 13 ((dh_info2 h AND NOT (push_bit 13 7)) OR push_bit 13 (ucast v)) AND 7 = (ucast (v AND 7) :: u16)"
    unfolding mask_eq_exp_minus_1 [of 3, where 'a = "8 word", simplified, symmetric]
      mask_eq_exp_minus_1 [of 3, where 'a = "16 word", simplified, symmetric]
    by (rule bit_word_eqI) (auto simp: bit_simps)
  with v show ?thesis by (simp add: WMI_DATA_HDR_GET_META_def WMI_DATA_HDR_SET_META_def)
qed

lemma set_more_data_type:
  "WMI_DATA_HDR_GET_DATA_TYPE (WMI_DATA_HDR_SET_MORE_BIT h) = WMI_DATA_HDR_GET_DATA_TYPE h"
proof -
  have "drop_bit 6 (i OR push_bit 5 1) AND 3 = drop_bit 6 i AND 3" for i :: u8
    by (rule bit_word_eqI) (auto simp: bit_simps)
  then show ?thesis by (simp add: WMI_DATA_HDR_GET_DATA_TYPE_def WMI_DATA_HDR_SET_MORE_BIT_def)
qed

lemma set_meta_data_type:
  "WMI_DATA_HDR_GET_DATA_TYPE (WMI_DATA_HDR_SET_META v h) = WMI_DATA_HDR_GET_DATA_TYPE h"
  by (simp add: WMI_DATA_HDR_GET_DATA_TYPE_def WMI_DATA_HDR_SET_META_def)

lemmas data_hdr_fields = get_set_up set_up_data_type set_up_meta get_set_data_type get_set_meta
  set_more_data_type set_meta_data_type

lemma data_hdr_at_bytes:
  assumes "packet_bytes m nb = data_hdr_bytes h @ xs"
  shows "data_hdr_at m (nb_data nb) = h"
proof -
  have "packet_bytes m nb ! i = data_hdr_bytes h ! i" if "i < 6" for i
    using that by (simp add: assms nth_append)
  then have "m (nb_data nb + of_nat i) = data_hdr_bytes h ! i" if "i < 6" for i
    using that packet_byte [of i m nb] by (simp add: assms)
  from this [of 0] this [of 1] this [of 2] this [of 3] this [of 4] this [of 5]
  show ?thesis by (simp add: data_hdr_at_def mem16_def data_hdr_bytes_def le16_bytes_of_def algebra_simps)
qed

section \<open>The priority of a frame\<close>

text \<open>What the priority of a frame is meant to be: the larger of the caller's and of the IP
  precedence for an IP packet, the caller's for any other frame, and best effort without WMM.\<close>

definition frame_priority :: "bool \<Rightarrow> u32 \<Rightarrow> u8 list \<Rightarrow> u8" where
  "frame_priority wmm layer2 frame =
     (if \<not> wmm then 0
      else if frame ! 20 = 0x08 \<and> frame ! 21 = 0x00 then max (ucast layer2 AND 7) (drop_bit 5 (frame ! 23))
      else ucast layer2 AND 7)"

lemma le16_eq_iff: "le16 a b = le16 c d \<longleftrightarrow> a = c \<and> b = d"
  by (metis byte_of_le16)

lemma swap16_0x0800: "swap16 0x0800 = le16 8 0"
  by (simp add: swap16_eq byte_of_def drop_bit_eq_div le16_eq_iff)

lemma drop_bit_5_and_7: "drop_bit 5 (x :: u8) AND 7 = drop_bit 5 x"
  unfolding mask_eq_exp_minus_1 [of 3, where 'a = "8 word", simplified, symmetric]
  by (rule bit_word_eqI) (auto simp: bit_simps dest: bit_imp_le_length)

lemma ucast_and_7: "(ucast (x AND 7 :: u32) :: u8) = ucast x AND 7"
  by (rule bit_word_eqI) (auto simp: bit_simps)

lemma and_7_greater: "(x AND 7 > ucast (y :: u8)) = (ucast x AND 7 > y)" for x :: u32
proof -
  have "x AND 7 = ucast (ucast x AND 7 :: u8)"
    unfolding mask_eq_exp_minus_1 [of 3, where 'a = "8 word", simplified, symmetric]
      mask_eq_exp_minus_1 [of 3, where 'a = "32 word", simplified, symmetric]
    by (rule bit_word_eqI) (auto simp: bit_simps)
  then show ?thesis by (metis unat_u8_u32 word_less_nat_alt)
qed

lemma determine_priority:
  "wmi_determine_userPriority m a l = max (ucast l AND 7) (drop_bit 5 (m (a + 1)))"
  by (auto simp: wmi_determine_userPriority_def Let_def drop_bit_5_and_7 and_7_greater max_def)

lemma frame_priority_3_bits: "frame_priority w l f AND 7 = frame_priority w l f"
  by (simp add: frame_priority_def max_def drop_bit_5_and_7 and.assoc)

lemma unat_12: "unat (12 :: u32) = 12" "unat (6 :: u32) = 6" by simp_all

text \<open>The header in front of a frame, with version 5 meta data.\<close>

lemma data_hdr_add_bytes:
  assumes "wmi_data_hdr_add p msg moreData ty WMI_META_VERSION_5 meta s = Some (st, s1)" "nb_wf (nbs s p)"
    and ty: "ty AND 3 = ty"
  obtains h mb where "st = A_OK" "p \<noteq> NULL" "length mb = 12"
    "packet_bytes (mem s1) (nbs s1 p) = data_hdr_bytes h @ mb @ packet_bytes (mem s) (nbs s p)"
    "WMI_DATA_HDR_GET_DATA_TYPE h = ty" "WMI_DATA_HDR_GET_META h = 5" "nb_wf (nbs s1 p)"
proof -
  let ?h = "WMI_DATA_HDR_SET_META 5 ((if moreData then WMI_DATA_HDR_SET_MORE_BIT else (\<lambda>h. h))
    (WMI_DATA_HDR_SET_DATA_TYPE ty (WMI_DATA_HDR_SET_MSG_TYPE msg data_hdr_zero)))"
  obtain nb1 nb2 where nz: "p \<noteq> NULL" and st: "st = A_OK"
    and push: "a_netbuf_push (nbs s p) 12 = Some nb1" "a_netbuf_push nb1 6 = Some nb2"
    and s1: "nbs s1 p = nb2" "mem s1 = mem_put (mem_put (mem s) (nb_data nb1) [mem s meta]) (nb_data nb2) (data_hdr_bytes ?h)"
    using assms(1) by (auto simp: wmi_data_hdr_add_def wmi_meta_add_def A_ASSERT_bind_Some bind_eq_Some_conv on_nb_Some
        a_netbuf_to_data_def Let_def A_MEMCPY_def mem_bytes_def)
  have wf: "nb_wf nb1" "nb_wf nb2"
    using a_netbuf_push_wf [OF assms(2) push(1)] a_netbuf_push_wf [OF _ push(2)] by blast+
  let ?old = "packet_bytes (mem s) (nbs s p)" and ?m = "mem_put (mem s) (nb_data nb1) [mem s meta]"
  obtain mb where mb: "length mb = 12" "packet_bytes (mem s) nb1 = mb @ ?old"
    using that push_bytes [OF assms(2) push(1), of "mem s"] by (metis length_mem_bytes unat_12(1))
  have 1: "packet_bytes ?m nb1 = (mem s meta # drop 1 mb) @ ?old"
    using mb by (subst put_front) auto
  obtain room where room: "length room = 6" "packet_bytes ?m nb2 = room @ (mem s meta # drop 1 mb) @ ?old"
    using push_bytes [OF wf(1) push(2), of ?m] 1 by (metis length_mem_bytes unat_12(2))
  have "packet_bytes (mem s1) (nbs s1 p) = data_hdr_bytes ?h @ (mem s meta # drop 1 mb) @ ?old"
    unfolding s1 using room by (subst put_front) simp_all
  with that [of "mem s meta # drop 1 mb" ?h] st nz mb(1) wf(2) ty s1(1) show thesis
    by (simp add: data_hdr_fields)
qed

text \<open>C20. The priority of a transmitted frame. A frame of at least 24 bytes (addresses, length,
  LLC/SNAP header and the start of its payload) gets the data header by \<open>wmi_data_hdr_add\<close> and its
  access category by \<open>wmi_implicit_create_pstream\<close>, the two steps of \<open>Api_DataTxStart\<close>. The packet
  then is header, twelve bytes of meta data and the frame as it was; the header's priority field is
  the priority the frame is meant to have, its type and meta-data fields are the ones asked for, and the category is
  the one 802.1d assigns to that priority.\<close>

theorem data_frame_priority:
  assumes add: "wmi_data_hdr_add p msg moreData ty WMI_META_VERSION_5 meta s = Some (st, s1)"
    and pri: "wmi_implicit_create_pstream p layer2 wmm s1 = Some (ac, s2)"
    and wf: "nb_wf (nbs s p)" and ty: "ty AND 3 = ty" and len: "24 \<le> length (packet_bytes (mem s) (nbs s p))"
  defines "up \<equiv> frame_priority wmm layer2 (packet_bytes (mem s) (nbs s p))"
  shows "\<exists>h mb. packet_bytes (mem s2) (nbs s2 p) = data_hdr_bytes h @ mb @ packet_bytes (mem s) (nbs s p)
    \<and> length mb = 12 \<and> WMI_DATA_HDR_GET_UP h = up \<and> WMI_DATA_HDR_GET_DATA_TYPE h = ty
    \<and> WMI_DATA_HDR_GET_META h = 5 \<and> ac = up_to_ac ! unat up"
proof -
  let ?old = "packet_bytes (mem s) (nbs s p)"
  obtain h mb where nz: "p \<noteq> NULL" and mb: "length mb = 12"
    and pb: "packet_bytes (mem s1) (nbs s1 p) = data_hdr_bytes h @ mb @ ?old"
    and h: "WMI_DATA_HDR_GET_DATA_TYPE h = ty" "WMI_DATA_HDR_GET_META h = 5" and wf1: "nb_wf (nbs s1 p)"
    using data_hdr_add_bytes [OF add wf ty] by metis
  let ?d = "nb_data (nbs s1 p)"
  note hdr = data_hdr_at_bytes [OF pb]
  have "mem16 (mem s1) (?d + 38) = le16 (?old ! 20) (?old ! 21)"
    using packet_mem16 [of 38 "mem s1" "nbs s1 p"] mb len by (simp add: pb nth_append)
  then have ip: "mem16 (mem s1) (38 + ?d) = swap16 0x0800 \<longleftrightarrow> ?old ! 20 = 8 \<and> ?old ! 21 = 0"
    unfolding add.commute [of 38 ?d] swap16_0x0800 by (simp add: le16_eq_iff)
  have "mem s1 (?d + 41) = ?old ! 23"
    using packet_byte [of 41 "mem s1" "nbs s1 p"] mb len by (simp add: pb nth_append)
  then have tos: "mem s1 (41 + ?d) = ?old ! 23" by (simp add: add.commute)
  have up3: "up AND 7 = up" by (simp add: up_def frame_priority_3_bits)
  let ?h = "WMI_DATA_HDR_SET_UP up h"
  have "wmi_implicit_create_pstream p layer2 wmm s1
      = Some (up_to_ac ! unat (up AND 7), s1\<lparr>mem := (mem s1)(?d + 1 := dh_info ?h)\<rparr>)"
    by (cases wmm) (simp_all add: wmi_implicit_create_pstream_def a_netbuf_to_data_def Let_def nz hdr h ip [simplified]
        determine_priority tos up_def frame_priority_def)
  with pri have ac: "ac = up_to_ac ! unat up" and s2: "s2 = s1\<lparr>mem := (mem s1)(?d + 1 := dh_info ?h)\<rparr>"
    by (simp_all add: up3)
  have "packet_bytes (mem s2) (nbs s2 p) = data_hdr_bytes ?h @ mb @ ?old"
    using put_inside [OF wf1, of 1 "[dh_info ?h]" "mem s1"]
    by (simp add: pb s2 data_hdr_bytes_def WMI_DATA_HDR_SET_UP_def)
  with mb h ac up3 show ?thesis by (intro exI [of _ ?h] exI [of _ mb]) (simp add: data_hdr_fields)
qed

section \<open>Witnesses\<close>

text \<open>A DIX frame that carries an IP packet of precedence 6, in a packet with 64 bytes of head room.\<close>

definition demo_dix :: "u8 list" where
  "demo_dix = [1, 2, 3, 4, 5, 6, 11, 12, 13, 14, 15, 16, 0x08, 0x00, 0x45, 0xC0, 0, 2]"

definition demo_tx :: "u8 list \<Rightarrow> unit drv" where
  "demo_tx f = (drv_zero ())\<lparr>mem := mem_put (\<lambda>_. 0) 0x1040 f,
     nbs := (\<lambda>_. netbuf_zero)(0x500 := a_netbuf_configure 0x1000 64 (of_nat (length f)) 256)\<rparr>"

lemma demo_tx_packet:
  "nb_head (nbs (demo_tx f) 0x500) = 0x1000" "nb_data (nbs (demo_tx f) 0x500) = 0x1040"
  "num_frags (nbs (demo_tx f) 0x500) = 0" "nb_end (nbs (demo_tx f) 0x500) = 0x1100"
  by (simp_all add: demo_tx_def a_netbuf_configure_def netbuf_zero_def)

lemma demo_tx_tail: "length f < 192 \<Longrightarrow> nb_tail (nbs (demo_tx f) 0x500) = 0x1040 + of_nat (length f)"
proof -
  assume "length f < 192"
  then have "(ucast (of_nat (length f) :: u16) :: u32) = of_nat (length f)"
    by (simp add: word_unat_eq_iff unsigned_ucast_eq take_bit_eq_mod unat_of_nat)
  then show ?thesis by (simp add: demo_tx_def a_netbuf_configure_def)
qed

lemma demo_tx_bytes: "length f < 192 \<Longrightarrow> packet_bytes (mem (demo_tx f)) (nbs (demo_tx f) 0x500) = f"
  by (simp add: packet_bytes_def demo_tx_packet demo_tx_tail unat_of_nat) (simp add: demo_tx_def mem_bytes_mem_put)

theorem dix_dot3_roundtrip_witness:
  "\<exists>s1 s2. wmi_dix_2_dot3 0x500 (demo_tx demo_dix) = Some (A_OK, s1)
    \<and> packet_bytes (mem s1) (nbs s1 0x500) = [1, 2, 3, 4, 5, 6, 11, 12, 13, 14, 15, 16, 0, 12,
        0xAA, 0xAA, 3, 0, 0, 0, 0x08, 0x00, 0x45, 0xC0, 0, 2]
    \<and> wmi_dot3_2_dix 0x500 s1 = Some (A_OK, s2) \<and> packet_bytes (mem s2) (nbs s2 0x500) = demo_dix"
proof -
  let ?s = "demo_tx demo_dix"
  have pb: "packet_bytes (mem ?s) (nbs ?s 0x500) = demo_dix" by (simp add: demo_tx_bytes demo_dix_def)
  have wf: "nb_wf (nbs ?s 0x500)" by (simp add: nb_wf_def demo_tx_packet demo_tx_tail demo_dix_def)
  have ty: "mem16 (mem ?s) 0x104C = le16 8 0"
    using packet_mem16 [of 12 "mem ?s" "nbs ?s 0x500"] by (simp add: pb demo_tx_packet) (simp add: demo_dix_def)
  have big: "0x600 \<le> le16 0 (8 :: u8)" by (simp add: le16_def)
  obtain s1 where run: "wmi_dix_2_dot3 0x500 ?s = Some (A_OK, s1)"
    using big by (simp add: wmi_dix_2_dot3_def a_netbuf_headroom_def a_netbuf_to_data_def demo_tx_packet Let_def ty
        swap16_eq on_nb_def a_netbuf_push_def)
  have n: "nb_len 0x500 ?s = 18" by (simp add: nb_len_single demo_tx_packet demo_tx_tail demo_dix_def)
  have len: "14 \<le> length (packet_bytes (mem ?s) (nbs ?s 0x500))"
    "0x600 \<le> le16 (packet_bytes (mem ?s) (nbs ?s 0x500) ! 13) (packet_bytes (mem ?s) (nbs ?s 0x500) ! 12)"
    unfolding pb using big by (simp_all add: demo_dix_def)
  have "take 12 demo_dix @ [byte_of 1 (ucast (18 - 6 :: u32) :: u16), byte_of 0 (ucast (18 - 6 :: u32) :: u16)]
      @ [0xAA, 0xAA, 0x03, 0, 0, 0] @ drop 12 demo_dix
    = [1, 2, 3, 4, 5, 6, 11, 12, 13, 14, 15, 16, 0, 12, 0xAA, 0xAA, 3, 0, 0, 0, 0x08, 0x00, 0x45, 0xC0, 0, 2]"
    by (simp add: demo_dix_def byte_of_def drop_bit_eq_div)
  with dix_dot3_roundtrip [OF run wf len, unfolded pb n] run show ?thesis by metis
qed

text \<open>The same frame after the conversion: the priority is the precedence of the IP packet.\<close>

definition demo_dot3 :: "u8 list" where
  "demo_dot3 = [1, 2, 3, 4, 5, 6, 11, 12, 13, 14, 15, 16, 0, 12, 0xAA, 0xAA, 3, 0, 0, 0, 0x08, 0x00, 0x45, 0xC0, 0, 2]"

theorem data_frame_priority_witness:
  "\<exists>s1 s2. wmi_data_hdr_add 0x500 DATA_MSGTYPE False WMI_DATA_HDR_DATA_TYPE_802_3 WMI_META_VERSION_5 0x2000 (demo_tx demo_dot3)
      = Some (A_OK, s1)
    \<and> wmi_implicit_create_pstream 0x500 0 True s1 = Some (WMM_AC_VO, s2)"
proof -
  let ?s = "demo_tx demo_dot3"
  have pb: "packet_bytes (mem ?s) (nbs ?s 0x500) = demo_dot3" by (simp add: demo_tx_bytes demo_dot3_def)
  have wf: "nb_wf (nbs ?s 0x500)" by (simp add: nb_wf_def demo_tx_packet demo_tx_tail demo_dot3_def)
  obtain s1 where add: "wmi_data_hdr_add 0x500 0 False 0 WMI_META_VERSION_5 0x2000 ?s = Some (A_OK, s1)"
    by (simp add: wmi_data_hdr_add_def wmi_meta_add_def on_nb_def a_netbuf_push_def demo_tx_packet Let_def)
  obtain ac s2 where pri: "wmi_implicit_create_pstream 0x500 0 True s1 = Some (ac, s2)"
    by (simp add: wmi_implicit_create_pstream_def Let_def)
  have "24 \<le> length (packet_bytes (mem ?s) (nbs ?s 0x500))" unfolding pb by (simp add: demo_dot3_def)
  from data_frame_priority [OF add pri wf _ this]
  have "ac = up_to_ac ! unat (frame_priority True 0 demo_dot3)" by (auto simp: pb)
  moreover have "frame_priority True 0 demo_dot3 = 6"
    by (simp add: frame_priority_def demo_dot3_def drop_bit_eq_div)
  ultimately show ?thesis using add pri by (simp add: up_to_ac_def)
qed

end
