(* ===== verification/Api_Complete.thy ===== *)
theory Api_Complete
  imports Driver_Wait Wmi_Frames
begin

text \<open>
  The end of a packet's way up, \<^verbatim>\<open>common_src/api_interface/api_txrx.c\<close>: a transmitted packet is
  freed, a received one is taken apart and handed to the WMI layer or to the socket layer; and the
  query of the transmit status, which a user task hands to the driver task.

  The layers above are parameters: \<open>up_wmi_control_rx\<close> for WMI events (\<open>wmi_control_rx\<close>) and
  \<open>up_deliver_frame\<close> for data (\<open>Custom_DeliverFrameToNetworkStack\<close>). In the stack-offload
  configuration \<open>WMI_DOT3_2_DIX\<close> is \<open>A_OK\<close> and \<open>MIN_HDR_LEN\<close> the size of the data header. The test hooks \<open>Api_TxComplete\<close> and \<open>Api_RxComplete\<close> of
  \<open>ath_custom_init\<close> are null, as \<^verbatim>\<open>cust_driver_main.c\<close> initialises them.
\<close>

abbreviation AP_NETWORK :: u8 where "AP_NETWORK \<equiv> 0x10"
abbreviation MIN_HDR_LEN :: u16 where "MIN_HDR_LEN \<equiv> 6"
abbreviation AR4100_MAX_RX_MESSAGE_SIZE :: u16 where "AR4100_MAX_RX_MESSAGE_SIZE \<equiv> 1664"
abbreviation ENDPOINT_0 :: u8 where "ENDPOINT_0 \<equiv> 0"
abbreviation ENDPOINT_1 :: u8 where "ENDPOINT_1 \<equiv> 1"
abbreviation ENDPOINT_UNUSED :: u8 where "ENDPOINT_UNUSED \<equiv> 0xFF"
abbreviation ATH_TX_STATUS_IDLE :: u16 where "ATH_TX_STATUS_IDLE \<equiv> 1"
abbreviation ATH_TX_STATUS_HOST_PENDING :: u16 where "ATH_TX_STATUS_HOST_PENDING \<equiv> 2"
abbreviation ATH_TX_STATUS_WIFI_PENDING :: u16 where "ATH_TX_STATUS_WIFI_PENDING \<equiv> 3"
abbreviation DRIVER_STATE_TX_PROCESSING :: u16 where "DRIVER_STATE_TX_PROCESSING \<equiv> 2"

section \<open>Transmit status\<close>

definition query_credit_deficit :: "'e mqx \<Rightarrow> 'e drv \<Rightarrow> (A_STATUS \<times> 'e drv) option" where
  "query_credit_deficit M s = do {
     s \<leftarrow> (if flag_set (SDHD_BOOL_FATAL_ERROR OR SDHD_BOOL_DMA_IN_PROG OR SDHD_BOOL_DMA_WRITE_WAIT_FOR_BUFFER) s
           then Some s
           else do {
             (reg, s) \<leftarrow> Htc_ReadCreditCounter M 1 s;
             Some (s\<lparr>txQueryResult := if reg AND 0x80000000 \<noteq> 0 then 1 else 0\<rparr>)});
     Some (A_OK, Driver_WakeUser (s\<lparr>asynchRequest := async_NULL, txQueryInProgress := False\<rparr>))}"

definition Api_TxGetStatus :: "'e upper \<Rightarrow> 'e drv \<Rightarrow> (u16 \<times> 'e drv) option" where
  "Api_TxGetStatus U s =
     (if q_count (txQueue s) \<noteq> 0 \<or> driver_state s = DRIVER_STATE_TX_PROCESSING
      then Some (ATH_TX_STATUS_HOST_PENDING, s)
      else if asynchRequest s = async_NULL then
        let s = Driver_WakeDriver (s\<lparr>txQueryInProgress := True, asynchRequest := async_query_credit_deficit\<rparr>) in do {
          (_, s) \<leftarrow> Driver_WaitForCondition U txQueryInProgress False 5000 s;
          Some (if \<not> txQueryInProgress s \<and> txQueryResult s = 0 then ATH_TX_STATUS_IDLE
                else ATH_TX_STATUS_WIFI_PENDING, s)}
      else Some (ATH_TX_STATUS_WIFI_PENDING, s))"

section \<open>Completion\<close>

definition Api_TxComplete :: "'e mqx \<Rightarrow> 'e upper \<Rightarrow> ptr \<Rightarrow> 'e drv \<Rightarrow> 'e drv" where
  "Api_TxComplete M U p s = (
     let s = Driver_WakeUser (s\<lparr>tx_complete_pend := False\<rparr>)
     in a_netbuf_free M U p s)"

text \<open>The signal strength: a running average of the frames' values; 0 means none so far. Both are
  \<open>QOSAL_INT8\<close>, computed in \<open>int\<close>; \<open>>> 3\<close> rounds down.\<close>

definition rssi_average :: "int \<Rightarrow> int \<Rightarrow> int" where
  "rssi_average old new = sint (word_of_int (if old \<noteq> 0 then (old * 7 + new) div 8 else new) :: u8)"

definition conn_network :: "'e upper \<Rightarrow> u16 \<Rightarrow> 'e drv \<Rightarrow> u8" where
  "conn_network U devId s = (if devId = 0 then conn_networkType s else up_network_past U devId s)"

text \<open>A data frame of the normal mode. A frame with per-frame meta data, an 802.11 header, an
  A-MSDU or an ACL frame is not accepted: the code asserts.\<close>

definition rx_data_frame :: "'e mqx \<Rightarrow> 'e upper \<Rightarrow> ptr \<Rightarrow> 'e drv \<Rightarrow> 'e drv option" where
  "rx_data_frame M U p s = (
     let dhdr = data_hdr_at (mem s) (a_netbuf_to_data (nbs s p));
         packetLen = (ucast (nb_len p s) :: u16);
         is_acl_data_frame = WMI_DATA_HDR_GET_DATA_TYPE dhdr = WMI_DATA_HDR_DATA_TYPE_ACL;
         devId = WMI_DATA_HDR_GET_DEVID dhdr in
     if conn_network U devId s \<noteq> AP_NETWORK \<and> packetLen < MIN_HDR_LEN \<or> packetLen > AR4100_MAX_RX_MESSAGE_SIZE
     then Some (a_netbuf_free M U p s)
     else
       let s = s\<lparr>rssi := rssi_average (rssi s) (sint (dh_rssi dhdr))\<rparr> in do {
         (_, s) \<leftarrow> wmi_data_hdr_remove p s;
         A_ASSERT (WMI_DATA_HDR_GET_META dhdr = 0);
         A_ASSERT (\<not> WMI_DATA_HDR_GET_DOT11 dhdr);
         A_ASSERT (WMI_DATA_HDR_IS_AMSDU dhdr = 0 \<and> \<not> is_acl_data_frame);
         up_deliver_frame U p s})"

definition Api_RxComplete :: "'e mqx \<Rightarrow> 'e upper \<Rightarrow> ptr \<Rightarrow> 'e drv \<Rightarrow> 'e drv option" where
  "Api_RxComplete M U p s =
     (if wmiEnabled s then
        if t_epid (trans (nbs s p)) = ENDPOINT_1 then up_wmi_control_rx U p s
        else if promiscuous_mode s \<noteq> 0 then do {
          (_, s) \<leftarrow> wmi_data_hdr_remove p s;
          up_deliver_frame U p s}
        else rx_data_frame M U p s
      else Some (a_netbuf_free M U p s))"

section \<open>The signal strength\<close>

lemma sint_u8: "-128 \<le> x \<Longrightarrow> x \<le> 127 \<Longrightarrow> sint (word_of_int x :: u8) = x"
  by (simp add: sint_sbintrunc' signed_take_bit_int_eq_self)

lemma rssi_average_between:
  assumes "-128 \<le> lo" "hi \<le> 127" "lo \<le> r" "r \<le> hi" "lo \<le> x \<and> x \<le> hi \<or> x = 0"
  shows "lo \<le> rssi_average x r \<and> rssi_average x r \<le> hi"
proof (cases "x = 0")
  case True
  with assms show ?thesis by (simp add: rssi_average_def sint_u8)
next
  case False
  with assms(5) have "8 * lo \<le> x * 7 + r" "x * 7 + r \<le> 8 * hi" using assms(3,4) by linarith+
  then have "lo \<le> (x * 7 + r) div 8" "(x * 7 + r) div 8 \<le> hi" by linarith+
  with assms(1,2) False show ?thesis by (simp add: rssi_average_def sint_u8)
qed

text \<open>The signal strength. Whatever the number of frames, the average the driver keeps, which starts at 0,
  lies between the smallest and the largest value the frames reported: the 8-bit computation never wraps.
  The rounding is one-sided, though: a new value that is less than 8 above the average does not
  raise it.\<close>

theorem rssi_average_range:
  assumes "rs \<noteq> []" "\<forall>r\<in>set rs. lo \<le> r \<and> r \<le> hi" "-128 \<le> lo" "hi \<le> 127"
  shows "lo \<le> foldl rssi_average 0 rs \<and> foldl rssi_average 0 rs \<le> hi
    \<and> (\<forall>x r. -128 \<le> x \<and> x \<le> r \<and> r < x + 8 \<and> r \<le> 127 \<and> x \<noteq> 0 \<longrightarrow> rssi_average x r = x)"
proof -
  have "lo \<le> foldl rssi_average 0 rs \<and> foldl rssi_average 0 rs \<le> hi"
    using assms(1,2)
  proof (induction rs rule: rev_induct)
    case (snoc r rs)
    then have "rs = [] \<or> lo \<le> foldl rssi_average 0 rs \<and> foldl rssi_average 0 rs \<le> hi" by auto
    with snoc.prems show ?case using rssi_average_between [OF assms(3,4)] by fastforce
  qed simp
  moreover have "rssi_average x r = x" if "-128 \<le> x \<and> x \<le> r \<and> r < x + 8 \<and> r \<le> 127 \<and> x \<noteq> 0" for x r
  proof -
    have "(x * 7 + r) div 8 = x" using that by linarith
    with that show ?thesis by (simp add: rssi_average_def sint_u8)
  qed
  ultimately show ?thesis by blast
qed

theorem rssi_average_range_witness:
  "-60 \<le> foldl rssi_average 0 [-50, -60, -55] \<and> foldl rssi_average 0 [-50, -60, -55] \<le> -50"
  using rssi_average_range [of "[-50, -60, -55]" "-60" "-50"] by simp

end
