(* ===== verification/Driver_TxRx.thy ===== *)
theory Driver_TxRx
  imports Api_Complete
begin

text \<open>
  Requests, \<^verbatim>\<open>common_src/driver/driver_txrx.c\<close>: a packet is submitted to the transmit queue with
  the credits it will cost, sent and received over the bus, and its callback is the function that
  completes it. A division by a credit size of zero (before \<open>HTC_WaitTarget\<close> has set it) has no
  result.
\<close>

section \<open>Completion\<close>

definition Driver_RxComplete :: "'e mqx \<Rightarrow> 'e upper \<Rightarrow> ptr \<Rightarrow> 'e drv \<Rightarrow> 'e drv option" where
  "Driver_RxComplete M U p s = do {
     (status, la, s) \<leftarrow> Htc_ProcessRecvHeader p True (uninit_u32 M (hw_env s), 0) s;
     A_ASSERT (status = A_OK);
     if t_epid (trans (nbs s p)) = ENDPOINT_0 then Htc_RxComplete M U p s
     else Api_RxComplete M U p s}"

definition Driver_TxComplete :: "'e mqx \<Rightarrow> 'e upper \<Rightarrow> ptr \<Rightarrow> 'e drv \<Rightarrow> 'e drv option" where
  "Driver_TxComplete M U p s = do {
     s \<leftarrow> Htc_ProcessTxComplete p s;
     Some (Api_TxComplete M U p s)}"

definition Driver_Ep0TxComplete :: "ptr \<Rightarrow> 'e drv \<Rightarrow> 'e drv option" where
  "Driver_Ep0TxComplete p s = Htc_ProcessTxComplete p s"

text \<open>The call through the function pointer of a request; a null pointer is not called.\<close>

definition call_cb :: "'e mqx \<Rightarrow> 'e upper \<Rightarrow> A_TRANS_CB \<Rightarrow> ptr \<Rightarrow> 'e drv \<Rightarrow> 'e drv option" where
  "call_cb M U cb p s = (case cb of
       cb_NULL \<Rightarrow> None
     | cb_Driver_RxComplete \<Rightarrow> Driver_RxComplete M U p s
     | cb_Driver_TxComplete \<Rightarrow> Driver_TxComplete M U p s
     | cb_Driver_Ep0TxComplete \<Rightarrow> Driver_Ep0TxComplete p s)"

definition Driver_PostProcessRequest :: "ptr \<Rightarrow> A_STATUS \<Rightarrow> 'e drv \<Rightarrow> 'e drv" where
  "Driver_PostProcessRequest p reqStatus s = (
     let s = set_trans p (\<lambda>t. t\<lparr>t_status := reqStatus\<rparr>) s in
     if t_cb (trans (nbs s p)) \<noteq> cb_NULL then
       let s = set_hcd (\<lambda>h. h\<lparr>pCurrentRequest := p\<rparr>) s in
       if reqStatus \<noteq> A_PENDING then s\<lparr>booleans := booleans s OR SDHD_BOOL_DMA_COMPLETE\<rparr> else s
     else s)"

section \<open>Submission\<close>

text \<open>The credits a transfer of a length costs.\<close>

definition credits_required :: "u32 \<Rightarrow> u16 \<Rightarrow> u32 option" where
  "credits_required transferLength cs =
     (if transferLength \<le> ucast cs then Some 1
      else do {
        A_ASSERT (cs \<noteq> 0);
        let creditsRequired = transferLength div ucast cs;
        Some (if creditsRequired * ucast cs < transferLength then creditsRequired + 1 else creditsRequired)})"

definition prepare_tx :: "A_TRANS_CB \<Rightarrow> ptr \<Rightarrow> 'e drv \<Rightarrow> 'e drv option" where
  "prepare_tx cb p s = (
     let s = set_trans p (\<lambda>t. t\<lparr>t_cb := cb\<rparr>) s in do {
       s \<leftarrow> on_nb p (\<lambda>nb. a_netbuf_push nb HTC_HDR_LENGTH) s;
       creditsRequired \<leftarrow> credits_required (DEV_CALC_PADDED_LEN s (nb_len p s)) (creditSize s);
       Some (set_trans p (\<lambda>t. t\<lparr>t_credits := ucast creditsRequired\<rparr>) s)})"

definition Driver_SubmitTxRequest :: "ptr \<Rightarrow> 'e drv \<Rightarrow> (A_STATUS \<times> 'e drv) option" where
  "Driver_SubmitTxRequest p s = do {
     s \<leftarrow> prepare_tx cb_Driver_TxComplete p s;
     let s = tx_enqueue s p;
     Some (A_OK, Driver_WakeDriver s)}"

definition Driver_SubmitEp0TxRequest :: "ptr \<Rightarrow> 'e drv \<Rightarrow> (A_STATUS \<times> 'e drv) option" where
  "Driver_SubmitEp0TxRequest p s = do {
     s \<leftarrow> prepare_tx cb_Driver_Ep0TxComplete p s;
     let s = tx_prequeue s p;
     Some (A_OK, Driver_WakeDriver s)}"

section \<open>Transfers\<close>

definition Driver_SendPacket :: "'e mqx \<Rightarrow> ptr \<Rightarrow> 'e drv \<Rightarrow> (A_STATUS \<times> 'e drv) option" where
  "Driver_SendPacket M p s = do {
     (status, s) \<leftarrow> Htc_SendPacket p s;
     if status \<noteq> A_OK then Some (status, Driver_PostProcessRequest p status s)
     else
       let transLength = (ucast (DEV_CALC_PADDED_LEN s (nb_len p s)) :: u16) in do {
         address \<leftarrow> HW_GetMboxAddress 0 (ucast transLength) s;
         let s = set_trans p (\<lambda>t. t\<lparr>t_address := ucast (address AND ATH_TRANS_ADDR_MASK),
                    t_transferLength := transLength, t_cmd := ATH_TRANS_WRITE OR ATH_TRANS_DMA\<rparr>) s;
         (status, s) \<leftarrow> Hcd_Request M (nbs s p) s;
         Some (status, Driver_PostProcessRequest p status s)}}"

definition Driver_RecvPacket :: "'e mqx \<Rightarrow> ptr \<Rightarrow> 'e drv \<Rightarrow> (A_STATUS \<times> 'e drv) option" where
  "Driver_RecvPacket M p s = do {
     s \<leftarrow> Htc_PrepareRecvPacket p s;
     address \<leftarrow> HW_GetMboxAddress 0 (nb_len p s) s;
     let s = set_trans p (\<lambda>t. t\<lparr>t_address := ucast (address AND ATH_TRANS_ADDR_MASK),
                t_cmd := ATH_TRANS_READ OR ATH_TRANS_DMA\<rparr>) s;
     (status, s) \<leftarrow> Hcd_Request M (nbs s p) s;
     Some (status, Driver_PostProcessRequest p status s)}"

section \<open>What a submission leaves behind\<close>

lemma tx_rep_cong:
  "txQueue s' = txQueue s \<Longrightarrow> (\<And>x. x \<in> set xs \<Longrightarrow> queueLink (nbs s' x) = queueLink (nbs s x)) \<Longrightarrow> tx_rep s' xs = tx_rep s xs"
  by (auto simp: tx_rep_def queue_rep_def cong: linked_cong)

lemma to_len_queueLink [simp]: "a_netbuf_to_len m (nb\<lparr>queueLink := l\<rparr>) = a_netbuf_to_len m nb"
  by (simp add: a_netbuf_to_len_def Let_def)

lemma to_len_trans [simp]: "a_netbuf_to_len m (trans_update f nb) = a_netbuf_to_len m nb"
  by (simp add: a_netbuf_to_len_def Let_def)

lemma enqueue_links: "\<exists>l. fst (a_netbuf_enqueue (h, q) p) x = (h x)\<lparr>queueLink := l\<rparr>"
  by (auto simp: set_link_def intro: exI [of _ "queueLink (h x)"])

lemma dequeue_links: "\<exists>l. fst (snd (a_netbuf_dequeue (h, q))) y = (h y)\<lparr>queueLink := l\<rparr>"
  by (auto simp: set_link_def Let_def intro: exI [of _ "queueLink (h y)"])

lemma tx_enqueue_links: "\<exists>l. nbs (tx_enqueue s p) x = (nbs s x)\<lparr>queueLink := l\<rparr>"
  using enqueue_links [of "nbs s" "txQueue s" p x] by (auto simp: tx_enqueue_def split: prod.splits)

lemma tx_enqueue_frame [simp]:
  "natives (tx_enqueue s p) = natives s" "blockMask (tx_enqueue s p) = blockMask s"
  "creditSize (tx_enqueue s p) = creditSize s" "mem (tx_enqueue s p) = mem s"
  by (auto simp: tx_enqueue_def split: prod.splits)

lemma prepare_tx_run:
  assumes "prepare_tx cb p s = Some s'"
  obtains n nb where "a_netbuf_push (nbs s p) 6 = Some nb"
    "credits_required (DEV_CALC_PADDED_LEN s (a_netbuf_to_len (natives s) nb)) (creditSize s) = Some n"
    "s' = s\<lparr>nbs := (nbs s)(p := nb\<lparr>trans := (trans (nbs s p))\<lparr>t_cb := cb, t_credits := ucast n\<rparr>\<rparr>)\<rparr>"
proof -
  have push: "a_netbuf_push (trans_update f nb) 6 = map_option (trans_update f) (a_netbuf_push nb 6)" for nb f
    by (simp add: a_netbuf_push_def A_ASSERT_def)
  have upd: "trans_update (t_credits_update f) (trans_update (t_cb_update g) nb)
      = nb\<lparr>trans := t_credits_update f (t_cb_update g (trans nb))\<rparr>" for nb f g
    by (cases nb) simp
  obtain nb n where run: "a_netbuf_push (nbs s p) 6 = Some nb"
    "credits_required (DEV_CALC_PADDED_LEN s (a_netbuf_to_len (natives s) nb)) (creditSize s) = Some n"
    "s' = s\<lparr>nbs := (nbs s)(p := trans_update (t_credits_update (\<lambda>_. ucast n)) (trans_update (t_cb_update (\<lambda>_. cb)) nb))\<rparr>"
    using assms by (auto simp: prepare_tx_def set_trans_def set_nb_def on_nb_Some bind_eq_Some_conv push nb_len_def
        DEV_CALC_PADDED_LEN_def Let_def)
  have "trans nb = trans (nbs s p)" using run(1) by (auto simp: a_netbuf_push_def A_ASSERT_bind_Some)
  with that [OF run(1,2)] run(3) show thesis unfolding upd by simp
qed

text \<open>The number of credits is the smallest that covers the transfer.\<close>

lemma credits_required_least:
  assumes "credits_required len cs = Some n"
  shows "0 < unat n \<and> unat len \<le> unat n * unat cs \<and> (unat n = 1 \<or> (unat n - 1) * unat cs < unat len)"
proof (cases "len \<le> ucast cs")
  case True
  moreover have "unat (ucast cs :: u32) = unat cs" using unsigned_less [of cs, where ?'a = nat]
    by (simp add: unsigned_ucast_eq take_bit_eq_mod)
  ultimately show ?thesis using assms by (simp add: credits_required_def word_le_nat_alt)
next
  case False
  let ?c = "ucast cs :: u32" and ?q = "len div ucast cs"
  have c: "unat ?c = unat cs" "unat cs < 2 ^ 16" using unsigned_less [of cs, where ?'a = nat]
    by (simp_all add: unsigned_ucast_eq take_bit_eq_mod)
  have nz: "0 < unat cs" using assms False by (auto simp: credits_required_def A_ASSERT_bind_Some unat_gt_0)
  have q: "unat ?q = unat len div unat cs" by (simp add: unat_div c)
  have lt: "unat cs < unat len" using False by (simp add: word_le_nat_alt c)
  have "unat len div unat cs * unat cs \<le> unat len" by simp
  then have "unat len div unat cs * unat cs < 2 ^ 32" using unat_lt_2p32 [of len] by linarith
  then have m: "unat (?q * ?c) = unat len div unat cs * unat cs"
    using unat_mult_lem [of ?q ?c] by (simp add: q c)
  have q1: "1 \<le> unat len div unat cs" using lt nz by (simp add: div_greater_zero_iff Suc_leI)
  show ?thesis
  proof (cases "?q * ?c < len")
    case True
    then have n: "n = ?q + 1" and less: "unat len div unat cs * unat cs < unat len"
      using assms False m by (auto simp: credits_required_def A_ASSERT_bind_Some Let_def word_less_nat_alt)
    have "unat len div unat cs \<le> unat len div unat cs * unat cs" using nz by simp
    then have "unat len div unat cs + 1 < 2 ^ 32" using less unat_lt_2p32 [of len] by linarith
    then have "unat n = unat len div unat cs + 1" using unat_add_no_wrap [of ?q 1] by (simp add: n q)
    moreover have "unat len < (unat len div unat cs + 1) * unat cs"
      using div_mult_mod_eq [of "unat len" "unat cs"] mod_less_divisor [OF nz, of "unat len"]
      by (simp only: add_mult_distrib)
    ultimately show ?thesis using less by simp
  next
    case F: False
    then have n: "n = ?q" using assms False by (auto simp: credits_required_def A_ASSERT_bind_Some Let_def)
    have "unat len = unat len div unat cs * unat cs" using F m \<open>unat len div unat cs * unat cs \<le> unat len\<close>
      by (simp add: word_less_nat_alt)
    moreover have "(unat len div unat cs - 1) * unat cs < unat len div unat cs * unat cs"
      using q1 nz by simp
    ultimately show ?thesis using q1 by (simp add: n q)
  qed
qed

text \<open>C18. A submitted packet. \<open>Driver_SubmitTxRequest\<close> puts the packet at the end of the transmit
  queue and wakes the driver task up; the packet has grown by the head room of the HTC header, is
  completed by \<open>Driver_TxComplete\<close>, and costs the smallest number of credits whose buffers hold the padded
  packet - provided that number fits in the 8-bit field of the request.\<close>

theorem submit_tx_request:
  assumes rep: "tx_rep s xs" and p: "p \<noteq> NULL" "p \<notin> set xs" "length xs < queue_cap"
    and run: "Driver_SubmitTxRequest p s = Some (st, s')"
    and fits: "unat (DEV_CALC_PADDED_LEN s' (nb_len p s')) \<le> 255 * unat (creditSize s)"
  defines "c \<equiv> unat (t_credits (trans (nbs s' p)))" and "len \<equiv> unat (DEV_CALC_PADDED_LEN s' (nb_len p s'))"
  shows "st = A_OK \<and> tx_rep s' (xs @ [p]) \<and> driverWakeEvent s' \<and> t_cb (trans (nbs s' p)) = cb_Driver_TxComplete
    \<and> nb_data (nbs s' p) = nb_data (nbs s p) - 6
    \<and> 0 < c \<and> len \<le> c * unat (creditSize s) \<and> (c = 1 \<or> (c - 1) * unat (creditSize s) < len)"
proof -
  obtain s1 where prep: "prepare_tx cb_Driver_TxComplete p s = Some s1" and st: "st = A_OK"
    and s': "s' = Driver_WakeDriver (tx_enqueue s1 p)"
    using run by (auto simp: Driver_SubmitTxRequest_def bind_eq_Some_conv)
  obtain n nb where push: "a_netbuf_push (nbs s p) 6 = Some nb"
    and cr: "credits_required (DEV_CALC_PADDED_LEN s (a_netbuf_to_len (natives s) nb)) (creditSize s) = Some n"
    and s1: "s1 = s\<lparr>nbs := (nbs s)(p := nb\<lparr>trans := (trans (nbs s p))\<lparr>t_cb := cb_Driver_TxComplete, t_credits := ucast n\<rparr>\<rparr>)\<rparr>"
    using prepare_tx_run [OF prep] by metis
  have nb: "nb = (nbs s p)\<lparr>nb_data := nb_data (nbs s p) - 6\<rparr>"
    using push by (auto simp: a_netbuf_push_def A_ASSERT_bind_Some)
  have "tx_rep s1 xs = tx_rep s xs" by (rule tx_rep_cong) (use p in \<open>auto simp: s1\<close>)
  then have "tx_rep (tx_enqueue s1 p) (xs @ [p])" using txq.rep_enq [of s1 xs p] rep p by simp
  then have q: "tx_rep s' (xs @ [p])" by (simp add: s' Driver_WakeDriver_def tx_rep_def)
  obtain l where link: "nbs s' p = (nbs s1 p)\<lparr>queueLink := l\<rparr>"
    using tx_enqueue_links [of s1 p p] by (auto simp: s' Driver_WakeDriver_def)
  then have pkt: "nb_data (nbs s' p) = nb_data (nbs s p) - 6" "t_cb (trans (nbs s' p)) = cb_Driver_TxComplete"
    "t_credits (trans (nbs s' p)) = ucast n"
    by (simp_all add: s1 nb)
  have "DEV_CALC_PADDED_LEN s' (nb_len p s') = DEV_CALC_PADDED_LEN s (a_netbuf_to_len (natives s) nb)"
    using link by (simp add: DEV_CALC_PADDED_LEN_def nb_len_def s' Driver_WakeDriver_def) (simp add: s1)
  then have least: "0 < unat n \<and> len \<le> unat n * unat (creditSize s) \<and> (unat n = 1 \<or> (unat n - 1) * unat (creditSize s) < len)"
    using credits_required_least [OF cr] by (simp add: len_def)
  have "unat n \<le> 255"
  proof (rule ccontr)
    assume "\<not> unat n \<le> 255"
    then have "255 \<le> unat n - 1" "(unat n - 1) * unat (creditSize s) < len" using least by auto
    then have "255 * unat (creditSize s) < len" by (meson le_less_trans mult_le_mono1)
    with fits show False by (simp add: len_def)
  qed
  then have "c = unat n" by (simp add: c_def pkt unsigned_ucast_eq take_bit_eq_mod)
  with st q pkt least show ?thesis by (simp add: s' Driver_WakeDriver_def)
qed

definition demo_submit :: "unit drv" where
  "demo_submit = (drv_zero ())\<lparr>creditSize := 100, blockMask := 3,
     nbs := (\<lambda>_. netbuf_zero)(0x500 := a_netbuf_configure 0x1000 64 130 256)\<rparr>"

theorem submit_tx_request_witness:
  "\<exists>s'. Driver_SubmitTxRequest 0x500 demo_submit = Some (A_OK, s') \<and> tx_rep s' [0x500]
    \<and> unat (t_credits (trans (nbs s' 0x500))) = 2"
proof -
  have rep: "tx_rep demo_submit []"
    by (simp add: tx_rep_def demo_submit_def drv_zero_def queue_zero_def queue_rep_def queue_cap_def)
  have run: "\<exists>s'. Driver_SubmitTxRequest 0x500 demo_submit = Some (A_OK, s') \<and> DEV_CALC_PADDED_LEN s' (nb_len 0x500 s') = 136"
    by (simp add: Driver_SubmitTxRequest_def prepare_tx_def set_trans_def set_nb_def on_nb_def a_netbuf_push_def
        demo_submit_def drv_zero_def a_netbuf_configure_def netbuf_zero_def nb_len_def a_netbuf_to_len_def
        DEV_CALC_PADDED_LEN_def credits_required_def Let_def tx_enqueue_def queue_zero_def set_link_def Driver_WakeDriver_def)
  then obtain s' where run: "Driver_SubmitTxRequest 0x500 demo_submit = Some (A_OK, s')"
    "DEV_CALC_PADDED_LEN s' (nb_len 0x500 s') = 136" by blast
  have cs: "creditSize demo_submit = 100" by (simp add: demo_submit_def)
  have "unat (DEV_CALC_PADDED_LEN s' (nb_len 0x500 s')) \<le> 255 * unat (creditSize demo_submit)" by (simp add: run cs)
  from submit_tx_request [OF rep _ _ _ run(1) this]
  have q: "tx_rep s' [0x500]" and c: "unat (t_credits (trans (nbs s' 0x500))) = 1
      \<or> (unat (t_credits (trans (nbs s' 0x500))) - 1) * 100 < 136" "136 \<le> unat (t_credits (trans (nbs s' 0x500))) * 100"
    by (auto simp: queue_cap_def run cs)
  have "n = 2" if "n = 1 \<or> (n - 1) * 100 < 136" "136 \<le> n * 100" for n :: nat using that by arith
  with c have "unat (t_credits (trans (nbs s' 0x500))) = 2" by metis
  with q run show ?thesis by blast
qed

end
