(* ===== verification/Api_TxStart.thy ===== *)
theory Api_TxStart
  imports Driver_TxRx
begin

text \<open>
  The way of a packet down, \<^verbatim>\<open>common_src/api_interface/api_txrx.c\<close>: a WMI command and a data frame
  enter the driver's transmit queue. What the queue and the request look like afterwards.
\<close>

definition Api_WmiTxStart :: "ptr \<Rightarrow> u8 \<Rightarrow> 'e drv \<Rightarrow> (A_STATUS \<times> 'e drv) option" where
  "Api_WmiTxStart p eid s = (
     let s = set_trans p (\<lambda>t. t\<lparr>t_epid := eid\<rparr>) s in do {
       (status, s) \<leftarrow> Driver_SubmitTxRequest p s;
       Some (if A_OK \<noteq> status then A_ERROR else A_OK, s)})"

text \<open>The last part of \<open>Api_DataTxStart\<close>: header, priority, endpoint, submission.\<close>

definition data_tx_submit :: "ptr \<Rightarrow> 'e drv \<Rightarrow> (A_STATUS \<times> 'e drv) option" where
  "data_tx_submit p s = do {
     (status, s) \<leftarrow> wmi_data_hdr_add p DATA_MSGTYPE False WMI_DATA_HDR_DATA_TYPE_802_3 WMI_META_VERSION_5 (stk s) s;
     if status \<noteq> A_OK then Some (A_ERROR, s)
     else do {
       (ac, s) \<leftarrow> wmi_implicit_create_pstream p 0 (wmmEnabled s) s;
       let eid = Util_AC2EndpointID s ac in
       if eid \<noteq> 0 \<and> eid \<noteq> ENDPOINT_UNUSED then
         let s = set_trans p (\<lambda>t. t\<lparr>t_epid := eid\<rparr>) s in do {
           (status, s) \<leftarrow> Driver_SubmitTxRequest p s;
           Some (if A_OK \<noteq> status then A_ERROR else A_OK, s)}
       else Some (A_ERROR, s)}}"

definition Api_DataTxStart :: "'e upper \<Rightarrow> ptr \<Rightarrow> 'e drv \<Rightarrow> (A_STATUS \<times> 'e drv) option" where
  "Api_DataTxStart U p s =
     (if \<not> conn_isConnected s \<and> \<not> conn_isConnectPending s then Some (A_ERROR, s)
      else do {
        s \<leftarrow> (if \<not> conn_isConnected s
              then do {(_, s) \<leftarrow> Driver_WaitForCondition U conn_isConnected True 5000 s; Some s}
              else Some s);
        if \<not> conn_isConnected s then Some (A_ERROR, s)
        else do {
          (status, s) \<leftarrow> Api_DriverAccessCheck U True ACCESS_REQUEST_TX s;
          if status \<noteq> A_OK then Some (A_ERROR, s)
          else if \<not> wmiReady s then Some (A_ERROR, s)
          else if \<not> wmiEnabled s then Some (A_ERROR, s)
          else data_tx_submit p s}})"

end
