(* ===== verification/Driver_Main.thy ===== *)
theory Driver_Main
  imports Api_TxStart
begin

text \<open>
  The driver task: \<open>Driver_Main\<close>, what makes it ready to receive and to transmit, and the loop of
  \<open>Atheros_Driver_Task\<close> (\<^verbatim>\<open>common_src/driver/driver_main.c\<close>), the interrupt work of
  \<^verbatim>\<open>common_src/hw_interface/hw_api.c\<close> and the receive buffers of
  \<^verbatim>\<open>custom_src/driver/cust_driver_main.c\<close>. \<open>RESERVE_ONE_CREDIT_FOR_CONTROL\<close> is not defined in
  this tree, so of \<open>Driver_TxReady\<close> the last of the three credit tests is the live one.
\<close>

abbreviation DRIVER_SCOPE_RX :: u8 where "DRIVER_SCOPE_RX \<equiv> 0x01"
abbreviation DRIVER_SCOPE_TX :: u8 where "DRIVER_SCOPE_TX \<equiv> 0x02"
abbreviation DRIVER_STATE_IDLE :: u16 where "DRIVER_STATE_IDLE \<equiv> 0x00"
abbreviation DRIVER_STATE_RX_PROCESSING :: u16 where "DRIVER_STATE_RX_PROCESSING \<equiv> 0x01"
abbreviation DRIVER_STATE_INTERRUPT_PROCESSING :: u16 where "DRIVER_STATE_INTERRUPT_PROCESSING \<equiv> 0x03"
abbreviation DRIVER_STATE_ASYNC_PROCESSING :: u16 where "DRIVER_STATE_ASYNC_PROCESSING \<equiv> 0x04"
abbreviation DRIVER_STATE_PENDING_CONDITION_A :: u16 where "DRIVER_STATE_PENDING_CONDITION_A \<equiv> 0x05"
abbreviation DRIVER_STATE_PENDING_CONDITION_B :: u16 where "DRIVER_STATE_PENDING_CONDITION_B \<equiv> 0x06"
abbreviation DRIVER_STATE_PENDING_CONDITION_C :: u16 where "DRIVER_STATE_PENDING_CONDITION_C \<equiv> 0x07"
abbreviation DRIVER_STATE_PENDING_CONDITION_D :: u16 where "DRIVER_STATE_PENDING_CONDITION_D \<equiv> 0x08"
abbreviation DRIVER_STATE_PENDING_CONDITION_E :: u16 where "DRIVER_STATE_PENDING_CONDITION_E \<equiv> 0x09"
abbreviation DRIVER_STATE_PENDING_CONDITION_G :: u16 where "DRIVER_STATE_PENDING_CONDITION_G \<equiv> 0x0b"
abbreviation MAX_CREDIT_DEADLOCK_ATTEMPTS :: u32 where "MAX_CREDIT_DEADLOCK_ATTEMPTS \<equiv> 2"
abbreviation DEADLOCK_BLOCK_MSEC :: u16 where "DEADLOCK_BLOCK_MSEC \<equiv> 10"

section \<open>Completing requests\<close>

definition Driver_CompleteRequest :: "'e mqx \<Rightarrow> 'e upper \<Rightarrow> ptr \<Rightarrow> 'e drv \<Rightarrow> (A_STATUS \<times> 'e drv) option" where
  "Driver_CompleteRequest M U p s = (
     let s = (if irqMask (spi_hcd s) \<noteq> 0
              then set_hcd (\<lambda>h. h\<lparr>irqMask := 0\<rparr>) (snd (Hcd_UnmaskInterrupts M (irqMask (spi_hcd s)) s))
              else s) in do {
       A_ASSERT (p \<noteq> NULL \<and> t_cb (trans (nbs s p)) \<noteq> cb_NULL);
       s \<leftarrow> call_cb M U (t_cb (trans (nbs s p))) p s;
       Some (A_OK, s)})"

text \<open>The test both \<open>Driver_Main\<close> and \<open>HW_ProcessPendingInterrupts\<close> make for a request that is done.\<close>

definition complete_deferred :: "'e mqx \<Rightarrow> 'e upper \<Rightarrow> 'e drv \<Rightarrow> 'e drv option" where
  "complete_deferred M U s =
     (if flag_set SDHD_BOOL_DMA_COMPLETE s then do {
        (status, s) \<leftarrow> Driver_CompleteRequest M U (pCurrentRequest (spi_hcd s)) s;
        Some (if status = A_OK
              then (set_hcd (\<lambda>h. h\<lparr>pCurrentRequest := NULL\<rparr>) s)\<lparr>booleans := booleans s AND NOT SDHD_BOOL_DMA_COMPLETE\<rparr>
              else s)}
      else Some s)"

definition Driver_DropTxDataPackets :: "'e mqx \<Rightarrow> 'e upper \<Rightarrow> 'e drv \<Rightarrow> 'e drv option" where
  "Driver_DropTxDataPackets M U s =
     requeue tx_enqueue tx_dequeue NULL
       (\<lambda>s p. \<not> t_epid (trans (nbs s p)) > ENDPOINT_1)
       (\<lambda>s p. do {(status, s) \<leftarrow> Driver_CompleteRequest M U p s; Some s})
       (unat (q_count (txQueue s))) s"

section \<open>Interrupt work\<close>

definition process_cpu_interrupt :: "'e mqx \<Rightarrow> 'e drv \<Rightarrow> 'e drv option" where
  "process_cpu_interrupt M s =
     (if CpuInterrupt (spi_hcd s) \<noteq> 0 then do {
        (ok, cpuIntrCause, s) \<leftarrow> Hcd_ReadCPUInterrupt M 0 s;
        let s = (if ok then set_hcd (\<lambda>h. h\<lparr>CpuInterruptCause := cpuIntrCause\<rparr>) s else s);
        let s = s\<lparr>driver_state := DRIVER_STATE_INTERRUPT_PROCESSING\<rparr>;
        s \<leftarrow> Hcd_ClearCPUInterrupt M s;
        let s = snd (Hcd_UnmaskInterrupts M ATH_SPI_INTR_LOCAL_CPU_INTR s);
        s \<leftarrow> HTC_ProcessCpuInterrupt M s;
        Some (set_hcd (\<lambda>h. h\<lparr>CpuInterrupt := 0\<rparr>) s)}
      else Some s)"

definition HW_ProcessPendingInterrupts :: "'e mqx \<Rightarrow> 'e upper \<Rightarrow> 'e drv \<Rightarrow> (A_STATUS \<times> 'e drv) option" where
  "HW_ProcessPendingInterrupts M U s = do {
     let s = s\<lparr>driver_state := DRIVER_STATE_PENDING_CONDITION_A\<rparr>;
     s \<leftarrow> (if IrqDetected (spi_hcd s) then do {
             let s = set_hcd (\<lambda>h. h\<lparr>IrqDetected := False\<rparr>) (s\<lparr>driver_state := DRIVER_STATE_INTERRUPT_PROCESSING\<rparr>);
             (_, s) \<leftarrow> Hcd_BusInterrupt M s;
             Some s}
           else Some s);
     let s = s\<lparr>driver_state := DRIVER_STATE_PENDING_CONDITION_B\<rparr>;
     s \<leftarrow> complete_deferred M U s;
     s \<leftarrow> process_cpu_interrupt M s;
     Some (A_OK, s\<lparr>driver_state := DRIVER_STATE_PENDING_CONDITION_C\<rparr>)}"

section \<open>Ready to transmit\<close>

text \<open>The credit test: the packet's endpoint has credits, if necessary after a read of the chip's
  counter. If there are none and no receive buffer is left that could bring a credit report, the
  driver polls, and at the third poll drops its data packets.\<close>

definition tx_credit_ready :: "'e mqx \<Rightarrow> 'e upper \<Rightarrow> ptr \<Rightarrow> 'e drv \<Rightarrow> (bool \<times> 'e drv) option" where
  "tx_credit_ready M U pReq s = (
     let epid = ucast (t_epid (trans (nbs s pReq))); i = Util_GetEndpoint epid in
     if credits (ep s i) = 0 then do {
       s \<leftarrow> Htc_GetCreditCounterUpdate M epid s;
       if credits (ep s i) = 0 then
         if \<not> rxBufferStatus s then
           let s = s\<lparr>creditDeadlock := True\<rparr> in
           if creditDeadlockCounter s \<ge> MAX_CREDIT_DEADLOCK_ATTEMPTS then do {
             s \<leftarrow> Driver_DropTxDataPackets M U s;
             Some (False, s\<lparr>creditDeadlockCounter := 0\<rparr>)}
           else Some (False, s)
         else Some (False, s)
       else Some (True, s)}
     else Some (True, s))"

text \<open>The room test: enough space in the chip's write buffer, or else a watermark interrupt.\<close>

definition tx_space_ready :: "'e mqx \<Rightarrow> ptr \<Rightarrow> 'e drv \<Rightarrow> (bool \<times> 'e drv) option" where
  "tx_space_ready M pReq s = (
     let short = (\<lambda>s. WriteBufferSpace (spi_hcd s)
                       < DEV_CALC_PADDED_LEN s (nb_len pReq s) + ATH_SPI_WRBUF_RSVD_BYTES) in
     if short s then
       let s = Hcd_RefreshWriteBufferSpace M s in
       if short s then do {
         (status, s) \<leftarrow> Hcd_ProgramWriteBufferWaterMark M (DEV_CALC_PADDED_LEN s (nb_len pReq s)) s;
         Some (False, s)}
       else Some (True, s)
     else Some (True, s))"

definition Driver_TxReady :: "'e mqx \<Rightarrow> 'e upper \<Rightarrow> 'e drv \<Rightarrow> (bool \<times> 'e drv) option" where
  "Driver_TxReady M U s = (
     let s = s\<lparr>creditDeadlock := False\<rparr>; pReq = q_head (txQueue s) in
     if flag_set SDHD_BOOL_FATAL_ERROR s then Some (False, s)
     else if flag_set SDHD_BOOL_DMA_IN_PROG s \<or> flag_set SDHD_BOOL_DMA_COMPLETE s
       \<or> flag_set SDHD_BOOL_DMA_WRITE_WAIT_FOR_BUFFER s then Some (False, s)
     else if pReq = NULL then Some (False, s)
     else do {
       A_ASSERT (\<not> ucast (creditSize s) < DEV_CALC_PADDED_LEN s (nb_len pReq s));
       (ok, s) \<leftarrow> tx_credit_ready M U pReq s;
       if \<not> ok then Some (False, s)
       else tx_space_ready M pReq (s\<lparr>creditDeadlockCounter := 0\<rparr>)})"

section \<open>Ready to receive\<close>

definition Custom_GetRxRequest :: "u16 \<Rightarrow> 'e drv \<Rightarrow> (ptr \<times> 'e drv) option" where
  "Custom_GetRxRequest len s = (
     let (pReq, s) = rxfree_dequeue s;
         s = (if q_count (rxFreeQueue s) = 0 then Driver_ReportRxBuffStatus False s else s) in do {
       A_ASSERT (pReq \<noteq> NULL);
       let s = set_nb pReq (\<lambda>nb. a_netbuf_init nb (cxt_ptr s)) s;
       A_ASSERT (ucast len \<le> a_netbuf_tailroom (nbs s pReq));
       Some (pReq, s)})"

text \<open>The packet interrupt is acknowledged here, not in the interrupt handler.\<close>

definition ack_pkt_interrupt :: "'e mqx \<Rightarrow> 'e drv \<Rightarrow> bool \<times> 'e drv" where
  "ack_pkt_interrupt M s =
     (case Hcd_DoPioInternalAccess_read M ATH_SPI_INTR_CAUSE_REG s of (status, interrupts, s) \<Rightarrow>
      if status \<noteq> A_OK then (False, s)
      else if interrupts AND ATH_SPI_INTR_PKT_AVAIL \<noteq> 0 then
        case Hcd_DoPioInternalAccess_write M ATH_SPI_INTR_CAUSE_REG ATH_SPI_INTR_PKT_AVAIL s of (status, s) \<Rightarrow>
          (status = A_OK, s)
      else (True, s))"

definition refresh_lookahead :: "'e mqx \<Rightarrow> 'e drv \<Rightarrow> 'e drv option" where
  "refresh_lookahead M s =
     (if lookAhead s = 0 then do {
        (status, s) \<leftarrow> Hcd_GetLookAhead M s;
        A_ASSERT (status = A_OK);
        Some s}
      else Some s)"

text \<open>A receive request for the packet the look-ahead announces.\<close>

definition rx_request_ready :: "'e drv \<Rightarrow> (bool \<times> 'e drv) option" where
  "rx_request_ready s =
     (if pRxReq s = NULL then
        let fullLength = DEV_CALC_PADDED_LEN s (ucast (lookahead_payload (lookAhead s)) + HTC_HDR_LENGTH) in do {
          s \<leftarrow> (if rxBufferStatus s then do {
                  (pReq, s) \<leftarrow> Custom_GetRxRequest (ucast fullLength) s;
                  Some (s\<lparr>pRxReq := pReq\<rparr>)}
                else Some s);
          Some (if pRxReq s = NULL then (False, s)
                else (True, set_trans (pRxReq s) (\<lambda>t. t\<lparr>t_cb := cb_Driver_RxComplete\<rparr>) s))}
      else Some (True, s))"

text \<open>What the look-ahead says: no packet, a packet that is not complete yet, or one to fetch.\<close>

definition rx_packet_ready :: "'e mqx \<Rightarrow> 'e drv \<Rightarrow> (bool \<times> 'e drv) option" where
  "rx_packet_ready M s =
     (if lookAhead s = 0 then
        Some (False, if PendingIrqAcks (spi_hcd s) \<noteq> 0
                     then snd (Hcd_UnmaskInterrupts M ATH_SPI_INTR_PKT_AVAIL (set_hcd (\<lambda>h. h\<lparr>PendingIrqAcks := 0\<rparr>) s))
                     else s)
      else if ReadBufferSpace (spi_hcd s) < 6
              \<or> ReadBufferSpace (spi_hcd s) < ucast (lookahead_payload (lookAhead s))
      then Some (False, s\<lparr>lookAhead := 0\<rparr>)
      else rx_request_ready s)"

definition Driver_RxReady :: "'e mqx \<Rightarrow> 'e drv \<Rightarrow> (bool \<times> 'e drv) option" where
  "Driver_RxReady M s =
     (if flag_set SDHD_BOOL_FATAL_ERROR s then Some (False, s)
      else if flag_set SDHD_BOOL_DMA_IN_PROG s \<or> flag_set SDHD_BOOL_DMA_COMPLETE s then Some (False, s)
      else if PendingIrqAcks (spi_hcd s) = 0 then Some (False, s)
      else if \<not> rxBufferStatus s \<and> pRxReq s = NULL then Some (False, s)
      else case ack_pkt_interrupt M s of (ok, s) \<Rightarrow>
        if \<not> ok then Some (False, s)
        else if enabledSpiInts s AND ATH_SPI_INTR_PKT_AVAIL = 0 then Some (False, s)
        else do {
          s \<leftarrow> refresh_lookahead M s;
          rx_packet_ready M s})"

section \<open>The driver task\<close>

definition receive_pass :: "'e mqx \<Rightarrow> 'e upper \<Rightarrow> u8 \<Rightarrow> 'e drv \<Rightarrow> 'e drv option" where
  "receive_pass M U scope s = do {
     (ready, s) \<leftarrow> (if scope AND DRIVER_SCOPE_RX \<noteq> 0 then Driver_RxReady M s else Some (False, s));
     if ready then
       let s = s\<lparr>driver_state := DRIVER_STATE_RX_PROCESSING\<rparr>; pReq = pRxReq s; s = s\<lparr>pRxReq := NULL\<rparr> in do {
         (status, s) \<leftarrow> Driver_RecvPacket M pReq s;
         A_ASSERT (status = A_OK);
         complete_deferred M U (s\<lparr>lookAhead := 0\<rparr>)}
     else Some s}"

definition transmit_pass :: "'e mqx \<Rightarrow> 'e upper \<Rightarrow> u8 \<Rightarrow> 'e drv \<Rightarrow> 'e drv option" where
  "transmit_pass M U scope s = do {
     (ready, s) \<leftarrow> (if scope AND DRIVER_SCOPE_TX \<noteq> 0 then Driver_TxReady M U s else Some (False, s));
     if ready then
       let s = s\<lparr>driver_state := DRIVER_STATE_TX_PROCESSING\<rparr> in
       if q_count (txQueue s) \<noteq> 0 then
         case tx_dequeue s of (pReq, s) \<Rightarrow>
           if pReq \<noteq> NULL then do {(status, s) \<leftarrow> Driver_SendPacket M pReq s; Some s} else Some s
       else Some s
     else Some s}"

text \<open>The special request; any but the transmit-status query is a parameter.\<close>

definition async_pass :: "'e mqx \<Rightarrow> 'e upper \<Rightarrow> 'e drv \<Rightarrow> 'e drv option" where
  "async_pass M U s =
     (if \<not> flag_set SDHD_BOOL_DMA_IN_PROG s \<and> asynchRequest s \<noteq> async_NULL then
        let s = s\<lparr>driver_state := DRIVER_STATE_ASYNC_PROCESSING\<rparr> in
        case asynchRequest s of
          async_other n \<Rightarrow> up_async U n s
        | _ \<Rightarrow> do {(_, s) \<leftarrow> query_credit_deficit M s; Some s}
      else Some s)"

text \<open>May the task block? The values of \<open>*pCanBlock\<close> and \<open>*pBlock_msec\<close>, the latter unless it is left as it is.\<close>

definition may_block :: "'e mqx \<Rightarrow> 'e upper \<Rightarrow> 'e drv \<Rightarrow> (bool \<times> u16 option \<times> 'e drv) option" where
  "may_block M U s =
     (if (PendingIrqAcks (spi_hcd s) = 0 \<or> \<not> rxBufferStatus s) \<and> \<not> IrqDetected (spi_hcd s) then do {
        (txIdle, s) \<leftarrow> (if q_count (txQueue s) = 0 then Some (True, s)
                      else do {(ready, s) \<leftarrow> Driver_TxReady M U s; Some (\<not> ready, s)});
        Some (if txIdle \<and> \<not> flag_set SDHD_BOOL_DMA_COMPLETE s then
                if creditDeadlock s
                then (True, Some DEADLOCK_BLOCK_MSEC,
                      s\<lparr>creditDeadlockCounter := creditDeadlockCounter s + 1, driver_state := DRIVER_STATE_IDLE\<rparr>)
                else (True, None, s\<lparr>driver_state := DRIVER_STATE_IDLE\<rparr>)
              else (False, None, s))}
      else Some (False, None, s))"

definition Driver_Main :: "'e mqx \<Rightarrow> 'e upper \<Rightarrow> u8 \<Rightarrow> 'e drv \<Rightarrow> (A_STATUS \<times> bool \<times> u16 option \<times> 'e drv) option" where
  "Driver_Main M U scope s = do {
     (_, s) \<leftarrow> HW_ProcessPendingInterrupts M U s;
     s \<leftarrow> receive_pass M U scope s;
     let s = s\<lparr>driver_state := DRIVER_STATE_PENDING_CONDITION_D\<rparr>;
     s \<leftarrow> transmit_pass M U scope s;
     let s = s\<lparr>driver_state := DRIVER_STATE_PENDING_CONDITION_E\<rparr>;
     s \<leftarrow> async_pass M U s;
     let s = s\<lparr>driver_state := DRIVER_STATE_PENDING_CONDITION_G\<rparr>;
     (canBlock, block_msec, s) \<leftarrow> may_block M U s;
     Some (A_OK, canBlock, block_msec, s)}"

text \<open>The inner loop of \<open>Atheros_Driver_Task\<close>: it blocks when the last pass allowed it, ends on a
  shutdown request or when the wait without a timeout fails, and runs another pass otherwise. The two
  variables keep their value when a pass does not write them; \<open>block_msec\<close> starts uninitialised.\<close>

partial_function (option) driver_task_loop ::
    "'e mqx \<Rightarrow> 'e upper \<Rightarrow> bool \<Rightarrow> u16 \<Rightarrow> 'e drv \<Rightarrow> 'e drv option" where
  "driver_task_loop M U canBlock block_msec s = (
     let (stop, s) =
       (if canBlock then
          let timeout = ucast block_msec * up_alarm_frequency U div 1000;
              timeout = (if block_msec \<noteq> 0 \<and> timeout = 0 then 1 else timeout) in
          case up_wait_driver_event U timeout (s\<lparr>driverSleep := True\<rparr>) of (ok, s) \<Rightarrow>
            (\<not> ok \<and> timeout = 0, s)
        else (False, s)) in
     if stop then Some s
     else
       let s = s\<lparr>driverSleep := False\<rparr> in
       if driverShutdown s then Some s
       else do {
         (_, canBlock, b, s) \<leftarrow> Driver_Main M U (DRIVER_SCOPE_RX OR DRIVER_SCOPE_TX) s;
         driver_task_loop M U canBlock (case b of None \<Rightarrow> block_msec | Some b \<Rightarrow> b) s})"

definition Driver_DestroyThread :: "'e drv \<Rightarrow> A_STATUS \<times> 'e drv" where
  "Driver_DestroyThread s = (A_OK, Driver_WakeDriver (s\<lparr>driverShutdown := True\<rparr>))"

end
