(* ===== verification/Driver_Invariant.thy ===== *)
theory Driver_Invariant
  imports Driver_Main Spi_Steps
begin

text \<open>
  An invariant of the bus survives the whole driver. The layers above the host controller reach
  the chip only through its operations, and change nothing the bus depends on by themselves. The
  locale \<open>driver_invariant\<close> states what a property of the state has to satisfy for that argument, proves
  once that then every pass of the driver task and every entry point keeps it, and is interpreted
  on the bookkeeping of the interrupt enable register.
\<close>

text \<open>Nothing the bus depends on differs.\<close>

definition bus_same :: "'e drv \<Rightarrow> 'e drv \<Rightarrow> bool" where
  "bus_same s s' \<longleftrightarrow> hw_env s' = hw_env s \<and> irq_frame s' = irq_frame s
     \<and> SpiIntEnableShadow (spi_hcd s') = SpiIntEnableShadow (spi_hcd s)"

text \<open>The ways the driver changes its context without the bus.\<close>

lemma bus_same_updates:
  "bus_same s (s\<lparr>nbs := a1\<rparr>)" "bus_same s (s\<lparr>mem := a2\<rparr>)" "bus_same s (s\<lparr>driver_state := a3\<rparr>)"
  "bus_same s (s\<lparr>txQueue := a4\<rparr>)" "bus_same s (s\<lparr>rxFreeQueue := a5\<rparr>)" "bus_same s (set_ep i f s)"
  "bus_same s (s\<lparr>creditDeadlock := a6\<rparr>)" "bus_same s (s\<lparr>creditDeadlockCounter := a7\<rparr>)"
  "bus_same s (s\<lparr>pRxReq := a8\<rparr>)" "bus_same s (s\<lparr>lookAhead := a9\<rparr>)" "bus_same s (s\<lparr>rssi := b1\<rparr>)"
  "bus_same s (s\<lparr>txQueryResult := b2\<rparr>)" "bus_same s (s\<lparr>asynchRequest := b3\<rparr>)"
  "bus_same s (s\<lparr>txQueryInProgress := b4\<rparr>)" "bus_same s (s\<lparr>driverWakeEvent := b5\<rparr>)"
  "bus_same s (s\<lparr>userWakeEvent := b6\<rparr>)" "bus_same s (s\<lparr>rxBufferStatus := b7\<rparr>)"
  "bus_same s (s\<lparr>tx_complete_pend := b8\<rparr>)" "bus_same s (s\<lparr>htc_creditInit := b9\<rparr>)"
  "bus_same s (s\<lparr>creditCount := c1\<rparr>)" "bus_same s (s\<lparr>g_totAlloc := c2\<rparr>)" "bus_same s (s\<lparr>ep := c3\<rparr>)"
  by (simp_all add: bus_same_def irq_frame_def flag_set_def set_ep_def)

lemma bus_same_hcd:
  "bus_same s (set_hcd (\<lambda>h. h\<lparr>pCurrentRequest := d1\<rparr>) s)" "bus_same s (set_hcd (\<lambda>h. h\<lparr>IrqDetected := d2\<rparr>) s)"
  "bus_same s (set_hcd (\<lambda>h. h\<lparr>CpuInterrupt := d3\<rparr>) s)" "bus_same s (set_hcd (\<lambda>h. h\<lparr>CpuInterruptCause := d4\<rparr>) s)"
  "bus_same s (set_hcd (\<lambda>h. h\<lparr>irqMask := d5\<rparr>) s)" "bus_same s (set_hcd (\<lambda>h. h\<lparr>PendingIrqAcks := d6\<rparr>) s)"
  by (simp_all add: bus_same_def irq_frame_def flag_set_def set_hcd_def)

lemma bus_same_flags:
  "bus_same s (s\<lparr>booleans := booleans s OR SDHD_BOOL_DMA_COMPLETE\<rparr>)"
  "bus_same s (s\<lparr>booleans := booleans s AND NOT SDHD_BOOL_DMA_COMPLETE\<rparr>)"
  using flag_set_or [of SDHD_BOOL_DMA_COMPLETE SDHD_BOOL_DMA_IN_PROG "booleans s" s]
    flag_set_and_not [of SDHD_BOOL_DMA_COMPLETE SDHD_BOOL_DMA_IN_PROG "booleans s" s]
  by (simp_all add: bus_same_def irq_frame_def)

lemma bus_same_sym: "bus_same s s' \<Longrightarrow> bus_same s' s"
  by (simp add: bus_same_def)

locale driver_invariant =
  fixes M :: "'e mqx" and U :: "'e upper" and I :: "'e drv \<Rightarrow> bool"
  assumes spi: "I s \<Longrightarrow> spi_step M s s' \<Longrightarrow> I s'"
    and ack: "I s \<Longrightarrow> I (snd (ack_pkt_interrupt M s))"
    and same: "I s \<Longrightarrow> bus_same s s' \<Longrightarrow> I s'"
    and mem_freed: "I s \<Longrightarrow> I (a_free M p s)"
    and unblock: "I s \<Longrightarrow> I (up_unblock U p s)"
    and control_rx: "I s \<Longrightarrow> up_wmi_control_rx U p s = Some s' \<Longrightarrow> I s'"
    and deliver: "I s \<Longrightarrow> up_deliver_frame U p s = Some s' \<Longrightarrow> I s'"
    and async: "I s \<Longrightarrow> up_async U n s = Some s' \<Longrightarrow> I s'"
begin

lemma same_iff: "bus_same s s' \<Longrightarrow> I s' = I s"
  using same bus_same_sym by blast

lemmas updates [simp] = bus_same_updates [THEN same_iff] bus_same_hcd [THEN same_iff] bus_same_flags [THEN same_iff]

lemma flags_num [simp]: "I (s\<lparr>booleans := booleans s AND - 257\<rparr>) = I s"
  using updates(30) [of s] by simp

lemma hcd_flags_num [simp]: "I (set_hcd (\<lambda>h. h\<lparr>pCurrentRequest := x\<rparr>) s\<lparr>booleans := booleans s AND - 257\<rparr>) = I s"
  using flags_num [of "set_hcd (\<lambda>h. h\<lparr>pCurrentRequest := x\<rparr>) s"] by simp

lemma hcd_flags_or [simp]: "I (set_hcd (\<lambda>h. h\<lparr>pCurrentRequest := x\<rparr>) s\<lparr>booleans := booleans s OR SDHD_BOOL_DMA_COMPLETE\<rparr>) = I s"
  using updates(29) [of "set_hcd (\<lambda>h. h\<lparr>pCurrentRequest := x\<rparr>) s"] by simp

lemma set_nb [simp]: "I (set_nb p f s) = I s" "I (set_trans p g s) = I s"
  by (simp_all add: set_nb_def set_trans_def)

lemma wake [simp]: "I (Driver_WakeDriver s) = I s" "I (Driver_WakeUser s) = I s"
  by (simp_all add: Driver_WakeDriver_def Driver_WakeUser_def)

lemma rx_status [simp]: "I (Driver_ReportRxBuffStatus b s) = I s"
  by (simp add: Driver_ReportRxBuffStatus_def Let_def)

lemma queues [simp]: "I (tx_enqueue s p) = I s" "I (tx_prequeue s p) = I s" "I (rxfree_enqueue s p) = I s"
  "I (snd (tx_dequeue s)) = I s" "I (snd (rxfree_dequeue s)) = I s"
  by (auto simp: tx_enqueue_def tx_prequeue_def rxfree_enqueue_def tx_dequeue_def rxfree_dequeue_def split: prod.splits)

lemma dequeued: "tx_dequeue s = (p, s') \<Longrightarrow> I s' = I s" "rxfree_dequeue s = (p, s') \<Longrightarrow> I s' = I s"
  using queues(4,5) [of s] by simp_all

lemma on_nb: "on_nb p f s = Some s' \<Longrightarrow> I s' = I s"
  by (auto simp: on_nb_Some)

lemma external: "Hcd_DoPioExternalAccess M req s = Some (st, s') \<Longrightarrow> I s \<Longrightarrow> I s'"
  by (blast intro: spi spi_step.external)

lemma request: "Hcd_Request M req s = Some (st, s') \<Longrightarrow> I s \<Longrightarrow> I s'"
  by (blast intro: spi spi_step.request)

lemma unmask: "I s \<Longrightarrow> I (snd (Hcd_UnmaskInterrupts M m s))"
  by (blast intro: spi spi_step.unmask_irqs prod.collapse [symmetric])

lemma bus_interrupt: "Hcd_BusInterrupt M s = Some (b, s') \<Longrightarrow> I s \<Longrightarrow> I s'"
  by (blast intro: spi spi_step.bus_interrupt)

lemma look_ahead: "Hcd_GetLookAhead M s = Some (st, s') \<Longrightarrow> I s \<Longrightarrow> I s'"
  by (blast intro: spi spi_step.look_ahead)

lemma refresh: "I s \<Longrightarrow> I (Hcd_RefreshWriteBufferSpace M s)"
  by (blast intro: spi spi_step.refresh)

lemma water_mark: "Hcd_ProgramWriteBufferWaterMark M n s = Some (st, s') \<Longrightarrow> I s \<Longrightarrow> I s'"
  by (blast intro: spi spi_step.water_mark)

lemmas bus_ops = external request bus_interrupt look_ahead water_mark

lemma htc_recv: "Htc_ProcessRecvHeader p w la s = Some (st, la', s') \<Longrightarrow> I s \<Longrightarrow> I s'"
proof -
  have trailer: "recv_trailer p w b L la s = Some (st, la', s') \<Longrightarrow> I s \<Longrightarrow> I s'" for b L la s st la' s'
    by (auto simp: recv_trailer_def Let_def A_ASSERT_bind_Some bind_eq_Some_conv on_nb dest!: ProcessTrailer_frame
        split: if_splits)
  have pad: "recv_trim_padding p L s = Some s' \<Longrightarrow> I s' = I s" for L s s'
    by (auto simp: recv_trim_padding_def on_nb split: if_splits)
  show "Htc_ProcessRecvHeader p w la s = Some (st, la', s') \<Longrightarrow> I s \<Longrightarrow> I s'"
    by (auto simp: Htc_ProcessRecvHeader_def Let_def A_ASSERT_bind_Some bind_eq_Some_conv on_nb
        dest!: pad dest: trailer)
qed

lemma htc_tx_complete: "Htc_ProcessTxComplete p s = Some s' \<Longrightarrow> I s' = I s"
  by (simp add: Htc_ProcessTxComplete_def on_nb)

lemma htc_send: "Htc_SendPacket p s = Some (st, s') \<Longrightarrow> I s' = I s"
  by (auto simp: Htc_SendPacket_def Let_def A_ASSERT_bind_Some bind_eq_Some_conv split: if_splits)

lemma htc_prepare: "Htc_PrepareRecvPacket p s = Some s' \<Longrightarrow> I s' = I s"
  by (auto simp: Htc_PrepareRecvPacket_def Let_def bind_eq_Some_conv dest!: on_nb)

lemma read_counter: "Htc_ReadCreditCounter M i s = Some (v, s') \<Longrightarrow> I s \<Longrightarrow> I s'"
  by (auto simp: Htc_ReadCreditCounter_def Let_def A_ASSERT_bind_Some bind_eq_Some_conv dest: external)

lemma counter_update: "Htc_GetCreditCounterUpdate M e s = Some s' \<Longrightarrow> I s \<Longrightarrow> I s'"
  by (auto simp: Htc_GetCreditCounterUpdate_def Let_def bind_eq_Some_conv dest: read_counter split: if_splits)

lemma cpu_interrupt: "HTC_ProcessCpuInterrupt M s = Some s' \<Longrightarrow> I s \<Longrightarrow> I s'"
  by (auto simp: HTC_ProcessCpuInterrupt_def Htc_DistributeCredits_def Let_def bind_eq_Some_conv A_ASSERT_bind_Some
      dest: external split: if_splits)

lemma freed: "I s \<Longrightarrow> I (a_netbuf_free M U p s)"
  by (auto simp: a_netbuf_free_def a_netbuf_free_rx_pool_def a_netbuf_free_tx_pool_def txpkt_free_def Let_def
      mem_freed unblock)

lemma hdr_remove: "wmi_data_hdr_remove p s = Some (st, s') \<Longrightarrow> I s' = I s"
  by (auto simp: wmi_data_hdr_remove_def bind_eq_Some_conv on_nb)

lemma rx_data: "rx_data_frame M U p s = Some s' \<Longrightarrow> I s \<Longrightarrow> I s'"
  by (auto simp: rx_data_frame_def Let_def A_ASSERT_bind_Some bind_eq_Some_conv freed
      dest!: hdr_remove deliver [rotated] split: if_splits)

lemma api_rx: "Api_RxComplete M U p s = Some s' \<Longrightarrow> I s \<Longrightarrow> I s'"
  by (auto simp: Api_RxComplete_def bind_eq_Some_conv freed dest!: hdr_remove
      dest: rx_data deliver [rotated] control_rx [rotated] split: if_splits)

lemma api_tx: "I s \<Longrightarrow> I (Api_TxComplete M U p s)"
  by (simp add: Api_TxComplete_def Let_def freed)

lemma callback: "call_cb M U cb p s = Some s' \<Longrightarrow> I s \<Longrightarrow> I s'"
  by (cases cb) (auto simp: call_cb_def Driver_RxComplete_def Driver_TxComplete_def Driver_Ep0TxComplete_def
      Htc_RxComplete_def bind_eq_Some_conv A_ASSERT_bind_Some freed api_tx
      dest!: htc_tx_complete dest: htc_recv api_rx split: if_splits)

lemma complete_request: "Driver_CompleteRequest M U p s = Some (st, s') \<Longrightarrow> I s \<Longrightarrow> I s'"
  by (auto simp: Driver_CompleteRequest_def Let_def A_ASSERT_bind_Some bind_eq_Some_conv unmask dest: callback
      split: if_splits)

lemma deferred: "complete_deferred M U s = Some s' \<Longrightarrow> I s \<Longrightarrow> I s'"
  by (auto simp: complete_deferred_def bind_eq_Some_conv dest!: complete_request split: if_splits)

lemma drop_tx:
  assumes "Driver_DropTxDataPackets M U s = Some s'" "I s"
  shows "I s'"
proof -
  let ?run = "requeue tx_enqueue tx_dequeue NULL (\<lambda>s p. \<not> t_epid (trans (nbs s p)) > ENDPOINT_1)
    (\<lambda>s p. do {(status, s) \<leftarrow> Driver_CompleteRequest M U p s; Some s})"
  have "?run n s = Some s' \<Longrightarrow> I s \<Longrightarrow> I s'" for n s
  proof (induction n arbitrary: s)
    case (Suc n)
    obtain x t where d: "tx_dequeue s = (x, t)" by fastforce
    then have t: "I t" using Suc.prems(2) queues(4) [of s] by simp
    from Suc.prems(1) d Suc.IH t show ?case
      by (auto simp: bind_eq_Some_conv dest: complete_request split: if_splits)
  qed simp
  with assms show ?thesis by (simp add: Driver_DropTxDataPackets_def)
qed

lemma cpu_pending: "process_cpu_interrupt M s = Some s' \<Longrightarrow> I s \<Longrightarrow> I s'"
proof -
  have 1: "Hcd_ReadCPUInterrupt M c s = Some (ok, c', s') \<Longrightarrow> I s \<Longrightarrow> I s'" for c s ok c' s'
    by (auto simp: Hcd_ReadCPUInterrupt_def Let_def bind_eq_Some_conv dest: external split: if_splits)
  have 2: "Hcd_ClearCPUInterrupt M s = Some s' \<Longrightarrow> I s \<Longrightarrow> I s'" for s s'
    by (auto simp: Hcd_ClearCPUInterrupt_def Let_def bind_eq_Some_conv dest: external)
  show "process_cpu_interrupt M s = Some s' \<Longrightarrow> I s \<Longrightarrow> I s'"
    by (auto simp: process_cpu_interrupt_def Let_def bind_eq_Some_conv unmask dest!: 1 2 cpu_interrupt split: if_splits)
qed

lemma pending_interrupts: "HW_ProcessPendingInterrupts M U s = Some (st, s') \<Longrightarrow> I s \<Longrightarrow> I s'"
  by (auto simp: HW_ProcessPendingInterrupts_def Let_def bind_eq_Some_conv dest!: bus_interrupt deferred cpu_pending
      split: if_splits)

lemma credit_ready: "tx_credit_ready M U p s = Some (b, s') \<Longrightarrow> I s \<Longrightarrow> I s'"
  by (auto simp: tx_credit_ready_def Let_def bind_eq_Some_conv dest!: counter_update drop_tx split: if_splits)

lemma space_ready: "tx_space_ready M p s = Some (b, s') \<Longrightarrow> I s \<Longrightarrow> I s'"
  by (auto simp: tx_space_ready_def Let_def bind_eq_Some_conv refresh dest!: water_mark split: if_splits)

lemma tx_ready: "Driver_TxReady M U s = Some (b, s') \<Longrightarrow> I s \<Longrightarrow> I s'"
  by (auto simp: Driver_TxReady_def Let_def bind_eq_Some_conv A_ASSERT_bind_Some dest!: credit_ready space_ready
      split: if_splits)

lemma get_rx: "Custom_GetRxRequest len s = Some (p, s') \<Longrightarrow> I s \<Longrightarrow> I s'"
  by (auto simp: Custom_GetRxRequest_def Let_def A_ASSERT_bind_Some dest!: dequeued(2) split: prod.splits if_splits)

lemma rx_request: "rx_request_ready s = Some (b, s') \<Longrightarrow> I s \<Longrightarrow> I s'"
  by (auto simp: rx_request_ready_def Let_def bind_eq_Some_conv dest!: get_rx split: if_splits)

lemma rx_packet: "rx_packet_ready M s = Some (b, s') \<Longrightarrow> I s \<Longrightarrow> I s'"
  by (auto simp: rx_packet_ready_def unmask dest: rx_request split: if_splits)

lemma rx_ready: "Driver_RxReady M s = Some (b, s') \<Longrightarrow> I s \<Longrightarrow> I s'"
proof -
  assume run: "Driver_RxReady M s = Some (b, s')" and "I s"
  obtain ok t where a: "ack_pkt_interrupt M s = (ok, t)" by fastforce
  have t: "I t" using ack [OF \<open>I s\<close>] a by simp
  have look: "refresh_lookahead M t = Some u \<Longrightarrow> I u" for u
    using t by (auto simp: refresh_lookahead_def bind_eq_Some_conv A_ASSERT_bind_Some dest: look_ahead split: if_splits)
  from run a t \<open>I s\<close> show "I s'"
    by (auto simp: Driver_RxReady_def bind_eq_Some_conv dest!: look rx_packet split: if_splits)
qed

lemma post_process [simp]: "I (Driver_PostProcessRequest p st s) = I s"
  by (simp add: Driver_PostProcessRequest_def Let_def)

lemma send_packet: "Driver_SendPacket M p s = Some (st, s') \<Longrightarrow> I s \<Longrightarrow> I s'"
  by (auto simp: Driver_SendPacket_def Let_def bind_eq_Some_conv dest!: htc_send request split: if_splits)

lemma recv_packet: "Driver_RecvPacket M p s = Some (st, s') \<Longrightarrow> I s \<Longrightarrow> I s'"
  by (auto simp: Driver_RecvPacket_def Let_def bind_eq_Some_conv dest!: htc_prepare request)

lemma receive: "receive_pass M U scope s = Some s' \<Longrightarrow> I s \<Longrightarrow> I s'"
  by (auto simp: receive_pass_def Let_def bind_eq_Some_conv A_ASSERT_bind_Some
      dest!: rx_ready recv_packet deferred split: if_splits)

lemma transmit: "transmit_pass M U scope s = Some s' \<Longrightarrow> I s \<Longrightarrow> I s'"
  by (auto simp: transmit_pass_def Let_def bind_eq_Some_conv dest!: tx_ready send_packet dequeued(1)
      split: if_splits prod.splits)

lemma async_done: "async_pass M U s = Some s' \<Longrightarrow> I s \<Longrightarrow> I s'"
  by (auto simp: async_pass_def query_credit_deficit_def Let_def bind_eq_Some_conv
      dest!: read_counter async [rotated] split: if_splits TEMP_FUNC_T.splits)

lemma block: "may_block M U s = Some (b, n, s') \<Longrightarrow> I s \<Longrightarrow> I s'"
  by (auto simp: may_block_def Let_def bind_eq_Some_conv dest!: tx_ready split: if_splits)

theorem driver_main: "Driver_Main M U scope s = Some (st, b, n, s') \<Longrightarrow> I s \<Longrightarrow> I s'"
  by (auto simp: Driver_Main_def Let_def bind_eq_Some_conv
      dest!: pending_interrupts receive transmit async_done block)

lemma prepare: "prepare_tx cb p s = Some s' \<Longrightarrow> I s' = I s"
  by (auto simp: prepare_tx_def Let_def bind_eq_Some_conv dest!: on_nb)

lemma submit: "Driver_SubmitTxRequest p s = Some (st, s') \<Longrightarrow> I s' = I s"
  "Driver_SubmitEp0TxRequest p s = Some (st, s') \<Longrightarrow> I s' = I s"
  by (auto simp: Driver_SubmitTxRequest_def Driver_SubmitEp0TxRequest_def Let_def bind_eq_Some_conv dest!: prepare)

end

section \<open>The interrupt enable register\<close>

text \<open>The calls that leave the driver keep a property of the state.\<close>

definition hooks_keep :: "'e upper \<Rightarrow> ('e drv \<Rightarrow> bool) \<Rightarrow> bool" where
  "hooks_keep U I \<longleftrightarrow> (\<forall>s. I s \<longrightarrow>
     (\<forall>p. I (up_unblock U p s)) \<and> (\<forall>p s'. up_wmi_control_rx U p s = Some s' \<longrightarrow> I s')
     \<and> (\<forall>p s'. up_deliver_frame U p s = Some s' \<longrightarrow> I s') \<and> (\<forall>n s'. up_async U n s = Some s' \<longrightarrow> I s'))"

lemma hooks_keepD:
  assumes "hooks_keep U I" "I s"
  shows "I (up_unblock U p s)" "up_wmi_control_rx U p s = Some s' \<Longrightarrow> I s'"
    "up_deliver_frame U p s = Some s' \<Longrightarrow> I s'" "up_async U n s = Some s' \<Longrightarrow> I s'"
  using assms unfolding hooks_keep_def by blast+

text \<open>A chip that keeps its interrupt enable register, a heap that is not on the bus, and upper
  layers that leave the bus alone.\<close>

definition platform_ok :: "'e mqx \<Rightarrow> 'e upper \<Rightarrow> ('e \<Rightarrow> u16) \<Rightarrow> bool" where
  "platform_ok M U r \<longleftrightarrow> ie_register M r \<and> (\<forall>p e. r (mem_free M p e) = r e) \<and> hooks_keep U (spi_inv r)"

lemma ack_in_step:
  assumes reg: "ie_register M r" and inv: "spi_inv r s"
  shows "spi_inv r (snd (ack_pkt_interrupt M s))"
proof -
  obtain v s1 where 1: "DoPioReadInternal M ATH_SPI_INTR_CAUSE_REG s = (A_OK, v, s1)" and c1: "core r s1 = core r s"
    by (rule read_ex [OF reg])
  obtain s2 where 2: "DoPioWriteInternal M ATH_SPI_INTR_CAUSE_REG ATH_SPI_INTR_PKT_AVAIL s1 = (A_OK, s2)"
    and c2: "core r s2 = core r s1"
    by (rule write_ex [OF reg, of ATH_SPI_INTR_CAUSE_REG]) simp
  have "snd (ack_pkt_interrupt M s) = s1 \<or> snd (ack_pkt_interrupt M s) = s2"
    by (simp add: ack_pkt_interrupt_def Hcd_DoPioInternalAccess_read_def Hcd_DoPioInternalAccess_write_def 1 2)
  then have c: "core r (snd (ack_pkt_interrupt M s)) = core r s" using c1 c2 by auto
  show ?thesis
    using spi_inv_frame [OF _ irq_frame_core [OF c] inv] in_step_core [OF c] inv by (simp add: spi_inv_def)
qed

lemma free_in_step: "\<forall>p e. r (mem_free M p e) = r e \<Longrightarrow> spi_inv r s \<Longrightarrow> spi_inv r (a_free M p s)"
  by (simp add: spi_inv_def in_step_def flag_set_def a_free_def qosal_free_def Let_def)

interpretation in_step: driver_invariant M U "\<lambda>s. platform_ok M U r \<longrightarrow> spi_inv r s" for M U r
proof unfold_locales
  fix s s' :: "'a drv" and p n
  let ?I = "\<lambda>s. platform_ok M U r \<longrightarrow> spi_inv r s"
  show "?I s \<Longrightarrow> spi_step M s s' \<Longrightarrow> ?I s'" by (auto simp: platform_ok_def intro: spi_step_inv)
  show "?I s \<Longrightarrow> ?I (snd (ack_pkt_interrupt M s))" by (simp add: platform_ok_def ack_in_step)
  show "?I s \<Longrightarrow> bus_same s s' \<Longrightarrow> ?I s'"
    by (auto simp: bus_same_def spi_inv_def in_step_def irq_frame_def)
  show "?I s \<Longrightarrow> ?I (a_free M p s)"
    by (simp add: platform_ok_def free_in_step)
  show "?I s \<Longrightarrow> ?I (up_unblock U p s)" by (simp add: platform_ok_def hooks_keepD(1))
  show "?I s \<Longrightarrow> up_wmi_control_rx U p s = Some s' \<Longrightarrow> ?I s'" using hooks_keepD(2) by (metis platform_ok_def)
  show "?I s \<Longrightarrow> up_deliver_frame U p s = Some s' \<Longrightarrow> ?I s'" using hooks_keepD(3) by (metis platform_ok_def)
  show "?I s \<Longrightarrow> up_async U n s = Some s' \<Longrightarrow> ?I s'" using hooks_keepD(4) by (metis platform_ok_def)
qed

text \<open>What happens in the running driver: passes of the driver task, interrupts, and packets from user tasks.\<close>

inductive driver_event :: "'e mqx \<Rightarrow> 'e upper \<Rightarrow> 'e drv \<Rightarrow> 'e drv \<Rightarrow> bool" for M U where
  pass: "Driver_Main M U scope s = Some (st, b, n, s') \<Longrightarrow> driver_event M U s s'"
| interrupt: "HW_InterruptHandler M s = s' \<Longrightarrow> driver_event M U s s'"
| submitted: "Driver_SubmitTxRequest p s = Some (st, s') \<Longrightarrow> driver_event M U s s'"
| submitted_ep0: "Driver_SubmitEp0TxRequest p s = Some (st, s') \<Longrightarrow> driver_event M U s s'"

inductive_simps driver_event_simps: "driver_event M U s s'"

text \<open>C@@2. The whole driver keeps the chip's interrupt enable register in step. On a platform where
  the chip keeps the register and the layers above leave the bus alone, after any
  sequence of passes of the driver task (each with its interrupt work, a received packet up to its delivery,
  a transmitted one up to its completion, credit reads, dropped packets), interrupts and
  submitted packets, the register equals the driver's shadow and no transfer is in progress.\<close>

theorem driver_keeps_enable_register:
  assumes "(driver_event M U)\<^sup>*\<^sup>* s s'" and "platform_ok M U r" and "spi_inv r s"
  shows "r (hw_env s') = SpiIntEnableShadow (spi_hcd s') \<and> \<not> flag_set SDHD_BOOL_DMA_IN_PROG s'"
proof -
  from assms(1,3) have "spi_inv r s'"
  proof (induction rule: rtranclp_induct)
    case (step t u)
    then have "spi_inv r t" by blast
    with step(2) show ?case
    proof cases
      case (pass scope st b n)
      with in_step.driver_main [of M U scope t st b n u r] \<open>spi_inv r t\<close> assms(2) show ?thesis by blast
    next
      case interrupt
      then have "spi_step M t u" by (rule spi_step.irq)
      with \<open>spi_inv r t\<close> assms(2) show ?thesis by (auto simp: platform_ok_def intro: spi_step_inv)
    next
      case (submitted p st)
      with in_step.submit(1) [OF submitted, of M U r] \<open>spi_inv r t\<close> assms(2) show ?thesis by blast
    next
      case (submitted_ep0 p st)
      with in_step.submit(2) [OF submitted_ep0, of M U r] \<open>spi_inv r t\<close> assms(2) show ?thesis by blast
    qed
  qed simp
  then show ?thesis by (simp add: spi_inv_def in_step_def)
qed

text \<open>A pass with nothing to do.\<close>

lemma driver_main_idle:
  assumes "\<not> IrqDetected (spi_hcd s)" "booleans s = 0" "CpuInterrupt (spi_hcd s) = 0" "PendingIrqAcks (spi_hcd s) = 0"
    "q_head (txQueue s) = NULL" "q_count (txQueue s) = 0" "asynchRequest s = async_NULL" "\<not> creditDeadlock s"
  shows "Driver_Main M U scope s = Some (A_OK, True, None, s\<lparr>driver_state := DRIVER_STATE_IDLE\<rparr>)"
proof -
  have pend: "HW_ProcessPendingInterrupts M U s = Some (A_OK, s\<lparr>driver_state := DRIVER_STATE_PENDING_CONDITION_C\<rparr>)"
    using assms by (simp add: HW_ProcessPendingInterrupts_def complete_deferred_def process_cpu_interrupt_def flag_set_def)
  have rx: "receive_pass M U scope t = Some t" if "PendingIrqAcks (spi_hcd t) = 0" "booleans t = 0" for t
    using that by (simp add: receive_pass_def Driver_RxReady_def flag_set_def)
  have cd: "s\<lparr>driver_state := x, creditDeadlock := False\<rparr> = s\<lparr>driver_state := x\<rparr>" for x
    using assms(8) by (cases s) simp
  have tx: "transmit_pass M U scope (s\<lparr>driver_state := x\<rparr>) = Some (s\<lparr>driver_state := x\<rparr>)" for x
    using assms by (simp add: transmit_pass_def Driver_TxReady_def flag_set_def cd)
  show ?thesis
    using assms by (simp add: Driver_Main_def pend rx tx async_pass_def may_block_def flag_set_def)
qed

theorem driver_keeps_enable_register_witness:
  "\<exists>s'. (driver_event enable_chip demo_upper)\<^sup>*\<^sup>* (edge_drv 0x1E) s' \<and> hw_env s' = SpiIntEnableShadow (spi_hcd s')
     \<and> IrqDetected (spi_hcd s')"
proof -
  let ?s = "edge_drv 0x1E"
  have ok: "platform_ok enable_chip demo_upper id"
    by (simp add: platform_ok_def enable_chip_register hooks_keep_def demo_upper_def) (simp add: enable_chip_def)
  obtain s1 where pass: "Driver_Main enable_chip demo_upper 3 ?s = Some (A_OK, True, None, s1)"
    using driver_main_idle [of ?s enable_chip demo_upper 3]
    by (simp add: edge_drv_def set_hcd_def drv_zero_def spi_hcd_zero_def queue_zero_def)
  let ?s2 = "HW_InterruptHandler enable_chip s1"
  have "driver_event enable_chip demo_upper ?s s1" by (rule driver_event.pass) (rule pass)
  moreover have "driver_event enable_chip demo_upper s1 ?s2" by (rule interrupt) (rule refl)
  ultimately have run: "(driver_event enable_chip demo_upper)\<^sup>*\<^sup>* ?s ?s2" by simp
  have "IrqDetected (spi_hcd ?s2)"
    by (simp add: HW_InterruptHandler_def HW_EnableDisableSPIIRQ_def Custom_Hcd_EnableDisableSPIIRQ_def
        Driver_WakeDriver_def set_hcd_def)
  with driver_keeps_enable_register [OF run ok edge_drv_inv] run show ?thesis
    by (intro exI [of _ ?s2]) simp
qed

end
