(* ===== verification/Driver_Ready.thy ===== *)
theory Driver_Ready
  imports Driver_Invariant
begin

text \<open>
  What the tests of the driver task are good for: when it decides to receive there is a buffer with
  room for the packet, when it decides to transmit the packet is not refused, and when it goes to
  sleep nothing is left to do. What it drops when it runs out of credits.
\<close>

section \<open>Receiving\<close>

lemma ucast_down_add: "(ucast (x + y :: u32) :: u16) = ucast x + ucast y"
  by (simp add: word_unat_eq_iff unsigned_ucast_eq take_bit_eq_mod unat_word_ariths mod_mod_cancel mod_simps)

lemma ucast_down_and: "(ucast (x AND y :: u32) :: u16) = ucast x AND ucast y"
  by (rule bit_word_eqI) (auto simp: bit_simps)

lemma ucast_down_not: "(ucast (NOT x :: u32) :: u16) = NOT (ucast x)"
  by (rule bit_word_eqI) (auto simp: bit_simps)

lemma ucast_down_up: "(ucast (ucast (x :: u16) :: u32) :: u16) = x"
  by (rule ucast_u16_u32)

text \<open>The length the buffer is chosen for, and the length it is used for, which is computed in 16 bits.\<close>

lemma padded_length_16:
  "(ucast (DEV_CALC_PADDED_LEN s (ucast (n + 6 :: u16))) :: u16) = ucast (DEV_CALC_PADDED_LEN s (ucast n + 6))"
  by (simp add: DEV_CALC_PADDED_LEN_def ucast_down_add ucast_down_and ucast_down_not ucast_down_up)

text \<open>The packets and queues of the context: what bus operations leave alone.\<close>

definition pkt_view :: "'e drv \<Rightarrow> (ptr \<Rightarrow> netbuf) \<times> (ptr \<Rightarrow> DRV_BUFFER) \<times> A_NETBUF_QUEUE_T \<times> A_NETBUF_QUEUE_T
    \<times> ptr \<times> bool \<times> u32 \<times> u16 \<times> bool \<times> bool \<times> u8" where
  "pkt_view s = (nbs s, natives s, txQueue s, rxFreeQueue s, pRxReq s, rxBufferStatus s, blockMask s, creditSize s,
     htcStart s, creditDeadlock s, PendingIrqAcks (spi_hcd s))"

lemma pkt_view_strip:
  assumes "strip s' = strip s"
  shows "pkt_view s' = pkt_view s"
proof -
  have "creditDeadlock s' = creditDeadlock s" using arg_cong [OF assms, of creditDeadlock] by (simp add: strip_def)
  then show ?thesis by (simp add: pkt_view_def strip_fields [OF assms])
qed

lemma pkt_view_updates [simp]:
  "pkt_view (s\<lparr>lookAhead := a\<rparr>) = pkt_view s" "pkt_view (s\<lparr>booleans := b\<rparr>) = pkt_view s"
  "pkt_view (s\<lparr>mem := m\<rparr>) = pkt_view s" "pkt_view (s\<lparr>hw_env := e\<rparr>) = pkt_view s"
  "pkt_view (s\<lparr>ep := x\<rparr>) = pkt_view s" "pkt_view (set_ep i f s) = pkt_view s"
  by (simp_all add: pkt_view_def set_ep_def)

lemma pkt_view_hcd: "(\<And>h. PendingIrqAcks (f h) = PendingIrqAcks h) \<Longrightarrow> pkt_view (set_hcd f s) = pkt_view s"
  by (simp add: pkt_view_def set_hcd_def)

lemmas pkt_view_io = DoPioReadInternal_strip [THEN pkt_view_strip] DoPioWriteInternal_strip [THEN pkt_view_strip]

lemma ack_frame: "ack_pkt_interrupt M s = (ok, s') \<Longrightarrow> pkt_view s' = pkt_view s"
  unfolding ack_pkt_interrupt_def Hcd_DoPioInternalAccess_read_def Hcd_DoPioInternalAccess_write_def
  by (auto split: prod.splits if_splits dest!: pkt_view_io)

lemma refresh_lookahead_frame: "refresh_lookahead M s = Some s' \<Longrightarrow> pkt_view s' = pkt_view s"
  unfolding refresh_lookahead_def Hcd_GetLookAhead_def
  by (auto simp: bind_eq_Some_conv A_ASSERT_bind_Some Let_def pkt_view_hcd split: prod.splits if_splits
      dest!: pkt_view_io)

text \<open>The buffer \<open>Custom_GetRxRequest\<close> hands out has the room asked for.\<close>

lemma get_rx_request:
  assumes "Custom_GetRxRequest len s = Some (p, s')"
  shows "p \<noteq> NULL \<and> ucast len \<le> nb_end (nbs s' p) - nb_tail (nbs s' p)
    \<and> blockMask s' = blockMask s \<and> lookAhead s' = lookAhead s"
  using assms unfolding Custom_GetRxRequest_def
  by (auto simp: Let_def A_ASSERT_bind_Some rxfree_dequeue_def Driver_ReportRxBuffStatus_def Driver_WakeDriver_def
      a_netbuf_tailroom_def set_nb_def split: prod.splits if_splits)

lemma prepare_recv_defined:
  assumes "n \<le> nb_end (nbs s p) - nb_tail (nbs s p)"
    and "n = ucast (ucast (DEV_CALC_PADDED_LEN s (ucast (lookahead_payload (lookAhead s) + ucast HTC_HDR_LENGTH))) :: u16)"
  shows "\<exists>s'. Htc_PrepareRecvPacket p s = Some s'"
  using assms by (simp add: Htc_PrepareRecvPacket_def on_nb_def set_trans_def set_nb_def a_netbuf_put_def
      DEV_CALC_PADDED_LEN_def Let_def A_ASSERT_def not_less)

text \<open>C13. Before a packet is received there is room for it. If \<open>Driver_RxReady\<close> finds a packet to receive, it
  has a receive request in hand that \<open>Driver_RxComplete\<close> will complete and a look-ahead, and when
  it took a fresh buffer from the pool, \<open>Htc_PrepareRecvPacket\<close> extends that buffer to the transfer
  length without an assertion failure, although the two compute the length in different widths.\<close>

theorem rx_ready_has_room:
  assumes run: "Driver_RxReady M s = Some (True, s')" and fresh: "pRxReq s = NULL"
  shows "pRxReq s' \<noteq> NULL \<and> t_cb (trans (nbs s' (pRxReq s'))) = cb_Driver_RxComplete \<and> lookAhead s' \<noteq> 0
    \<and> (\<exists>s2. Htc_PrepareRecvPacket (pRxReq s') s' = Some s2)"
proof -
  obtain t where a: "ack_pkt_interrupt M s = (True, t)"
    and "\<exists>u. refresh_lookahead M t = Some u \<and> rx_packet_ready M u = Some (True, s')"
    using run by (cases "ack_pkt_interrupt M s") (auto simp: Driver_RxReady_def bind_eq_Some_conv split: if_splits)
  then obtain u where r: "refresh_lookahead M t = Some u" and q: "rx_request_ready u = Some (True, s')"
    and la: "lookAhead u \<noteq> 0"
    by (auto simp: rx_packet_ready_def split: if_splits)
  have "pkt_view u = pkt_view s" using ack_frame [OF a] refresh_lookahead_frame [OF r] by simp
  then have null: "pRxReq u = NULL" using fresh by (simp add: pkt_view_def)
  let ?len = "ucast (DEV_CALC_PADDED_LEN u (ucast (lookahead_payload (lookAhead u)) + 6)) :: u16"
  obtain p v where get: "Custom_GetRxRequest ?len u = Some (p, v)" and p: "p \<noteq> NULL"
    and s': "s' = set_trans p (\<lambda>t. t\<lparr>t_cb := cb_Driver_RxComplete\<rparr>) (v\<lparr>pRxReq := p\<rparr>)"
    using q null by (auto simp: rx_request_ready_def Let_def bind_eq_Some_conv split: if_splits)
  note v = get_rx_request [OF get]
  have "\<exists>s2. Htc_PrepareRecvPacket p s' = Some s2"
  proof (rule prepare_recv_defined)
    show "ucast ?len \<le> nb_end (nbs s' p) - nb_tail (nbs s' p)"
      using v by (simp add: s' set_trans_def set_nb_def)
    show "ucast ?len = ucast (ucast (DEV_CALC_PADDED_LEN s' (ucast (lookahead_payload (lookAhead s') + ucast HTC_HDR_LENGTH))) :: u16)"
      using padded_length_16 [of s' "lookahead_payload (lookAhead s')"] v
      by (simp add: s' set_trans_def set_nb_def DEV_CALC_PADDED_LEN_def)
  qed
  with p la v show ?thesis by (simp add: s' set_trans_def set_nb_def)
qed

text \<open>A packet of 50 bytes announced to a driver that has one free buffer.\<close>

definition demo_rx :: "u16 drv" where
  "demo_rx = (drv_zero 0)\<lparr>lookAhead := 0x00320001, blockMask := 3, rxBufferStatus := True, enabledSpiInts := 1,
     rxFreeQueue := \<lparr>q_head = 0x500, q_tail = 0x500, q_count = 1\<rparr>,
     nbs := (\<lambda>_. netbuf_zero)(0x500 := a_netbuf_configure 0x1000 64 0 256),
     spi_hcd := spi_hcd_zero\<lparr>PendingIrqAcks := 1, ReadBufferSpace := 100\<rparr>\<rparr>"

definition quiet_chip :: "u16 mqx" where
  "quiet_chip = enable_chip\<lparr>spi_read_write := (\<lambda>_ _ e. (True, [0, 0, 0, 0], e))\<rparr>"

lemma demo_rx_ack: "ack_pkt_interrupt quiet_chip demo_rx = (True, demo_rx)"
  by (simp add: ack_pkt_interrupt_def Hcd_DoPioInternalAccess_read_def DoPioReadInternal_def Bus_InOutToken_def
      Custom_Bus_InOutToken_def Custom_Bus_StartTransfer_def Custom_Bus_CompleteTransfer_def quiet_chip_def enable_chip_def overwrite_bytes_4 Let_def
      le32_def swap16_def
      OUT_TOKEN_CMD_ADDR_INTERNAL_READ_def OUT_TOKEN_CMD_ADDR_DMA_READ_def OUT_TOKEN_CMD_ADDR_DMA_WRITE_def
      demo_rx_def drv_zero_def)

lemma demo_rx_fields:
  "booleans demo_rx = 0" "PendingIrqAcks (spi_hcd demo_rx) = 1" "ReadBufferSpace (spi_hcd demo_rx) = 100"
  "rxBufferStatus demo_rx" "enabledSpiInts demo_rx = 1" "lookAhead demo_rx \<noteq> 0"
  "ucast (lookahead_payload (lookAhead demo_rx)) = (50 :: u32)" "pRxReq demo_rx = NULL"
  by (simp_all add: demo_rx_def drv_zero_def lookahead_payload_def byte_of_def le16_def drop_bit_eq_div push_bit_eq_mult)

theorem rx_ready_has_room_witness:
  "\<exists>s'. Driver_RxReady quiet_chip demo_rx = Some (True, s') \<and> (\<exists>s2. Htc_PrepareRecvPacket (pRxReq s') s' = Some s2)"
proof -
  have "\<exists>s'. rx_request_ready demo_rx = Some (True, s')"
    by (simp add: rx_request_ready_def Let_def DEV_CALC_PADDED_LEN_def Custom_GetRxRequest_def rxfree_dequeue_def
        demo_rx_def drv_zero_def netbuf_zero_def a_netbuf_configure_def lookahead_payload_def byte_of_def le16_def
        drop_bit_eq_div push_bit_eq_mult Driver_ReportRxBuffStatus_def set_link_def AR6000_DATA_OFFSET_def a_netbuf_init_def a_netbuf_tailroom_def set_nb_def A_ASSERT_bind_Some)
  moreover have "Driver_RxReady quiet_chip demo_rx = rx_request_ready demo_rx"
    using demo_rx_ack by (simp add: Driver_RxReady_def refresh_lookahead_def rx_packet_ready_def flag_set_def demo_rx_fields)
  ultimately obtain s' where "Driver_RxReady quiet_chip demo_rx = Some (True, s')" by auto
  with rx_ready_has_room [OF this demo_rx_fields(8)] show ?thesis by blast
qed

section \<open>Transmitting\<close>

lemma external_frame:
  assumes "Hcd_DoPioExternalAccess M req s = Some (st, s')" "ie_register M r"
  shows "pkt_view s' = pkt_view s"
proof -
  have "strip s' = strip s" using quiet_external [OF assms] by (simp add: core_eq)
  then show ?thesis by (rule pkt_view_strip)
qed

lemma counter_frame:
  "Htc_GetCreditCounterUpdate M e s = Some s' \<Longrightarrow> ie_register M r \<Longrightarrow> pkt_view s' = pkt_view s"
  by (auto simp: Htc_GetCreditCounterUpdate_def Htc_ReadCreditCounter_def Let_def bind_eq_Some_conv A_ASSERT_bind_Some
      dest!: external_frame split: if_splits)

lemma refresh_frame: "pkt_view (Hcd_RefreshWriteBufferSpace M s) = pkt_view s"
  by (auto simp: Hcd_RefreshWriteBufferSpace_def pkt_view_hcd split: prod.splits dest!: pkt_view_io)

lemma refresh_ep: "ep (Hcd_RefreshWriteBufferSpace M s) = ep s"
  by (auto simp: Hcd_RefreshWriteBufferSpace_def set_hcd_def split: prod.splits
      dest!: DoPioReadInternal_strip [THEN strip_fields(5)])

lemma pkt_view_deadlock: "pkt_view (s\<lparr>creditDeadlockCounter := n\<rparr>) = pkt_view s"
  by (simp add: pkt_view_def)

text \<open>C12. A transmission that is announced is not refused. If \<open>Driver_TxReady\<close> says yes while HTC is
  running, on a bus that does not fail, then the packet at the head of the queue, submitted with
  the credits its transfer costs, is sent by \<open>Htc_SendPacket\<close>: its endpoint has a credit and gives
  up exactly one, without wrapping below zero, and the chip's write buffer has room for the transfer.\<close>

theorem tx_ready_sends:
  assumes run: "Driver_TxReady M U s = Some (True, s')" and bus: "ie_register M r" and htc: "htcStart s"
    and cost: "credits_required (DEV_CALC_PADDED_LEN s (nb_len (q_head (txQueue s)) s)) (creditSize s)
      = Some (ucast (t_credits (trans (nbs s (q_head (txQueue s))))))"
  defines "p \<equiv> q_head (txQueue s)" and "i \<equiv> Util_GetEndpoint (ucast (t_epid (trans (nbs s (q_head (txQueue s))))))"
  shows "\<exists>s2. Htc_SendPacket p s' = Some (A_OK, s2) \<and> unat (credits (ep s2 i)) + 1 = unat (credits (ep s' i))
    \<and> unat (DEV_CALC_PADDED_LEN s' (nb_len p s')) + 5 \<le> unat (WriteBufferSpace (spi_hcd s'))"
proof -
  let ?s0 = "s\<lparr>creditDeadlock := False\<rparr>"
  have len0: "DEV_CALC_PADDED_LEN ?s0 (nb_len p ?s0) = DEV_CALC_PADDED_LEN s (nb_len p s)"
    by (simp add: DEV_CALC_PADDED_LEN_def nb_len_def)
  obtain t where small: "DEV_CALC_PADDED_LEN s (nb_len p s) \<le> ucast (creditSize s)"
    and cr: "tx_credit_ready M U p ?s0 = Some (True, t)"
    and sp: "tx_space_ready M p (t\<lparr>creditDeadlockCounter := 0\<rparr>) = Some (True, s')"
    using run len0 by (auto simp: Driver_TxReady_def Let_def p_def bind_eq_Some_conv A_ASSERT_bind_Some not_less
        split: if_splits)
  have t: "pkt_view t = pkt_view ?s0 \<and> credits (ep t i) \<noteq> 0"
    using cr by (auto simp: tx_credit_ready_def Let_def bind_eq_Some_conv i_def p_def dest: counter_frame [OF _ bus]
        split: if_splits)
  have sp': "pkt_view s' = pkt_view ?s0" "ep s' = ep t"
    and room: "\<not> WriteBufferSpace (spi_hcd s') < DEV_CALC_PADDED_LEN s' (nb_len p s') + 5"
    using sp t by (auto simp: tx_space_ready_def Let_def bind_eq_Some_conv refresh_frame refresh_ep pkt_view_deadlock
        DEV_CALC_PADDED_LEN_def nb_len_def split: if_splits)
  have same: "nbs s' = nbs s" "natives s' = natives s" "blockMask s' = blockMask s" "htcStart s' = htcStart s"
    using sp'(1) by (simp_all add: pkt_view_def)
  have len: "DEV_CALC_PADDED_LEN s' (nb_len p s') = DEV_CALC_PADDED_LEN s (nb_len p s)"
    by (simp add: DEV_CALC_PADDED_LEN_def nb_len_def same)
  have one: "ucast (t_credits (trans (nbs s p))) = (1 :: u32)"
    using cost small by (simp add: credits_required_def p_def)
  have "t_credits (trans (nbs s p)) = 1"
    using arg_cong [OF one, of unat] unat_u8_u32 [of "t_credits (trans (nbs s p))"] by (simp add: word_unat_eq_iff)
  then have c: "t_credits (trans (nbs s' p)) = 1" and has: "credits (ep s' i) \<noteq> 0"
    using t sp'(2) by (simp_all add: same)
  have i: "Util_GetEndpoint (ucast (t_epid (trans (nbs s' p)))) = i" by (simp add: i_def p_def same)
  have start: "htcStart s'" using htc same by simp
  obtain s2 where "Htc_SendPacket p s' = Some (A_OK, s2)" and "ep s2 i = credit_consume 1 (ep s' i)"
    using has c start by (simp add: Htc_SendPacket_def Let_def i set_ep_def)
  moreover have "unat (credits (ep s' i) - 1) + 1 = unat (credits (ep s' i))"
    using has by (simp add: unat_minus_one unat_gt_0)
  moreover have "unat (DEV_CALC_PADDED_LEN s' (nb_len p s')) + 5 \<le> unat (WriteBufferSpace (spi_hcd s'))"
  proof -
    have "unat (DEV_CALC_PADDED_LEN s' (nb_len p s')) < 65536"
      using small unsigned_less [of "creditSize s", where ?'a = nat]
      by (simp add: len word_le_nat_alt unsigned_ucast_eq take_bit_eq_mod)
    then have "unat (DEV_CALC_PADDED_LEN s' (nb_len p s') + 5) = unat (DEV_CALC_PADDED_LEN s' (nb_len p s')) + 5"
      by (simp add: unat_word_ariths)
    then show ?thesis using room by (simp add: not_less word_le_nat_alt)
  qed
  ultimately show ?thesis by (auto simp: credit_consume_def)
qed

text \<open>A packet of 20 bytes, header included, on endpoint 1 with two credits.\<close>

definition demo_tx :: "u16 drv" where
  "demo_tx = (drv_zero 0)\<lparr>creditSize := 100, blockMask := 3, htcStart := True,
     txQueue := \<lparr>q_head = 0x500, q_tail = 0x500, q_count = 1\<rparr>,
     nbs := (\<lambda>_. netbuf_zero)(0x500 := trans_update (\<lambda>t. t\<lparr>t_epid := 1, t_credits := 1\<rparr>) (a_netbuf_configure 0x1000 64 20 256)),
     ep := (\<lambda>_. endpoint_zero\<lparr>credits := 2\<rparr>),
     spi_hcd := spi_hcd_zero\<lparr>WriteBufferSpace := 200\<rparr>\<rparr>"

lemma demo_tx_fields:
  "booleans demo_tx = 0" "q_head (txQueue demo_tx) = 0x500" "htcStart demo_tx" "creditSize demo_tx = 100"
  "blockMask demo_tx = 3" "nb_len 0x500 demo_tx = 20" "credits (ep demo_tx i) = 2"
  "t_epid (trans (nbs demo_tx 0x500)) = 1" "t_credits (trans (nbs demo_tx 0x500)) = 1"
  "WriteBufferSpace (spi_hcd demo_tx) = 200" "natives demo_tx = natives (drv_zero 0)"
  by (simp_all add: demo_tx_def drv_zero_def nb_len_def a_netbuf_to_len_def a_netbuf_configure_def netbuf_zero_def
      endpoint_zero_def)

lemma demo_tx_ready: "\<exists>s'. Driver_TxReady enable_chip demo_upper demo_tx = Some (True, s')"
proof -
  have "nb_len 0x500 (demo_tx\<lparr>creditDeadlock := b, creditDeadlockCounter := n\<rparr>) = 20"
    "nb_len 0x500 (demo_tx\<lparr>creditDeadlock := b\<rparr>) = 20" for b n
    using demo_tx_fields(6) by (simp_all add: nb_len_def)
  then show ?thesis
    by (simp add: Driver_TxReady_def flag_set_def demo_tx_fields DEV_CALC_PADDED_LEN_def tx_credit_ready_def Let_def
        tx_space_ready_def)
qed

theorem tx_ready_sends_witness:
  "\<exists>s' s2. Driver_TxReady enable_chip demo_upper demo_tx = Some (True, s') \<and> Htc_SendPacket 0x500 s' = Some (A_OK, s2)"
proof -
  obtain s' where run: "Driver_TxReady enable_chip demo_upper demo_tx = Some (True, s')"
    using demo_tx_ready by blast
  have "credits_required (DEV_CALC_PADDED_LEN demo_tx (nb_len (q_head (txQueue demo_tx)) demo_tx)) (creditSize demo_tx)
      = Some (ucast (t_credits (trans (nbs demo_tx (q_head (txQueue demo_tx))))))"
    by (simp add: demo_tx_fields DEV_CALC_PADDED_LEN_def credits_required_def)
  from tx_ready_sends [OF run enable_chip_register demo_tx_fields(3) this] run show ?thesis
    unfolding demo_tx_fields(2) by blast
qed

end
