(* ===== verification/Driver_Drop.thy ===== *)
theory Driver_Drop
  imports Driver_Ready
begin

text \<open>
  What the driver does when it runs out of credits and receive buffers at once:
  \<open>Driver_DropTxDataPackets\<close> completes the queued data packets unsent, which frees memory, and keeps
  the control packets.
\<close>

text \<open>The layer that is woken when a packet of the application is free again does not touch the
  driver's packets and its queue.\<close>

definition unblock_quiet :: "'e upper \<Rightarrow> bool" where
  "unblock_quiet U \<longleftrightarrow> (\<forall>c s. nbs (up_unblock U c s) = nbs s \<and> txQueue (up_unblock U c s) = txQueue s)"

lemma pkt_view_writeD: "DoPioWriteInternal M a v s = (st, s') \<Longrightarrow> pkt_view s' = pkt_view s"
  by (rule pkt_view_strip) (rule DoPioWriteInternal_strip)

lemma pkt_view_mask [simp]: "pkt_view (snd (MaskSPIInterrupts M m s)) = pkt_view s"
  by (cases "DoPioWriteInternal M ATH_SPI_INTR_ENABLE_REG (ucast (SpiIntEnableShadow (spi_hcd s) AND NOT m))
        (set_hcd (\<lambda>h. h\<lparr>SpiIntEnableShadow := SpiIntEnableShadow h AND NOT m\<rparr>) s)")
     (simp add: MaskSPIInterrupts.simps Let_def and_not_and_self pkt_view_writeD pkt_view_hcd)

lemma pkt_view_unmask [simp]: "pkt_view (snd (Hcd_UnmaskInterrupts M m s)) = pkt_view s"
  by (simp add: Hcd_UnmaskInterrupts.simps Let_def pkt_view_hcd
      DoPioWriteInternal_strip [OF prod.collapse [symmetric], THEN pkt_view_strip])

lemma pkt_view_queue: "pkt_view s' = pkt_view s \<Longrightarrow> txQueue s' = txQueue s" "pkt_view s' = pkt_view s \<Longrightarrow> nbs s' = nbs s"
  by (simp_all add: pkt_view_def)

text \<open>The packets of the transmit queue other than \<open>x\<close>, and the queue.\<close>

definition others_same :: "ptr \<Rightarrow> 'e drv \<Rightarrow> 'e drv \<Rightarrow> bool" where
  "others_same x s s' \<longleftrightarrow> txQueue s' = txQueue s \<and> (\<forall>y. y \<noteq> x \<longrightarrow> nbs s' y = nbs s y)"

lemma free_others:
  "unblock_quiet U \<Longrightarrow> rxPoolID (nbs s x) = 0 \<Longrightarrow> others_same x s (a_netbuf_free M U x s)"
  by (simp add: a_netbuf_free_def a_netbuf_free_tx_pool_def txpkt_free_def a_free_def qosal_free_def unblock_quiet_def
      others_same_def set_nb_def Let_def)

lemma complete_others:
  assumes run: "Driver_CompleteRequest M U x s = Some (st, s')" and quiet: "unblock_quiet U"
    and x: "t_cb (trans (nbs s x)) = cb_Driver_TxComplete" "rxPoolID (nbs s x) = 0"
  shows "others_same x s s'"
proof -
  define t where "t = (if irqMask (spi_hcd s) \<noteq> 0
    then set_hcd (\<lambda>h. h\<lparr>irqMask := 0\<rparr>) (snd (Hcd_UnmaskInterrupts M (irqMask (spi_hcd s)) s)) else s)"
  have "pkt_view t = pkt_view s" by (simp add: t_def pkt_view_hcd)
  note t = pkt_view_queue [OF this]
  have "call_cb M U (t_cb (trans (nbs t x))) x t = Some s'"
    using run by (auto simp: Driver_CompleteRequest_def t_def [symmetric] bind_eq_Some_conv A_ASSERT_bind_Some)
  then obtain u where u: "Htc_ProcessTxComplete x t = Some u" and s': "s' = Api_TxComplete M U x u"
    using x by (auto simp: t call_cb_def Driver_TxComplete_def bind_eq_Some_conv)
  have "others_same x t u" "rxPoolID (nbs u x) = 0"
    using u x by (auto simp: Htc_ProcessTxComplete_def on_nb_Some others_same_def t a_netbuf_pull_def A_ASSERT_bind_Some)
  then show ?thesis
    using free_others [OF quiet, of "Driver_WakeUser (u\<lparr>tx_complete_pend := False\<rparr>)" x M]
    by (simp add: s' Api_TxComplete_def Driver_WakeUser_def others_same_def t)
qed

lemma tx_dequeue_links: "tx_dequeue s = (p, s') \<Longrightarrow> \<exists>l. nbs s' y = (nbs s y)\<lparr>queueLink := l\<rparr>"
  using dequeue_links [of "nbs s" "txQueue s" y] by (auto simp: tx_dequeue_def split: prod.splits)

text \<open>The packets in the queue are as they were submitted.\<close>

definition submitted :: "(ptr \<Rightarrow> u8) \<Rightarrow> 'e drv \<Rightarrow> ptr list \<Rightarrow> bool" where
  "submitted E s xs \<longleftrightarrow> (\<forall>x\<in>set xs. t_epid (trans (nbs s x)) = E x \<and>
     (E x > ENDPOINT_1 \<longrightarrow> t_cb (trans (nbs s x)) = cb_Driver_TxComplete \<and> rxPoolID (nbs s x) = 0))"

lemma submitted_links:
  assumes "submitted E s xs" "\<And>y. \<exists>l. nbs s' y = (nbs s y)\<lparr>queueLink := l\<rparr>" "set ys \<subseteq> set xs"
  shows "submitted E s' ys"
  unfolding submitted_def
proof
  fix y assume "y \<in> set ys"
  moreover obtain l where "nbs s' y = (nbs s y)\<lparr>queueLink := l\<rparr>" using assms(2) by blast
  ultimately show "t_epid (trans (nbs s' y)) = E y \<and> (E y > ENDPOINT_1 \<longrightarrow>
      t_cb (trans (nbs s' y)) = cb_Driver_TxComplete \<and> rxPoolID (nbs s' y) = 0)"
    using assms(1,3) by (auto simp: submitted_def)
qed

text \<open>C14. Running out of credits costs no control packet. \<open>Driver_DropTxDataPackets\<close> leaves in the
  transmit queue exactly the packets of the control endpoints 0 and 1, in their order; every data
  packet is completed and gone, whatever pool it goes back to, provided the layer above does not
  touch the queue when it is told.\<close>

theorem drop_keeps_control:
  assumes rep: "tx_rep s xs" and quiet: "unblock_quiet U"
    and data: "\<forall>x\<in>set xs. t_epid (trans (nbs s x)) > ENDPOINT_1 \<longrightarrow>
      t_cb (trans (nbs s x)) = cb_Driver_TxComplete \<and> rxPoolID (nbs s x) = 0"
    and run: "Driver_DropTxDataPackets M U s = Some s'"
  shows "tx_rep s' (filter (\<lambda>x. \<not> t_epid (trans (nbs s x)) > ENDPOINT_1) xs)"
proof -
  let ?E = "\<lambda>x. t_epid (trans (nbs s x))" and ?drop = "\<lambda>s p. do {(status, s) \<leftarrow> Driver_CompleteRequest M U p s; Some s}"
  have "unat (q_count (txQueue s)) = length xs"
    using rep by (auto simp: tx_rep_def queue_rep_def queue_cap_def unat_of_nat)
  then have run: "requeue tx_enqueue tx_dequeue NULL (\<lambda>s p. \<not> t_epid (trans (nbs s p)) > ENDPOINT_1) ?drop (length xs) s = Some s'"
    using run by (simp add: Driver_DropTxDataPackets_def)
  have "tx_rep s' ([] @ filter (\<lambda>x. \<not> ?E x > ENDPOINT_1) xs) \<and> submitted ?E s' ([] @ filter (\<lambda>x. \<not> ?E x > ENDPOINT_1) xs)"
  proof (rule txq.requeue_filter [OF _ _ _ _ run])
    show "tx_rep s (xs @ [])" using rep by simp
    show "submitted ?E s (xs @ [])" using data by (simp add: submitted_def)
  next
    fix t t' :: "'a drv" and x zs
    assume sub: "submitted ?E t (x # zs)" and deq: "tx_dequeue t = (x, t')"
    have t': "submitted ?E t' (zs @ [x])" by (rule submitted_links [OF sub]) (auto intro: tx_dequeue_links [OF deq])
    then have "submitted ?E (tx_enqueue t' x) (zs @ [x])" by (rule submitted_links) (auto intro: tx_enqueue_links)
    with t' show "(\<not> t_epid (trans (nbs t' x)) > ENDPOINT_1) = (\<not> ?E x > ENDPOINT_1) \<and>
        (\<not> ?E x > ENDPOINT_1 \<longrightarrow> submitted ?E (tx_enqueue t' x) (zs @ [x]))"
      by (simp add: submitted_def)
  next
    fix t t' t'' :: "'a drv" and x zs
    assume sub: "submitted ?E t (x # zs)" and rept: "tx_rep t (x # zs)" and deq: "tx_dequeue t = (x, t')"
      and rep': "tx_rep t' zs" and x: "\<not> \<not> ?E x > ENDPOINT_1" and comp: "?drop t' x = Some t''"
    have t': "submitted ?E t' (x # zs)" by (rule submitted_links [OF sub]) (auto intro: tx_dequeue_links [OF deq])
    obtain st where "Driver_CompleteRequest M U x t' = Some (st, t'')" using comp by (auto simp: bind_eq_Some_conv)
    then have o: "others_same x t' t''"
      by (rule complete_others [OF _ quiet]) (use t' x in \<open>auto simp: submitted_def\<close>)
    have nin: "x \<notin> set zs" using txq.rep_distinct [OF rept] by simp
    have "tx_rep t'' zs = tx_rep t' zs" by (rule tx_rep_cong) (use o nin in \<open>auto simp: others_same_def\<close>)
    moreover have "submitted ?E t'' zs" using t' o nin by (auto simp: submitted_def others_same_def)
    ultimately show "submitted ?E t'' zs \<and> tx_rep t'' zs" using rep' by simp
  qed
  then show ?thesis by simp
qed

text \<open>A data packet in front of a control packet.\<close>

definition demo_drop :: "u16 drv" where
  "demo_drop = (drv_zero 0)\<lparr>
     txQueue := \<lparr>q_head = 0x500, q_tail = 0x600, q_count = 2\<rparr>,
     nbs := (\<lambda>_. netbuf_zero)
       (0x500 := (a_netbuf_configure 0x1000 64 20 256)
          \<lparr>queueLink := 0x600, trans := trans_zero\<lparr>t_epid := 2, t_cb := cb_Driver_TxComplete\<rparr>\<rparr>,
        0x600 := (a_netbuf_configure 0x2000 64 20 256)\<lparr>trans := trans_zero\<lparr>t_epid := 1\<rparr>\<rparr>)\<rparr>"

lemma complete_tx_runs:
  assumes "irqMask (spi_hcd s) = 0" "p \<noteq> NULL" "t_cb (trans (nbs s p)) = cb_Driver_TxComplete"
    "\<not> nb_tail (nbs s p) - nb_data (nbs s p) < 6"
  shows "\<exists>s'. Driver_CompleteRequest M U p s = Some (A_OK, s')"
  using assms by (simp add: Driver_CompleteRequest_def call_cb_def Driver_TxComplete_def Htc_ProcessTxComplete_def
      on_nb_def a_netbuf_pull_def)

lemma demo_drop_packets:
  "t_epid (trans (nbs demo_drop 0x500)) = 2" "t_epid (trans (nbs demo_drop 0x600)) = 1"
  "t_cb (trans (nbs demo_drop 0x500)) = cb_Driver_TxComplete" "rxPoolID (nbs demo_drop 0x500) = 0"
  "nb_tail (nbs demo_drop 0x500) - nb_data (nbs demo_drop 0x500) = 20" "irqMask (spi_hcd demo_drop) = 0"
  "unat (q_count (txQueue demo_drop)) = Suc (Suc 0)"
  by (simp_all add: demo_drop_def netbuf_zero_def a_netbuf_configure_def drv_zero_def spi_hcd_zero_def)

lemma demo_drop_rep: "tx_rep demo_drop [0x500, 0x600]"
  by (simp add: tx_rep_def queue_rep_def queue_cap_def demo_drop_def netbuf_zero_def a_netbuf_configure_def)

lemma tx_dequeue_hcd: "tx_dequeue s = (p, s') \<Longrightarrow> spi_hcd s' = spi_hcd s"
  by (auto simp: tx_dequeue_def split: prod.splits)

lemma quiet_demo_upper: "unblock_quiet demo_upper"
  by (simp add: unblock_quiet_def demo_upper_def)

lemma demo_drop_runs: "\<exists>s'. Driver_DropTxDataPackets enable_chip demo_upper demo_drop = Some s'"
proof -
  obtain t where t: "tx_dequeue demo_drop = (0x500, t)" "tx_rep t [0x600]"
    using txq.deq_first [OF demo_drop_rep] by blast
  obtain l where l: "nbs t 0x500 = (nbs demo_drop 0x500)\<lparr>queueLink := l\<rparr>" using tx_dequeue_links [OF t(1)] by blast
  obtain k where k: "nbs t 0x600 = (nbs demo_drop 0x600)\<lparr>queueLink := k\<rparr>" using tx_dequeue_links [OF t(1)] by blast
  obtain u where u: "Driver_CompleteRequest enable_chip demo_upper 0x500 t = Some (A_OK, u)"
    using complete_tx_runs [of t "0x500" enable_chip demo_upper]
    by (auto simp: l demo_drop_packets tx_dequeue_hcd [OF t(1)])
  have o: "others_same 0x500 t u"
    by (rule complete_others [OF u quiet_demo_upper]) (simp_all add: l demo_drop_packets)
  have "tx_rep u [0x600] = tx_rep t [0x600]" by (rule tx_rep_cong) (use o in \<open>auto simp: others_same_def\<close>)
  then obtain v where v: "tx_dequeue u = (0x600, v)" using txq.deq_first [of u "0x600" "[]"] t(2) by blast
  obtain j where j: "nbs v 0x600 = (nbs u 0x600)\<lparr>queueLink := j\<rparr>" using tx_dequeue_links [OF v] by blast
  have "t_epid (trans (nbs v 0x600)) = 1" using o by (simp add: j others_same_def k demo_drop_packets)
  then show ?thesis
    by (simp add: Driver_DropTxDataPackets_def demo_drop_packets t u v l)
qed

theorem drop_keeps_control_witness:
  "\<exists>s'. Driver_DropTxDataPackets enable_chip demo_upper demo_drop = Some s' \<and> tx_rep s' [0x600]"
proof -
  obtain s' where run: "Driver_DropTxDataPackets enable_chip demo_upper demo_drop = Some s'"
    using demo_drop_runs by blast
  from drop_keeps_control [OF demo_drop_rep quiet_demo_upper _ run] run show ?thesis by (simp add: demo_drop_packets)
qed

end
