(* ===== verification/Dset_Store.thy ===== *)
theory Dset_Store
  imports Osal
begin

text \<open>
  The host data sets, \<^verbatim>\<open>common_src/storerecall/dset.c\<close>: a table of sixteen slots, each free (id 0) or
  holding a data set with its length and its buffer in host memory. The chip creates, writes and reads
  them through events; \<open>dset_fill\<close> and the pair \<open>dset_get_first\<close>, \<open>dset_get_next\<close> list them.

  A \<open>HOST_DSET *\<close> is the index of its slot, \<open>None\<close> the null pointer. The table is a static array of
  \<open>MAX_DSET_SIZE\<close> elements; the statement that the list has this length is part of its type
  invariant.
\<close>

record HOST_DSET =
  dset_id :: u32
  dset_length :: u32
  data_ptr :: ptr

record dset_table =
  host_dsets :: "HOST_DSET list"
  next_dset_ndx :: u16

abbreviation MAX_DSET_SIZE :: nat where "MAX_DSET_SIZE \<equiv> 16"

text \<open>The loop all functions share: the first slot from \<open>i\<close> on with a property.\<close>

function find_slot :: "(HOST_DSET \<Rightarrow> bool) \<Rightarrow> HOST_DSET list \<Rightarrow> nat \<Rightarrow> nat option" where
  "find_slot P ds i = (if i \<ge> MAX_DSET_SIZE then None else if P (ds ! i) then Some i else find_slot P ds (i + 1))"
  by auto
termination by (relation "measure (\<lambda>(P, ds, i). MAX_DSET_SIZE - i)") auto

declare find_slot.simps [simp del]

definition dset_find :: "u32 \<Rightarrow> dset_table \<Rightarrow> nat option" where
  "dset_find i t = find_slot (\<lambda>d. dset_id d = i) (host_dsets t) 0"

definition set_dset :: "nat \<Rightarrow> (HOST_DSET \<Rightarrow> HOST_DSET) \<Rightarrow> dset_table \<Rightarrow> dset_table" where
  "set_dset k f t = t\<lparr>host_dsets := (host_dsets t)[k := f (host_dsets t ! k)]\<rparr>"

text \<open>Freeing the buffer of a slot, if it has one.\<close>

definition drop_data :: "'e mqx \<Rightarrow> nat \<Rightarrow> dset_table \<Rightarrow> ('e, 'z) host_scheme \<Rightarrow> dset_table \<times> ('e, 'z) host_scheme" where
  "drop_data M k t s = (
     let p = data_ptr (host_dsets t ! k) in
     if p \<noteq> NULL then (set_dset k (\<lambda>d. d\<lparr>data_ptr := NULL\<rparr>) t, a_free M p s) else (t, s))"

definition dset_insert ::
    "'e mqx \<Rightarrow> u32 \<Rightarrow> dset_table \<Rightarrow> ('e, 'z) host_scheme \<Rightarrow> nat option \<times> dset_table \<times> ('e, 'z) host_scheme" where
  "dset_insert M i t s =
     (case find_slot (\<lambda>d. dset_id d = 0) (host_dsets t) 0 of
        None \<Rightarrow> (None, t, s)
      | Some k \<Rightarrow> (Some k, drop_data M k (set_dset k (\<lambda>d. d\<lparr>dset_id := i\<rparr>) t) s))"

definition dset_get ::
    "'e mqx \<Rightarrow> u32 \<Rightarrow> u32 \<Rightarrow> dset_table \<Rightarrow> ('e, 'z) host_scheme \<Rightarrow> nat option \<times> dset_table \<times> ('e, 'z) host_scheme" where
  "dset_get M i len t s =
     (case (case dset_find i t of None \<Rightarrow> dset_insert M i t s | Some k \<Rightarrow> (Some k, t, s)) of
        (None, t, s) \<Rightarrow> (None, t, s)
      | (Some k, t, s) \<Rightarrow>
          case drop_data M k t s of (t, s) \<Rightarrow>
          case a_malloc M len s of (pbuf, s) \<Rightarrow>
            if pbuf = NULL then (None, set_dset k (\<lambda>d. d\<lparr>dset_id := 0\<rparr>) t, s)
            else (Some k, set_dset k (\<lambda>d. d\<lparr>data_ptr := pbuf, dset_length := len\<rparr>) t, s))"

text \<open>The number of bytes \<open>dset_write\<close> and \<open>dset_read\<close> copy; all of it is 32-bit arithmetic.\<close>

definition dset_span :: "HOST_DSET \<Rightarrow> u32 \<Rightarrow> u32 \<Rightarrow> u32" where
  "dset_span d offset len = (if offset + len > dset_length d then dset_length d - offset else len)"

definition dset_write :: "HOST_DSET \<Rightarrow> ptr \<Rightarrow> u32 \<Rightarrow> u32 \<Rightarrow> ('e, 'z) host_scheme \<Rightarrow> u32 \<times> ('e, 'z) host_scheme" where
  "dset_write d pData offset len s = (
     let wrt_len = dset_span d offset len in
     (wrt_len, s\<lparr>mem := A_MEMCPY (mem s) (data_ptr d + offset) pData wrt_len\<rparr>))"

definition dset_read :: "HOST_DSET \<Rightarrow> ptr \<Rightarrow> u32 \<Rightarrow> u32 \<Rightarrow> ('e, 'z) host_scheme \<Rightarrow> u32 \<times> ('e, 'z) host_scheme" where
  "dset_read d pData offset len s = (
     let wrt_len = dset_span d offset len in
     (wrt_len, s\<lparr>mem := A_MEMCPY (mem s) pData (data_ptr d + offset) wrt_len\<rparr>))"

text \<open>A \<open>HOST_DSET_ITEM\<close> in memory: id and length.\<close>

definition dset_item :: "HOST_DSET \<Rightarrow> u8 list" where
  "dset_item d = [byte_of 0 (dset_id d), byte_of 1 (dset_id d), byte_of 2 (dset_id d), byte_of 3 (dset_id d),
     byte_of 0 (dset_length d), byte_of 1 (dset_length d), byte_of 2 (dset_length d), byte_of 3 (dset_length d)]"

function fill_loop :: "HOST_DSET list \<Rightarrow> u32 \<Rightarrow> nat \<Rightarrow> u16 \<Rightarrow> ptr \<Rightarrow> memory \<Rightarrow> u16 \<times> memory" where
  "fill_loop ds max_dset_count i count pItem m =
     (if i < MAX_DSET_SIZE \<and> ucast count < max_dset_count then
        if dset_id (ds ! i) \<noteq> 0
        then fill_loop ds max_dset_count (i + 1) (count + 1) (pItem + 8) (mem_put m pItem (dset_item (ds ! i)))
        else fill_loop ds max_dset_count (i + 1) count pItem m
      else (count, m))"
  by auto
termination by (relation "measure (\<lambda>(ds, n, i, x). MAX_DSET_SIZE - i)") auto

declare fill_loop.simps [simp del]

definition dset_fill :: "ptr \<Rightarrow> u32 \<Rightarrow> dset_table \<Rightarrow> ('e, 'z) host_scheme \<Rightarrow> u32 \<times> ('e, 'z) host_scheme" where
  "dset_fill pData max_dset_count t s =
     (case fill_loop (host_dsets t) max_dset_count 0 0 pData (mem s) of (count, m) \<Rightarrow>
        (ucast count, s\<lparr>mem := m\<rparr>))"

definition dset_get_first :: "dset_table \<Rightarrow> nat option \<times> dset_table" where
  "dset_get_first t =
     (case find_slot (\<lambda>d. dset_id d \<noteq> 0) (host_dsets t) 0 of
        None \<Rightarrow> (None, t) | Some i \<Rightarrow> (Some i, t\<lparr>next_dset_ndx := of_nat i + 1\<rparr>))"

definition dset_get_next :: "dset_table \<Rightarrow> nat option \<times> dset_table" where
  "dset_get_next t =
     (case find_slot (\<lambda>d. dset_id d \<noteq> 0) (host_dsets t) (unat (next_dset_ndx t)) of
        None \<Rightarrow> (None, t) | Some i \<Rightarrow> (Some i, t\<lparr>next_dset_ndx := of_nat i + 1\<rparr>))"

text \<open>The client of the two, \<open>wmi_dset_host_cfg_cmd\<close> of \<^verbatim>\<open>common_src/wmi/wmi.c\<close> (the version for large
  data sets): the data sets of store-recall, counted and listed in the buffer \<open>tempStorage\<close>.\<close>

definition IS_STRRCL_DSET :: "u32 \<Rightarrow> bool" where
  "IS_STRRCL_DSET a \<longleftrightarrow> a \<ge> 0x900 \<and> a \<le> 0x9FF"

text \<open>One round: the item, then \<open>pStrrclCmd->length ++\<close>.\<close>

definition host_cfg_item :: "ptr \<Rightarrow> HOST_DSET \<Rightarrow> ptr \<Rightarrow> memory \<Rightarrow> memory" where
  "host_cfg_item cmd d pDsetInfo m = (
     let m = mem_put m pDsetInfo (dset_item d) in mem_put m cmd (le32_bytes_of (mem32 m cmd + 1)))"

partial_function (option) host_cfg_loop ::
    "ptr \<Rightarrow> nat option \<Rightarrow> ptr \<Rightarrow> dset_table \<Rightarrow> memory \<Rightarrow> (dset_table \<times> memory) option" where
  "host_cfg_loop cmd pDset pDsetInfo t m =
     (case pDset of None \<Rightarrow> Some (t, m)
      | Some k \<Rightarrow>
          let d = host_dsets t ! k;
              (pDsetInfo, m) = (if IS_STRRCL_DSET (dset_id d) then (pDsetInfo + 8, host_cfg_item cmd d pDsetInfo m)
                                else (pDsetInfo, m));
              (pDset, t) = dset_get_next t
          in host_cfg_loop cmd pDset pDsetInfo t m)"

definition wmi_dset_host_cfg_cmd ::
    "ptr \<Rightarrow> dset_table \<Rightarrow> ('e, 'z) host_scheme \<Rightarrow> (A_STATUS \<times> dset_table \<times> ('e, 'z) host_scheme) option" where
  "wmi_dset_host_cfg_cmd storage t s = (
     let m = mem_put (mem s) storage (le32_bytes_of 0);
         (pDset, t) = dset_get_first t
     in do {
       (t, m) \<leftarrow> host_cfg_loop storage pDset (storage + 4) t m;
       Some (A_OK, t, s\<lparr>mem := m\<rparr>)})"

section \<open>The search\<close>

lemma find_slot_Some:
  "find_slot P ds i = Some k \<longleftrightarrow> i \<le> k \<and> k < MAX_DSET_SIZE \<and> P (ds ! k) \<and> (\<forall>j. i \<le> j \<and> j < k \<longrightarrow> \<not> P (ds ! j))"
proof (induction P ds i rule: find_slot.induct)
  case (1 P ds i)
  show ?case
  proof (cases "i \<ge> MAX_DSET_SIZE \<or> P (ds ! i)")
    case True
    then show ?thesis by (subst find_slot.simps) (auto intro: le_antisym leI)
  next
    case False
    then have "find_slot P ds i = find_slot P ds (i + 1)" by (subst find_slot.simps) simp
    moreover have "(i \<le> k \<and> P (ds ! k) \<and> (\<forall>j. i \<le> j \<and> j < k \<longrightarrow> \<not> P (ds ! j)))
        = (i + 1 \<le> k \<and> P (ds ! k) \<and> (\<forall>j. i + 1 \<le> j \<and> j < k \<longrightarrow> \<not> P (ds ! j)))"
      using False by (metis Suc_eq_plus1 not_less_eq_eq le_Suc_eq le_antisym Suc_leD)
    ultimately show ?thesis using False 1 by auto
  qed
qed

lemma find_slot_None: "find_slot P ds i = None \<longleftrightarrow> (\<forall>j. i \<le> j \<and> j < MAX_DSET_SIZE \<longrightarrow> \<not> P (ds ! j))"
proof (induction P ds i rule: find_slot.induct)
  case (1 P ds i)
  then show ?case by (subst find_slot.simps) (auto simp: not_less_eq_eq dest: le_neq_implies_less)
qed

section \<open>The table\<close>

text \<open>The type invariant: sixteen slots, no id twice, a buffer for every data set.\<close>

definition dsets_ok :: "dset_table \<Rightarrow> bool" where
  "dsets_ok t \<longleftrightarrow> length (host_dsets t) = MAX_DSET_SIZE
     \<and> (\<forall>j < MAX_DSET_SIZE. \<forall>k < MAX_DSET_SIZE.
          dset_id (host_dsets t ! j) = dset_id (host_dsets t ! k) \<and> dset_id (host_dsets t ! j) \<noteq> 0 \<longrightarrow> j = k)
     \<and> (\<forall>k < MAX_DSET_SIZE. dset_id (host_dsets t ! k) \<noteq> 0 \<longrightarrow> data_ptr (host_dsets t ! k) \<noteq> NULL)"

lemma dsets_okD:
  assumes "dsets_ok t"
  shows "length (host_dsets t) = MAX_DSET_SIZE"
    "j < MAX_DSET_SIZE \<Longrightarrow> k < MAX_DSET_SIZE \<Longrightarrow> dset_id (host_dsets t ! j) = dset_id (host_dsets t ! k) \<Longrightarrow>
       dset_id (host_dsets t ! j) \<noteq> 0 \<Longrightarrow> j = k"
    "k < MAX_DSET_SIZE \<Longrightarrow> dset_id (host_dsets t ! k) \<noteq> 0 \<Longrightarrow> data_ptr (host_dsets t ! k) \<noteq> NULL"
  using assms unfolding dsets_ok_def by blast+

text \<open>The data sets as a finite map from ids to lengths.\<close>

definition dset_map :: "dset_table \<Rightarrow> u32 \<rightharpoonup> u32" where
  "dset_map t i = (if i = 0 then None else map_option (\<lambda>k. dset_length (host_dsets t ! k)) (dset_find i t))"

lemma dset_find_eq:
  assumes "dsets_ok t" "i \<noteq> 0"
  shows "dset_find i t = Some k \<longleftrightarrow> k < MAX_DSET_SIZE \<and> dset_id (host_dsets t ! k) = i"
proof -
  have "dset_id (host_dsets t ! j) \<noteq> i" if "j < k" "k < MAX_DSET_SIZE" "dset_id (host_dsets t ! k) = i" for j
    using dsets_okD(2) [OF assms(1), of j k] assms(2) that by auto
  then show ?thesis unfolding dset_find_def find_slot_Some by auto
qed

lemma dset_map_eq:
  assumes "dsets_ok t"
  shows "dset_map t i = Some n \<longleftrightarrow>
    i \<noteq> 0 \<and> (\<exists>k < MAX_DSET_SIZE. dset_id (host_dsets t ! k) = i \<and> dset_length (host_dsets t ! k) = n)"
proof (cases "i = 0")
  case False
  show ?thesis unfolding dset_map_def using dset_find_eq [OF assms False] False by auto
qed (simp add: dset_map_def)

lemma set_dset_twice [simp]: "k < length (host_dsets t) \<Longrightarrow> set_dset k f (set_dset k g t) = set_dset k (\<lambda>d. f (g d)) t"
  by (simp add: set_dset_def)

lemma length_set_dset [simp]: "length (host_dsets (set_dset k f t)) = length (host_dsets t)"
  by (simp add: set_dset_def)

lemma nth_set_dset:
  "length (host_dsets t) = MAX_DSET_SIZE \<Longrightarrow> j < MAX_DSET_SIZE \<Longrightarrow>
   host_dsets (set_dset k f t) ! j = (if j = k then f (host_dsets t ! k) else host_dsets t ! j)"
  by (simp add: set_dset_def nth_list_update)

lemma set_dset_id: "k < length (host_dsets t) \<Longrightarrow> f (host_dsets t ! k) = g (host_dsets t ! k) \<Longrightarrow> set_dset k f t = set_dset k g t"
  by (simp add: set_dset_def)

lemma drop_data_table: "fst (drop_data M k t s) = set_dset k (\<lambda>d. d\<lparr>data_ptr := NULL\<rparr>) t"
proof (cases "data_ptr (host_dsets t ! k) = NULL")
  case True
  then have "(host_dsets t ! k)\<lparr>data_ptr := NULL\<rparr> = host_dsets t ! k" by (cases "host_dsets t ! k") simp
  then have "(host_dsets t)[k := (host_dsets t ! k)\<lparr>data_ptr := NULL\<rparr>] = host_dsets t" by (metis list_update_id)
  with True show ?thesis by (simp add: drop_data_def set_dset_def)
qed (simp add: drop_data_def)

text \<open>What \<open>dset_get\<close> does to the table: the slot of the id, or else the first free one, gets a new
  buffer, or becomes free when there is no memory.\<close>

definition dset_slot :: "u32 \<Rightarrow> dset_table \<Rightarrow> nat option" where
  "dset_slot i t = (case dset_find i t of Some k \<Rightarrow> Some k | None \<Rightarrow> dset_find 0 t)"

lemma dset_get_table:
  assumes "dset_get M i len t s = (r, t', s')" "length (host_dsets t) = MAX_DSET_SIZE"
  shows "(dset_slot i t = None \<and> r = None \<and> t' = t \<and> s' = s) \<or>
    (\<exists>k p. dset_slot i t = Some k \<and> k < MAX_DSET_SIZE \<and> r = (if p = NULL then None else Some k) \<and>
       t' = set_dset k (\<lambda>d. if p = NULL then \<lparr>dset_id = 0, dset_length = dset_length d, data_ptr = NULL\<rparr>
                           else \<lparr>dset_id = i, dset_length = len, data_ptr = p\<rparr>) t)"
proof (cases "dset_slot i t")
  case None
  with assms(1) show ?thesis
    by (auto simp: dset_slot_def dset_get_def dset_insert_def dset_find_def split: option.splits)
next
  case (Some k)
  then have k: "k < MAX_DSET_SIZE" by (auto simp: dset_slot_def dset_find_def find_slot_Some split: option.splits)
  let ?hold = "\<lambda>d. d\<lparr>dset_id := i, data_ptr := NULL\<rparr>"
  obtain t0 s0 where base: "(case dset_find i t of None \<Rightarrow> dset_insert M i t s | Some k \<Rightarrow> (Some k, t, s)) = (Some k, t0, s0)"
    and t0: "fst (drop_data M k t0 s0) = set_dset k ?hold t"
  proof (cases "dset_find i t")
    case None
    then have "dset_insert M i t s = (Some k, drop_data M k (set_dset k (\<lambda>d. d\<lparr>dset_id := i\<rparr>) t) s)"
      using Some by (simp add: dset_slot_def dset_insert_def dset_find_def)
    moreover obtain s0 where "drop_data M k (set_dset k (\<lambda>d. d\<lparr>dset_id := i\<rparr>) t) s = (set_dset k ?hold t, s0)"
      using drop_data_table [of M k "set_dset k (\<lambda>d. d\<lparr>dset_id := i\<rparr>) t" s] k assms(2) by (auto simp: prod_eq_iff)
    ultimately show thesis
      using that [of "set_dset k ?hold t" s0] None k assms(2) by (simp add: drop_data_table)
  next
    case found: (Some j)
    then have jk: "j = k" using Some by (simp add: dset_slot_def)
    with found have "dset_id (host_dsets t ! k) = i" unfolding dset_find_def find_slot_Some by blast
    then have "set_dset k (\<lambda>d. d\<lparr>data_ptr := NULL\<rparr>) t = set_dset k ?hold t"
      using k assms(2) by (intro set_dset_id) auto
    with jk show thesis using that [of t s] found by (simp add: drop_data_table)
  qed
  obtain t1 s1 where d: "drop_data M k t0 s0 = (t1, s1)" by fastforce
  obtain p s2 where m: "a_malloc M len s1 = (p, s2)" by fastforce
  have "r = (if p = NULL then None else Some k) \<and>
    t' = set_dset k (\<lambda>d. if p = NULL then d\<lparr>dset_id := 0\<rparr> else d\<lparr>data_ptr := p, dset_length := len\<rparr>) (set_dset k ?hold t)"
    using assms(1) base d m t0 by (auto simp: dset_get_def split: if_splits)
  moreover have "(if p = NULL then (?hold d)\<lparr>dset_id := 0\<rparr> else (?hold d)\<lparr>data_ptr := p, dset_length := len\<rparr>)
      = (if p = NULL then \<lparr>dset_id = 0, dset_length = dset_length d, data_ptr = NULL\<rparr>
         else \<lparr>dset_id = i, dset_length = len, data_ptr = p\<rparr>)" for d
    by (cases d) simp
  ultimately show ?thesis using Some k assms(2) by auto
qed

lemma dset_get_cases:
  assumes "dset_get M i len t s = (r, t', s')" "dsets_ok t"
  obtains (full) "dset_slot i t = None" "r = None" "t' = t" "s' = s"
  | (slot) k p where "dset_slot i t = Some k" "k < MAX_DSET_SIZE" "r = (if p = NULL then None else Some k)"
      "t' = set_dset k (\<lambda>d. if p = NULL then \<lparr>dset_id = 0, dset_length = dset_length d, data_ptr = NULL\<rparr>
                            else \<lparr>dset_id = i, dset_length = len, data_ptr = p\<rparr>) t"
  using dset_get_table [OF assms(1) dsets_okD(1) [OF assms(2)]] by (elim disjE exE conjE)

text \<open>One slot replaced, by a free one or by the only one with its id.\<close>

lemma dsets_ok_replace:
  assumes ok: "dsets_ok t"
    and new: "dset_id (f (host_dsets t ! k)) = 0 \<or> dset_id (f (host_dsets t ! k)) = i \<and> data_ptr (f (host_dsets t ! k)) \<noteq> NULL"
    and only: "\<And>j. j < MAX_DSET_SIZE \<Longrightarrow> dset_id (host_dsets t ! j) = i \<Longrightarrow> j = k"
  shows "dsets_ok (set_dset k f t)"
proof -
  note len = dsets_okD(1) [OF ok]
  have "j = l" if "j < MAX_DSET_SIZE" "l < MAX_DSET_SIZE"
      "dset_id (host_dsets (set_dset k f t) ! j) = dset_id (host_dsets (set_dset k f t) ! l)"
      "dset_id (host_dsets (set_dset k f t) ! j) \<noteq> 0" for j l
  proof (cases "j = k \<or> l = k")
    case True
    then show ?thesis using that new only [of j] only [of l] by (auto simp: nth_set_dset [OF len] split: if_splits)
  next
    case False
    then show ?thesis using that dsets_okD(2) [OF ok, of j l] by (simp add: nth_set_dset [OF len])
  qed
  moreover have "data_ptr (host_dsets (set_dset k f t) ! j) \<noteq> NULL"
    if "j < MAX_DSET_SIZE" "dset_id (host_dsets (set_dset k f t) ! j) \<noteq> 0" for j
    using that new dsets_okD(3) [OF ok, of j] by (auto simp: nth_set_dset [OF len] split: if_splits)
  ultimately show ?thesis unfolding dsets_ok_def length_set_dset using len by blast
qed

lemma dset_slot_only:
  assumes "dsets_ok t" "i \<noteq> 0" "dset_slot i t = Some k" "j < MAX_DSET_SIZE" "dset_id (host_dsets t ! j) = i"
  shows "j = k"
  using assms(3,4,5) dset_find_eq [OF assms(1,2), of j] by (auto simp: dset_slot_def)

text \<open>C40. The table of data sets stays well formed: sixteen slots, no id twice, and every data set has a
  buffer. \<open>dset_get\<close> with a nonzero id keeps this on every path, also when there is no free slot and when
  there is no memory; a slot it returns holds the id and the length asked for.\<close>

theorem dset_get_type:
  assumes "dsets_ok t" "i \<noteq> 0" "dset_get M i len t s = (r, t', s')"
  shows "dsets_ok t' \<and> (case r of None \<Rightarrow> True | Some k \<Rightarrow>
    k < MAX_DSET_SIZE \<and> dset_id (host_dsets t' ! k) = i \<and> dset_length (host_dsets t' ! k) = len)"
proof -
  have len: "length (host_dsets t) = MAX_DSET_SIZE" using assms(1) by (simp add: dsets_ok_def)
  from assms(3,1) show ?thesis
  proof (cases rule: dset_get_cases)
    case full
    with assms(1) show ?thesis by simp
  next
    case (slot k p)
    have "dsets_ok t'"
      unfolding slot(4) by (rule dsets_ok_replace [OF assms(1), where i = i])
        (auto intro: dset_slot_only [OF assms(1,2) slot(1)])
    with slot len show ?thesis by (simp add: set_dset_def)
  qed
qed

lemma dset_map_replace:
  assumes ok: "dsets_ok t" "dsets_ok (set_dset k f t)" and k: "k < MAX_DSET_SIZE" "i \<noteq> 0"
    and old: "dset_id (host_dsets t ! k) = 0 \<or> dset_id (host_dsets t ! k) = i"
    and new: "dset_id (f (host_dsets t ! k)) = 0 \<or> dset_id (f (host_dsets t ! k)) = i"
    and only: "\<And>j. j < MAX_DSET_SIZE \<Longrightarrow> dset_id (host_dsets t ! j) = i \<Longrightarrow> j = k"
  shows "dset_map (set_dset k f t) = (dset_map t)(i :=
    if dset_id (f (host_dsets t ! k)) = i then Some (dset_length (f (host_dsets t ! k))) else None)"
proof
  fix x
  have at: "host_dsets (set_dset k f t) ! j = (if j = k then f (host_dsets t ! k) else host_dsets t ! j)"
    if "j < MAX_DSET_SIZE" for j
    using nth_set_dset [OF dsets_okD(1) [OF ok(1)] that] .
  show "dset_map (set_dset k f t) x = ((dset_map t)(i :=
    if dset_id (f (host_dsets t ! k)) = i then Some (dset_length (f (host_dsets t ! k))) else None)) x"
  proof (cases "x = i")
    case True
    have "dset_map (set_dset k f t) i = Some n \<longleftrightarrow>
        dset_id (f (host_dsets t ! k)) = i \<and> dset_length (f (host_dsets t ! k)) = n" for n
      unfolding dset_map_eq [OF ok(2)] using k only at by metis
    then show ?thesis using True by (cases "dset_map (set_dset k f t) i") auto
  next
    case False
    have "dset_map (set_dset k f t) x = Some n \<longleftrightarrow> dset_map t x = Some n" for n
      unfolding dset_map_eq [OF ok(2)] dset_map_eq [OF ok(1)] using at old new False by metis
    then show ?thesis using False by (cases "dset_map t x") auto
  qed
qed

lemma dset_slot_id: "dset_slot i t = Some k \<Longrightarrow> dset_id (host_dsets t ! k) = 0 \<or> dset_id (host_dsets t ! k) = i"
  by (auto simp: dset_slot_def dset_find_def find_slot_Some split: option.splits)

lemma dset_slot_None: "dset_slot i t = None \<Longrightarrow> dset_map t i = None"
  by (auto simp: dset_slot_def dset_map_def split: option.splits)

text \<open>C19. The table implements a finite map. Seen as a map from ids to lengths, \<open>dset_get\<close> is an update
  at the id when it succeeds. When it fails the id is gone: either it was not there and the table was
  full, or the old buffer had already been given up when the allocation failed. No other data
  set is touched.\<close>

theorem dset_get_refines_map:
  assumes "dsets_ok t" "i \<noteq> 0" "dset_get M i len t s = (r, t', s')"
  shows "dset_map t' = (case r of Some k \<Rightarrow> (dset_map t)(i \<mapsto> len) | None \<Rightarrow> (dset_map t)(i := None))"
proof -
  have len: "length (host_dsets t) = MAX_DSET_SIZE" using assms(1) by (simp add: dsets_ok_def)
  have ok': "dsets_ok t'" using dset_get_type [OF assms] by blast
  from assms(3,1) show ?thesis
  proof (cases rule: dset_get_cases)
    case full
    then show ?thesis using dset_slot_None by fastforce
  next
    case (slot k p)
    from dset_map_replace [OF assms(1) ok' [unfolded slot(4)] slot(2) assms(2) dset_slot_id [OF slot(1)] _
        dset_slot_only [OF assms(1,2) slot(1)]]
    show ?thesis using slot(3) assms(2) unfolding slot(4) by (auto split: if_splits)
  qed
qed

section \<open>Examples\<close>

definition empty_slot :: HOST_DSET where
  "empty_slot = \<lparr>dset_id = 0, dset_length = 0, data_ptr = NULL\<rparr>"

definition no_dsets :: dset_table where
  "no_dsets = \<lparr>host_dsets = replicate 16 empty_slot, next_dset_ndx = 0\<rparr>"

text \<open>A heap that hands out the same block.\<close>

definition demo_heap :: "unit mqx" where
  "demo_heap = \<lparr>mem_alloc_system_zero = (\<lambda>_ m e. (0x1000, m, e)), mem_free = (\<lambda>_ e. e), get_size = (\<lambda>_ _. 64),
     time_delay = (\<lambda>_ e. e), spi_set_mode = (\<lambda>e. (True, e)), spi_read_write = (\<lambda>_ bs e. (True, bs, e)),
     spi_fread = (\<lambda>n e. ([], e)), spi_fwrite = (\<lambda>bs e. (0, e)), spi_fflush = (\<lambda>e. e), gpio_irq = (\<lambda>_ e. e),
     gpio_power = (\<lambda>_ e. (True, e)), uninit_u32 = (\<lambda>_. 0)\<rparr>"

definition demo_host :: "unit host" where
  "demo_host = \<lparr>hw_env = (), mem = (\<lambda>_. 0), g_totAlloc = 0\<rparr>"

lemma no_dsets_ok: "dsets_ok no_dsets"
  by (simp add: dsets_ok_def no_dsets_def empty_slot_def)

lemma no_dsets_find: "dset_find 0 no_dsets = Some 0" "i \<noteq> 0 \<Longrightarrow> dset_find i no_dsets = None"
  by (auto simp: dset_find_def find_slot_Some find_slot_None no_dsets_def empty_slot_def)

lemma demo_get: "\<exists>t s. dset_get demo_heap 0x901 32 no_dsets demo_host = (Some 0, t, s)"
proof -
  obtain r t s where run: "dset_get demo_heap 0x901 32 no_dsets demo_host = (r, t, s)" by (metis surj_pair)
  then have "r = Some 0"
    using no_dsets_find
    by (auto simp: dset_get_def dset_insert_def dset_find_def a_malloc_def qosal_malloc_def demo_heap_def Let_def
        split: prod.splits option.splits)
  with run show ?thesis by blast
qed

theorem dset_get_type_witness:
  "\<exists>t s. dset_get demo_heap 0x901 32 no_dsets demo_host = (Some 0, t, s) \<and> dsets_ok t \<and> dset_id (host_dsets t ! 0) = 0x901"
proof -
  obtain t s where run: "dset_get demo_heap 0x901 32 no_dsets demo_host = (Some 0, t, s)" using demo_get by blast
  from dset_get_type [OF no_dsets_ok _ run] run show ?thesis by simp
qed

theorem dset_get_refines_map_witness:
  "\<exists>t s. dset_get demo_heap 0x901 32 no_dsets demo_host = (Some 0, t, s) \<and> dset_map t 0x901 = Some 32"
proof -
  obtain t s where run: "dset_get demo_heap 0x901 32 no_dsets demo_host = (Some 0, t, s)" using demo_get by blast
  from dset_get_refines_map [OF no_dsets_ok _ run] run show ?thesis by simp
qed

end
