(* ===== verification/Dset_List.thy ===== *)
theory Dset_List
  imports Dset_Store
begin

text \<open>
  The two ways to list the host data sets: the loop over \<open>dset_get_first\<close> and \<open>dset_get_next\<close> ends and
  visits every data set once, and \<open>dset_fill\<close> writes the same data sets in the same order. What is
  copied in and out of a data set.
\<close>

section \<open>The data sets in slot order\<close>

definition used_dsets :: "dset_table \<Rightarrow> HOST_DSET list" where
  "used_dsets t = filter (\<lambda>d. dset_id d \<noteq> 0) (host_dsets t)"

definition used_from :: "HOST_DSET list \<Rightarrow> nat \<Rightarrow> HOST_DSET list" where
  "used_from ds i = filter (\<lambda>d. dset_id d \<noteq> 0) (drop i ds)"

lemma used_from_Cons:
  "i < length ds \<Longrightarrow> used_from ds i = (if dset_id (ds ! i) \<noteq> 0 then ds ! i # used_from ds (Suc i) else used_from ds (Suc i))"
  by (simp add: used_from_def Cons_nth_drop_Suc [symmetric])

lemma used_from_past: "length ds \<le> i \<Longrightarrow> used_from ds i = []"
  by (simp add: used_from_def)

text \<open>The search finds the head of the list.\<close>

lemma find_slot_used:
  assumes "length ds = MAX_DSET_SIZE"
  shows "case find_slot (\<lambda>d. dset_id d \<noteq> 0) ds i of None \<Rightarrow> used_from ds i = []
    | Some k \<Rightarrow> k < MAX_DSET_SIZE \<and> used_from ds i = ds ! k # used_from ds (Suc k)"
  using assms
proof (induction "\<lambda>d :: HOST_DSET. dset_id d \<noteq> 0" ds i rule: find_slot.induct)
  case (1 ds i)
  then show ?case
    by (subst find_slot.simps) (auto simp: used_from_past used_from_Cons not_le split: option.splits)
qed

lemma unat_index: "k < MAX_DSET_SIZE \<Longrightarrow> unat (of_nat k + 1 :: u16) = Suc k"
  by (simp add: unat_word_ariths unat_of_nat)

text \<open>The loop, as a recursion over the list.\<close>

primrec host_cfg_items :: "ptr \<Rightarrow> HOST_DSET list \<Rightarrow> ptr \<Rightarrow> memory \<Rightarrow> memory" where
  "host_cfg_items cmd [] p m = m"
| "host_cfg_items cmd (d # ds) p m = host_cfg_items cmd ds (p + 8) (host_cfg_item cmd d p m)"

lemma get_next_used:
  assumes "length (host_dsets t) = MAX_DSET_SIZE"
  shows "case dset_get_next t of (None, t') \<Rightarrow> t' = t \<and> used_from (host_dsets t) (unat (next_dset_ndx t)) = []
    | (Some k, t') \<Rightarrow> k < MAX_DSET_SIZE \<and> host_dsets t' = host_dsets t \<and> unat (next_dset_ndx t') = Suc k \<and>
        used_from (host_dsets t) (unat (next_dset_ndx t)) = host_dsets t ! k # used_from (host_dsets t) (Suc k)"
  using find_slot_used [OF assms, of "unat (next_dset_ndx t)"]
  by (auto simp: dset_get_next_def unat_index split: option.splits)

lemma host_cfg_loop_run:
  assumes "length (host_dsets t) = MAX_DSET_SIZE" "k < MAX_DSET_SIZE" "unat (next_dset_ndx t) = Suc k"
  shows "\<exists>t'. host_cfg_loop cmd (Some k) p t m =
      Some (t', host_cfg_items cmd (filter (\<lambda>d. IS_STRRCL_DSET (dset_id d)) (host_dsets t ! k # used_from (host_dsets t) (Suc k))) p m)
    \<and> host_dsets t' = host_dsets t"
  using assms
proof (induction "MAX_DSET_SIZE - k" arbitrary: k t p m rule: less_induct)
  case less
  let ?d = "host_dsets t ! k"
  define p' m' where "p' = (if IS_STRRCL_DSET (dset_id ?d) then p + 8 else p)"
    and "m' = (if IS_STRRCL_DSET (dset_id ?d) then host_cfg_item cmd ?d p m else m)"
  obtain n t1 where next1: "dset_get_next t = (n, t1)" by fastforce
  have run: "host_cfg_loop cmd (Some k) p t m = host_cfg_loop cmd n p' t1 m'"
    by (subst host_cfg_loop.simps) (simp add: next1 p'_def m'_def Let_def)
  show ?case
  proof (cases n)
    case None
    then have "t1 = t" "used_from (host_dsets t) (Suc k) = []"
      using get_next_used [OF less.prems(1)] next1 less.prems(3) by auto
    moreover have "host_cfg_loop cmd n p' t1 m' = Some (t1, m')" using None by (simp add: host_cfg_loop.simps)
    ultimately show ?thesis using run by (simp add: m'_def)
  next
    case (Some j)
    then have j: "j < MAX_DSET_SIZE" "host_dsets t1 = host_dsets t" "unat (next_dset_ndx t1) = Suc j"
      and used: "used_from (host_dsets t) (Suc k) = host_dsets t ! j # used_from (host_dsets t) (Suc j)"
      using get_next_used [OF less.prems(1)] next1 less.prems(3) by auto
    have "k < j"
    proof -
      have "find_slot (\<lambda>d. dset_id d \<noteq> 0) (host_dsets t) (Suc k) = Some j"
        using next1 Some less.prems(3) by (auto simp: dset_get_next_def split: option.splits)
      then show ?thesis by (simp add: find_slot_Some)
    qed
    then have "MAX_DSET_SIZE - j < MAX_DSET_SIZE - k" using j(1) by simp
    from less.hyps [OF this _ j(1,3), of p' m'] show ?thesis
      using less.prems(1) run Some used by (auto simp: j(2) p'_def m'_def)
  qed
qed

section \<open>The list in memory\<close>

lemma length_dset_item [simp]: "length (dset_item d) = 8"
  by (simp add: dset_item_def)

lemma length_le32_bytes_of [simp]: "length (le32_bytes_of w) = 4"
  by (simp add: le32_bytes_of_def)

lemma mem_bytes_4: "mem_bytes m a 4 = [m a, m (a + 1), m (a + 2), m (a + 3)]"
  by (simp add: mem_bytes_def upt_rec)

lemma mem32_eq: "mem_bytes m a 4 = mem_bytes m' a 4 \<Longrightarrow> mem32 m a = mem32 m' a"
  by (simp add: mem_bytes_4 mem32_def)

lemma mem32_put: "mem32 (mem_put m a (le32_bytes_of w)) a = w"
proof -
  have "mem_bytes (mem_put m a (le32_bytes_of w)) a 4 = le32_bytes_of w"
    using mem_bytes_mem_put [of "le32_bytes_of w" m a] by simp
  then show ?thesis by (simp add: mem_bytes_4 mem32_def le32_bytes_of_def)
qed

lemma host_cfg_item_effect:
  assumes "unat cmd + 4 \<le> unat p" "unat p + 8 \<le> 2 ^ 32"
  shows "mem32 (host_cfg_item cmd d p m) cmd = mem32 m cmd + 1"
    "mem_bytes (host_cfg_item cmd d p m) p 8 = dset_item d"
    "unat cmd + 4 \<le> unat q \<Longrightarrow> unat q + n \<le> unat p \<Longrightarrow>
       mem_bytes (host_cfg_item cmd d p m) q n = mem_bytes m q n"
proof -
  let ?m = "mem_put m p (dset_item d)"
  have "mem32 ?m cmd = mem32 m cmd"
    by (rule mem32_eq) (rule mem_bytes_mem_put_before; use assms in simp)
  then show "mem32 (host_cfg_item cmd d p m) cmd = mem32 m cmd + 1"
    by (simp add: host_cfg_item_def mem32_put)
  have "mem_bytes (host_cfg_item cmd d p m) p 8 = mem_bytes ?m p 8"
    unfolding host_cfg_item_def Let_def by (rule mem_bytes_mem_put_after) (use assms in simp_all)
  also have "\<dots> = dset_item d" using mem_bytes_mem_put [of "dset_item d" m p] by simp
  finally show "mem_bytes (host_cfg_item cmd d p m) p 8 = dset_item d" .
  assume q: "unat cmd + 4 \<le> unat q" "unat q + n \<le> unat p"
  have "mem_bytes (host_cfg_item cmd d p m) q n = mem_bytes ?m q n"
    unfolding host_cfg_item_def Let_def
    by (rule mem_bytes_mem_put_after) (use q unat_lt_2p32 [of p] in simp_all)
  also have "\<dots> = mem_bytes m q n" by (rule mem_bytes_mem_put_before) (use q assms in simp_all)
  finally show "mem_bytes (host_cfg_item cmd d p m) q n = mem_bytes m q n" .
qed

lemma host_cfg_items_effect:
  assumes "unat cmd + 4 \<le> unat p" "unat p + 8 * length ds \<le> 2 ^ 32"
  shows "mem32 (host_cfg_items cmd ds p m) cmd = mem32 m cmd + of_nat (length ds)
    \<and> mem_bytes (host_cfg_items cmd ds p m) p (8 * length ds) = concat (map dset_item ds)
    \<and> (\<forall>q n. unat cmd + 4 \<le> unat q \<and> unat q + n \<le> unat p \<longrightarrow>
         mem_bytes (host_cfg_items cmd ds p m) q n = mem_bytes m q n)"
  using assms
proof (induction ds arbitrary: p m)
  case (Cons d ds)
  show ?case
  proof (cases "ds = []")
    case True
    then show ?thesis using host_cfg_item_effect [OF Cons.prems(1), where d = d and m = m] Cons.prems(2) by simp
  next
    case False
    then have "unat p + 8 < 2 ^ 32" using Cons.prems(2) by (cases ds) auto
    then have p8: "unat (p + 8) = unat p + 8" using unat_add_no_wrap [of p 8] by simp
    let ?m = "host_cfg_item cmd d p m"
    have ih: "mem32 (host_cfg_items cmd ds (p + 8) ?m) cmd = mem32 ?m cmd + of_nat (length ds)"
      "mem_bytes (host_cfg_items cmd ds (p + 8) ?m) (p + 8) (8 * length ds) = concat (map dset_item ds)"
      "\<And>q n. unat cmd + 4 \<le> unat q \<Longrightarrow> unat q + n \<le> unat p + 8 \<Longrightarrow>
         mem_bytes (host_cfg_items cmd ds (p + 8) ?m) q n = mem_bytes ?m q n"
      using Cons.IH [of "p + 8" ?m] Cons.prems p8 by auto
    have step: "mem32 ?m cmd = mem32 m cmd + 1" "mem_bytes ?m p 8 = dset_item d"
      "\<And>q n. unat cmd + 4 \<le> unat q \<Longrightarrow> unat q + n \<le> unat p \<Longrightarrow> mem_bytes ?m q n = mem_bytes m q n"
      using host_cfg_item_effect [OF Cons.prems(1), where d = d and m = m] Cons.prems(2) by simp_all
    have "mem_bytes (host_cfg_items cmd ds (p + 8) ?m) p (8 + 8 * length ds) = dset_item d @ concat (map dset_item ds)"
      using ih(2) ih(3) [of p 8] step(2) Cons.prems(1) by (simp add: mem_bytes_add)
    then show ?thesis using ih(1,3) step(1,3) by simp
  qed
qed (simp add: mem_bytes_def)

lemma used_dsets_from: "used_dsets t = used_from (host_dsets t) 0"
  by (simp add: used_dsets_def used_from_def)

text \<open>C36. The listing for store-recall ends and is complete. \<open>wmi_dset_host_cfg_cmd\<close> walks the table with
  \<open>dset_get_first\<close> and \<open>dset_get_next\<close>; whatever the cursor was before, the loop returns, the table is
  unchanged, and the buffer holds the number of store-recall data sets followed by the id and the length of each
  of them once, in slot order.\<close>

theorem host_cfg_lists_dsets:
  assumes "length (host_dsets t) = MAX_DSET_SIZE" "unat storage + 132 \<le> 2 ^ 32"
  shows "\<exists>t' s'. wmi_dset_host_cfg_cmd storage t s = Some (A_OK, t', s') \<and> host_dsets t' = host_dsets t
    \<and> mem32 (mem s') storage = of_nat (length (filter (\<lambda>d. IS_STRRCL_DSET (dset_id d)) (used_dsets t)))
    \<and> mem_bytes (mem s') (storage + 4) (8 * length (filter (\<lambda>d. IS_STRRCL_DSET (dset_id d)) (used_dsets t)))
      = concat (map dset_item (filter (\<lambda>d. IS_STRRCL_DSET (dset_id d)) (used_dsets t)))"
proof -
  let ?F = "filter (\<lambda>d. IS_STRRCL_DSET (dset_id d))"
  let ?m = "mem_put (mem s) storage (le32_bytes_of 0)"
  have run: "\<exists>t'. wmi_dset_host_cfg_cmd storage t s =
      Some (A_OK, t', s\<lparr>mem := host_cfg_items storage (?F (used_dsets t)) (storage + 4) ?m\<rparr>) \<and> host_dsets t' = host_dsets t"
  proof (cases "find_slot (\<lambda>d. dset_id d \<noteq> 0) (host_dsets t) 0")
    case None
    then have "used_dsets t = []" "dset_get_first t = (None, t)"
      using find_slot_used [OF assms(1), of 0] by (simp_all add: used_dsets_from dset_get_first_def)
    then show ?thesis by (simp add: wmi_dset_host_cfg_cmd_def host_cfg_loop.simps Let_def)
  next
    case (Some k)
    let ?t = "t\<lparr>next_dset_ndx := of_nat k + 1\<rparr>"
    have k: "k < MAX_DSET_SIZE" "used_dsets t = host_dsets t ! k # used_from (host_dsets t) (Suc k)"
      "dset_get_first t = (Some k, ?t)"
      using find_slot_used [OF assms(1), of 0] Some by (simp_all add: used_dsets_from dset_get_first_def)
    from host_cfg_loop_run [of ?t k storage "storage + 4" ?m] k assms(1)
    show ?thesis by (auto simp: wmi_dset_host_cfg_cmd_def unat_index)
  qed
  have "length (?F (used_dsets t)) \<le> 16"
    using assms(1) by (metis length_filter_le le_trans used_dsets_def)
  moreover have "unat (storage + 4) = unat storage + 4" using assms(2) unat_add_no_wrap [of storage 4] by simp
  ultimately show ?thesis
    using run host_cfg_items_effect [of storage "storage + 4" "?F (used_dsets t)" ?m] assms(2)
    by (auto simp: mem32_put)
qed

section \<open>The other list\<close>

lemma mem_put_append: "mem_put m a (xs @ ys) = mem_put (mem_put m a xs) (a + of_nat (length xs)) ys"
proof (induction xs arbitrary: m a)
  case (Cons x xs)
  have "mem_put m a ((x # xs) @ ys) = mem_put (mem_put (m(a := x)) (a + 1) xs) (a + 1 + of_nat (length xs)) ys"
    by (simp only: append_Cons mem_put.simps Cons)
  also have "a + 1 + of_nat (length xs) = a + of_nat (length (x # xs))" by simp
  finally show ?case by (simp only: mem_put.simps)
qed simp

lemma fill_loop_run:
  assumes "length ds = MAX_DSET_SIZE" "i \<le> MAX_DSET_SIZE" "unat count \<le> i"
  shows "fill_loop ds n i count p m = (let l = take (unat n - unat count) (used_from ds i) in
    (count + of_nat (length l), mem_put m p (concat (map dset_item l))))"
  using assms
proof (induction ds n i count p m rule: fill_loop.induct)
  case (1 ds n i count p m)
  have less: "ucast count < n \<longleftrightarrow> unat count < unat n"
    using unsigned_less [of count, where ?'a = nat] by (simp add: word_less_nat_alt unsigned_ucast_eq take_bit_eq_mod)
  show ?case
  proof (cases "i < MAX_DSET_SIZE \<and> ucast count < n")
    case False
    then show ?thesis using 1 less by (subst fill_loop.simps) (auto simp: used_from_past)
  next
    case True
    note i = used_from_Cons [of i ds]
    show ?thesis
    proof (cases "dset_id (ds ! i) = 0")
      case True
      then show ?thesis using 1 \<open>i < _ \<and> _\<close> i by (subst fill_loop.simps) auto
    next
      case used: False
      have c: "unat (count + 1) = unat count + 1" using True "1.prems" by (simp add: unat_word_ariths)
      obtain r where r: "unat n - unat count = Suc r" using True less by (cases "unat n - unat count") auto
      then have "unat n - unat (count + 1) = r" using c by simp
      then show ?thesis
        using 1 True used i c r by (subst fill_loop.simps) (simp add: mem_put_append del: of_nat_Suc, simp)
    qed
  qed
qed

text \<open>C35. \<open>dset_fill\<close> is the same listing by another loop: it writes the first \<open>max_dset_count\<close> data
  sets in slot order, each with its id and its length, next to each other, and returns their number.\<close>

theorem dset_fill_reference:
  assumes "length (host_dsets t) = MAX_DSET_SIZE"
  shows "dset_fill pData n t s = (of_nat (length (take (unat n) (used_dsets t))),
    s\<lparr>mem := mem_put (mem s) pData (concat (map dset_item (take (unat n) (used_dsets t))))\<rparr>)"
proof -
  let ?l = "take (unat n) (used_dsets t)"
  have "length ?l \<le> 16" using assms by (metis length_filter_le length_take min.coboundedI1 min.commute used_dsets_def)
  then have "ucast (of_nat (length ?l) :: u16) = (of_nat (length ?l) :: u32)"
    by (simp add: word_unat_eq_iff unsigned_ucast_eq take_bit_eq_mod unat_of_nat)
  then show ?thesis
    using fill_loop_run [OF assms, of 0 0 n pData "mem s"] by (simp add: dset_fill_def used_dsets_from)
qed

section \<open>In and out of a data set\<close>

text \<open>C34. Bytes of a data set. Writing and reading inside a data set is exact: what is written at an
  offset is what a read at the offset yields, all of it, and the other bytes of the data set stay.\<close>

theorem dset_write_read_roundtrip:
  assumes w: "dset_write d src offset len s = (n, s1)" and r: "dset_read d dst offset len s1 = (n', s2)"
    and fits: "unat offset + unat len \<le> unat (dset_length d)" and buffer: "unat (data_ptr d) + unat (dset_length d) \<le> 2 ^ 32"
  shows "n = len \<and> n' = len \<and> mem_bytes (mem s2) dst (unat len) = mem_bytes (mem s) src (unat len)
    \<and> mem_bytes (mem s1) (data_ptr d) (unat offset) = mem_bytes (mem s) (data_ptr d) (unat offset)
    \<and> (\<forall>k. unat offset + unat len \<le> k \<and> k < unat (dset_length d) \<longrightarrow>
         mem s1 (data_ptr d + of_nat k) = mem s (data_ptr d + of_nat k))"
proof -
  have "unat (offset + len) = unat offset + unat len"
    using fits unsigned_less [of "dset_length d", where ?'a = nat] by (intro unat_add_no_wrap) simp
  then have span: "dset_span d offset len = len" using fits by (simp add: dset_span_def word_less_nat_alt)
  let ?at = "data_ptr d + offset"
  have n: "n = len" "n' = len" and s1: "mem s1 = A_MEMCPY (mem s) ?at src len"
    and s2: "mem s2 = A_MEMCPY (mem s1) dst ?at len"
    using w r span by (auto simp: dset_write_def dset_read_def Let_def)
  have "mem_bytes (mem s2) dst (unat len) = mem_bytes (mem s) src (unat len)"
    unfolding s2 s1 A_MEMCPY_def by simp
  moreover have at: "unat ?at = unat (data_ptr d) + unat offset" if "0 < unat len"
    using fits buffer that by (intro unat_add_no_wrap) simp
  have "mem s1 (data_ptr d + of_nat k) = mem s (data_ptr d + of_nat k)"
    if k: "k < unat offset \<or> unat offset + unat len \<le> k" "k < unat (dset_length d)" for k
  proof (cases "unat len = 0")
    case True
    then show ?thesis by (simp add: s1 A_MEMCPY_def mem_bytes_def)
  next
    case False
    have a: "unat (data_ptr d + of_nat k) = unat (data_ptr d) + k"
      using k(2) buffer by (intro unat_offset) simp
    have k32: "unat (of_nat k :: ptr) = k" using k(2) buffer unat_lt_2p32 [of "dset_length d"] by (simp add: unat_of_nat)
    have "unat len \<le> unat (data_ptr d + of_nat k - ?at)"
      using at False k fits buffer a k32 unat_lt_2p32 [of "dset_length d"] by (auto simp: unat_sub_if_size word_size)
    then show ?thesis unfolding s1 A_MEMCPY_def using unat_le_2p32 [of len] by (intro mem_put_outside) simp_all
  qed
  then have rest: "k < unat offset \<or> unat offset + unat len \<le> k \<Longrightarrow> k < unat (dset_length d) \<Longrightarrow>
      mem s1 (data_ptr d + of_nat k) = mem s (data_ptr d + of_nat k)" for k .
  have "mem_bytes (mem s1) (data_ptr d) (unat offset) = mem_bytes (mem s) (data_ptr d) (unat offset)"
    using rest fits by (auto simp: mem_bytes_def)
  ultimately show ?thesis using n rest by blast
qed

text \<open>Where the copy goes wrong. As long as offset and length do not wrap around together, a copy at an
  offset inside the data set is cut off at its end; but at an offset past the end, the number of bytes
  left is computed below zero, and the copy runs through almost the whole address space.\<close>

theorem dset_span_bounds:
  assumes "unat offset + unat len < 2 ^ 32"
  shows "unat (dset_span d offset len) = (if unat offset \<le> unat (dset_length d)
      then min (unat len) (unat (dset_length d) - unat offset)
      else 2 ^ 32 - (unat offset - unat (dset_length d)))"
proof -
  have "unat (offset + len) = unat offset + unat len" using assms by (intro unat_add_no_wrap) simp
  then show ?thesis
    by (auto simp: dset_span_def word_less_nat_alt unat_sub_if_size word_size)
qed

section \<open>Examples\<close>

text \<open>Two data sets, one of them for store-recall, and a free slot between them.\<close>

definition two_dsets :: dset_table where
  "two_dsets = no_dsets\<lparr>host_dsets := [\<lparr>dset_id = 0x80, dset_length = 16, data_ptr = 0x1000\<rparr>, empty_slot,
     \<lparr>dset_id = 0x901, dset_length = 32, data_ptr = 0x2000\<rparr>] @ replicate 13 empty_slot\<rparr>"

lemma two_dsets_used: "map dset_id (used_dsets two_dsets) = [0x80, 0x901]" "length (host_dsets two_dsets) = MAX_DSET_SIZE"
  by (simp_all add: used_dsets_def two_dsets_def empty_slot_def)

lemma two_dsets_strrcl: "length (filter (\<lambda>d. IS_STRRCL_DSET (dset_id d)) (used_dsets two_dsets)) = 1"
  by (simp add: used_dsets_def two_dsets_def empty_slot_def IS_STRRCL_DSET_def)

theorem host_cfg_lists_dsets_witness:
  "\<exists>t s. wmi_dset_host_cfg_cmd 0x8000 two_dsets demo_host = Some (A_OK, t, s) \<and> mem32 (mem s) 0x8000 = 1"
  using host_cfg_lists_dsets [OF two_dsets_used(2), of "0x8000" demo_host] unfolding two_dsets_strrcl by auto

theorem dset_fill_reference_witness: "fst (dset_fill 0x8000 5 two_dsets demo_host) = 2"
proof -
  have "length (used_dsets two_dsets) = 2" using arg_cong [OF two_dsets_used(1), of length] by simp
  then show ?thesis using dset_fill_reference [OF two_dsets_used(2), of "0x8000" 5 demo_host] by simp
qed

definition demo_dset :: HOST_DSET where
  "demo_dset = \<lparr>dset_id = 0x901, dset_length = 32, data_ptr = 0x2000\<rparr>"

theorem dset_write_read_roundtrip_witness:
  "\<exists>s1 s2. dset_write demo_dset 0x500 4 8 demo_host = (8, s1) \<and> dset_read demo_dset 0x600 4 8 s1 = (8, s2)
    \<and> mem_bytes (mem s2) 0x600 8 = mem_bytes (mem demo_host) 0x500 8"
proof -
  obtain n s1 where w: "dset_write demo_dset 0x500 4 8 demo_host = (n, s1)" by fastforce
  obtain n' s2 where r: "dset_read demo_dset 0x600 4 8 s1 = (n', s2)" by fastforce
  from dset_write_read_roundtrip [OF w r] w r show ?thesis by (simp add: demo_dset_def)
qed

theorem dset_span_bounds_witness: "unat (dset_span demo_dset 40 8) = 2 ^ 32 - 8"
  using dset_span_bounds [of 40 8 demo_dset] by (simp add: demo_dset_def)

end
