(* ===== verification/Info_Elem.thy ===== *)
theory Info_Elem
  imports Wifi_Util
begin

text \<open>
  The beacon parser of \<^verbatim>\<open>common_src/api_interface/api_ioctl.c\<close>: \<open>Api_ParseInfoElem\<close> walks through
  the information elements of a beacon or probe response and fills an \<open>A_SCAN_SUMMARY\<close>;
  \<open>security_ie_parse\<close> reads the cipher and authentication suites of an RSN or WPA element.

  All of it reads the event's memory through pointers; a \<open>QOSAL_UINT8\<close> or \<open>QOSAL_UINT16\<close> length keeps
  its width, so that \<open>ie_len -= 4\<close> wraps as it does in the code. The key length the cipher
  functions store is never read and left out, as are the three fields of the summary that nothing sets. The signed length \<open>len\<close> of the event is the 32-bit
  word it is compared as.
\<close>

record A_SCAN_SUMMARY =
  ss_beacon_period :: u16
  ss_caps :: u16
  ss_bssid :: "u8 list"
  ss_ssid :: "u8 list"
  ss_channel :: u8
  ss_ssid_len :: u8
  ss_rssi :: u8
  ss_rsn_cipher :: u8
  ss_rsn_auth :: u8
  ss_wpa_cipher :: u8
  ss_wpa_auth :: u8

definition scan_summary_zero :: A_SCAN_SUMMARY where
  "scan_summary_zero = \<lparr>ss_beacon_period = 0, ss_caps = 0, ss_bssid = replicate 6 0, ss_ssid = replicate 32 0,
     ss_channel = 0, ss_ssid_len = 0, ss_rssi = 0, ss_rsn_cipher = 0, ss_rsn_auth = 0, ss_wpa_cipher = 0,
     ss_wpa_auth = 0\<rparr>"

abbreviation (input) NONE_CRYPT :: u8 where "NONE_CRYPT \<equiv> 1"
abbreviation (input) WEP_CRYPT :: u8 where "WEP_CRYPT \<equiv> 2"
abbreviation (input) TKIP_CRYPT :: u8 where "TKIP_CRYPT \<equiv> 4"
abbreviation (input) AES_CRYPT :: u8 where "AES_CRYPT \<equiv> 8"
abbreviation (input) NONE_AUTH :: u8 where "NONE_AUTH \<equiv> 1"
abbreviation (input) WPA_AUTH :: u8 where "WPA_AUTH \<equiv> 2"
abbreviation (input) WPA2_AUTH :: u8 where "WPA2_AUTH \<equiv> 4"
abbreviation (input) WPA_PSK_AUTH :: u8 where "WPA_PSK_AUTH \<equiv> 8"
abbreviation (input) WPA2_PSK_AUTH :: u8 where "WPA2_PSK_AUTH \<equiv> 0x10"
abbreviation (input) IEEE80211_ELEMID_SSID :: u8 where "IEEE80211_ELEMID_SSID \<equiv> 0"
abbreviation (input) IEEE80211_ELEMID_RSN :: u8 where "IEEE80211_ELEMID_RSN \<equiv> 48"
abbreviation (input) IEEE80211_ELEMID_VENDOR :: u8 where "IEEE80211_ELEMID_VENDOR \<equiv> 221"
abbreviation (input) WPA_OUI :: u32 where "WPA_OUI \<equiv> 0xf25000"
abbreviation (input) RSN_OUI :: u32 where "RSN_OUI \<equiv> 0xac0f00"

text \<open>\<open>WPA_SEL\<close> and \<open>RSN_SEL\<close>\<close>

definition WPA_SEL :: "u32 \<Rightarrow> u32" where "WPA_SEL x = push_bit 24 x OR WPA_OUI"
definition RSN_SEL :: "u32 \<Rightarrow> u32" where "RSN_SEL x = push_bit 24 x OR RSN_OUI"

section \<open>Suites\<close>

definition wpa_auth_parse :: "memory \<Rightarrow> ptr \<Rightarrow> u8" where
  "wpa_auth_parse m sel = (let w = mem32 m sel in
     if w = WPA_SEL 1 then WPA_AUTH
     else if w = WPA_SEL 2 then WPA_PSK_AUTH
     else if w = WPA_SEL 0 then NONE_AUTH
     else 0)"

definition wpa_cipher_parse :: "memory \<Rightarrow> ptr \<Rightarrow> u8" where
  "wpa_cipher_parse m sel = (let w = mem32 m sel in
     if w = WPA_SEL 0 then NONE_CRYPT
     else if w = WPA_SEL 1 then WEP_CRYPT
     else if w = WPA_SEL 5 then WEP_CRYPT
     else if w = WPA_SEL 2 then TKIP_CRYPT
     else if w = WPA_SEL 4 then AES_CRYPT
     else 0)"

definition rsn_cipher_parse :: "memory \<Rightarrow> ptr \<Rightarrow> u8" where
  "rsn_cipher_parse m sel = (let w = mem32 m sel in
     if w = RSN_SEL 0 then NONE_CRYPT
     else if w = RSN_SEL 1 then WEP_CRYPT
     else if w = RSN_SEL 5 then WEP_CRYPT
     else if w = RSN_SEL 2 then TKIP_CRYPT
     else if w = RSN_SEL 4 then AES_CRYPT
     else NONE_CRYPT)"

definition rsn_auth_parse :: "memory \<Rightarrow> ptr \<Rightarrow> u8" where
  "rsn_auth_parse m sel = (let w = mem32 m sel in
     if w = RSN_SEL 1 then WPA2_AUTH
     else if w = RSN_SEL 2 then WPA2_PSK_AUTH
     else if w = RSN_SEL 0 then NONE_AUTH
     else 0)"

section \<open>An RSN or WPA element\<close>

text \<open>The loop over a list of suites; what is left of the length, the pointer behind the list, and
  the accumulated bits.\<close>

lemma unat_increment: "(i :: 'a::len word) < n \<Longrightarrow> unat (i + 1) = Suc (unat i)"
  using unsigned_less [of n, where ?'a = nat]
  by (subst unat_add_no_wrap) (auto simp: word_less_nat_alt intro: le_less_trans Suc_leI)

function suite_loop :: "(ptr \<Rightarrow> u8) \<Rightarrow> u16 \<Rightarrow> u16 \<Rightarrow> u8 \<Rightarrow> ptr \<Rightarrow> u8 \<Rightarrow> u8 \<times> ptr \<times> u8" where
  "suite_loop parse i cnt ie_len pie r =
     (if i < cnt \<and> ie_len > 0
      then suite_loop parse (i + 1) cnt (ie_len - 4) (pie + 4) (r OR parse pie)
      else (ie_len, pie, r))"
  by auto
termination
  by (relation "measure (\<lambda>(parse, i, cnt, x). unat cnt - unat i)") (auto simp: unat_increment word_less_nat_alt)

declare suite_loop.simps [simp del]

definition security_ie_parse :: "memory \<Rightarrow> ptr \<Rightarrow> u8 \<Rightarrow> u8 \<times> u8 \<Rightarrow> u8 \<Rightarrow> u8 \<times> u8" where
  "security_ie_parse m pie ie_len pResult ie_type = (
     let (r0, r1) = pResult;
         (ie_len, pie) = (if ie_len \<ge> 4 then (ie_len - 4, pie + 4) else (ie_len, pie));
         (ie_len, pie, r0) =
           (if ie_len > 2
            then suite_loop (if ie_type = IEEE80211_ELEMID_RSN then rsn_cipher_parse m else wpa_cipher_parse m)
                   0 (mem16 m pie) (ie_len - 2) (pie + 2) r0
            else (ie_len, pie, r0 OR (if ie_type = IEEE80211_ELEMID_RSN then AES_CRYPT else TKIP_CRYPT)));
         (ie_len, pie, r1) =
           (if ie_len > 2
            then suite_loop (if ie_type = IEEE80211_ELEMID_RSN then rsn_auth_parse m else wpa_auth_parse m)
                   0 (mem16 m pie) (ie_len - 2) (pie + 2) r1
            else (ie_len, pie, r1 OR (if ie_type = IEEE80211_ELEMID_RSN then WPA2_AUTH else WPA_AUTH)))
     in (r0, r1))"

section \<open>The elements of a beacon\<close>

text \<open>The \<open>switch\<close> on the element at \<open>pie\<close>. The length passed to \<open>security_ie_parse\<close> is a 16-bit value cut to 8 bits.\<close>

definition parse_element :: "memory \<Rightarrow> ptr \<Rightarrow> A_SCAN_SUMMARY \<Rightarrow> A_SCAN_SUMMARY" where
  "parse_element m pie y =
     (if m pie = IEEE80211_ELEMID_SSID then
        if m (pie + 1) \<le> 32
        then y\<lparr>ss_ssid_len := m (pie + 1),
               ss_ssid := (let n = unat (m (pie + 1)) in mem_bytes m (pie + 2) n @ drop n (ss_ssid y))\<rparr>
        else y
      else if m pie = IEEE80211_ELEMID_RSN then
        let ie_len = (ucast (m (pie + 1)) :: u16); pieTemp = pie + 2 in
        if mem16 m pieTemp \<noteq> 1 then y
        else
          let (c, a) = security_ie_parse m (pieTemp + 2) (ucast (ie_len - 2)) (0, 0) IEEE80211_ELEMID_RSN
          in y\<lparr>ss_rsn_cipher := c, ss_rsn_auth := a\<rparr>
      else if m pie = IEEE80211_ELEMID_VENDOR then
        if m (pie + 1) > 6 \<and> mem32 m (pie + 2) = WPA_SEL 1 then
          let ie_len = (ucast (m (pie + 1)) :: u16) - 4; pieTemp = pie + 6 in
          if mem16 m pieTemp \<noteq> 1 then y
          else
            let (c, a) = security_ie_parse m (pieTemp + 2) (ucast (ie_len - 2)) (0, 0) IEEE80211_ELEMID_VENDOR
            in y\<lparr>ss_wpa_cipher := c, ss_wpa_auth := a\<rparr>
        else y
      else y)"

partial_function (option) element_loop ::
    "memory \<Rightarrow> ptr \<Rightarrow> ptr \<Rightarrow> A_SCAN_SUMMARY \<Rightarrow> A_SCAN_SUMMARY option" where
  "element_loop m pie pieEnd y =
     (if pie < pieEnd
      then element_loop m (pie + (ucast (m (pie + 1)) + 2)) pieEnd (parse_element m pie y)
      else Some y)"

abbreviation (input) sizeof_WMI_BSS_INFO_HDR :: u32 where "sizeof_WMI_BSS_INFO_HDR \<equiv> 16"
abbreviation (input) BEACON_PERIOD_IE_INDEX :: ptr where "BEACON_PERIOD_IE_INDEX \<equiv> 8"
abbreviation (input) CAPS_IE_INDEX :: ptr where "CAPS_IE_INDEX \<equiv> 10"
abbreviation (input) IE_INDEX :: ptr where "IE_INDEX \<equiv> 12"

text \<open>\<open>bih\<close> is a \<open>WMI_BSS_INFO_HDR\<close>: the channel's frequency at 0, the signal strength at 3, the
  BSSID at 6.\<close>

definition Api_ParseInfoElem :: "memory \<Rightarrow> ptr \<Rightarrow> u32 \<Rightarrow> (A_STATUS \<times> A_SCAN_SUMMARY) option" where
  "Api_ParseInfoElem m bih len = (
     let y = scan_summary_zero\<lparr>ss_channel := ucast (Util_Freq2ieee (mem16 m bih)), ss_rssi := m (bih + 3),
                 ss_bssid := mem_bytes m (bih + 6) 6\<rparr>
     in
     if len < sizeof_WMI_BSS_INFO_HDR + IE_INDEX then Some (A_ERROR, y)
     else
       let buf = bih + sizeof_WMI_BSS_INFO_HDR; len = len - sizeof_WMI_BSS_INFO_HDR;
           y = y\<lparr>ss_caps := mem16 m (buf + CAPS_IE_INDEX), ss_beacon_period := mem16 m (buf + BEACON_PERIOD_IE_INDEX)\<rparr>;
           pie = buf + IE_INDEX; len = len - IE_INDEX
       in do {
         y \<leftarrow> element_loop m pie (pie + len) y;
         Some (A_OK, y)})"

end
