(* ===== verification/Beacon_Parse.thy ===== *)
theory Beacon_Parse
  imports Info_Elem
begin

text \<open>
  What the beacon parser reads and yields: the range a list of suites is read from, the end of the
  walk through the elements, and, for a well-formed frame, the summary of its elements.
\<close>

section \<open>A list of suites\<close>

text \<open>\<open>k\<close> rounds of the loop.\<close>

abbreviation suites_or :: "(ptr \<Rightarrow> u8) \<Rightarrow> ptr \<Rightarrow> nat \<Rightarrow> u8 \<Rightarrow> u8" where
  "suites_or parse pie k r \<equiv> fold (\<lambda>j r. r OR parse (pie + 4 * of_nat j)) [0..<k] r"

lemma suite_loop_rounds:
  assumes "\<And>j. j < k \<Longrightarrow> ie_len - 4 * of_nat j \<noteq> 0" "unat i + k \<le> unat cnt"
  shows "suite_loop parse i cnt ie_len pie r =
    suite_loop parse (i + of_nat k) cnt (ie_len - 4 * of_nat k) (pie + 4 * of_nat k) (suites_or parse pie k r)"
  using assms
proof (induction k)
  case (Suc k)
  have i: "unat (i + of_nat k) = unat i + k"
    using Suc.prems(2) unsigned_less [of cnt, where ?'a = nat]
    by (subst unat_add_no_wrap) (simp_all add: unat_of_nat)
  then have "i + of_nat k < cnt" using Suc.prems(2) by (simp add: word_less_nat_alt)
  moreover have "ie_len - 4 * of_nat k > 0" using Suc.prems(1) [of k] by (simp add: word_gt_0)
  moreover have "suite_loop parse i cnt ie_len pie r =
    suite_loop parse (i + of_nat k) cnt (ie_len - 4 * of_nat k) (pie + 4 * of_nat k) (suites_or parse pie k r)"
    using Suc by simp
  ultimately show ?case
    by (simp add: suite_loop.simps [of parse "i + of_nat k"] algebra_simps)
qed simp

text \<open>The length runs down to zero only if it is a multiple of four.\<close>

lemma ie_len_zero: "(ie_len :: u8) - 4 * of_nat j = 0 \<longleftrightarrow> unat ie_len = 4 * j mod 256"
proof -
  have "ie_len - 4 * of_nat j = 0 \<longleftrightarrow> unat ie_len = unat (4 * of_nat j :: u8)" by (metis eq_iff_diff_eq_0 word_unat_eq_iff)
  moreover have "unat (4 * of_nat j :: u8) = 4 * j mod 256"
    using unat_of_nat [of "4 * j", where ?'a = 8] by simp
  ultimately show ?thesis by simp
qed

definition suite_rounds :: "u16 \<Rightarrow> u8 \<Rightarrow> nat" where
  "suite_rounds cnt ie_len = (if 4 dvd unat ie_len then min (unat cnt) (unat ie_len div 4) else unat cnt)"

lemma suite_loop_result:
  fixes cnt :: u16 and ie_len :: u8
  defines "k \<equiv> suite_rounds cnt ie_len"
  shows "suite_loop parse 0 cnt ie_len pie r = (ie_len - 4 * of_nat k, pie + 4 * of_nat k, suites_or parse pie k r)"
proof -
  have lt: "unat ie_len < 256" using unsigned_less [of ie_len, where ?'a = nat] by simp
  have "ie_len - 4 * of_nat j \<noteq> 0" if "j < k" for j
  proof (cases "4 dvd unat ie_len")
    case True
    then have "4 * j < unat ie_len" using that by (auto simp: k_def suite_rounds_def)
    then show ?thesis using lt by (metis ie_len_zero less_trans mod_less nat_neq_iff)
  next
    case False
    have "4 dvd 4 * j mod 256" by (simp add: dvd_mod)
    with False show ?thesis by (metis ie_len_zero)
  qed
  moreover have k: "k \<le> unat cnt" by (simp add: k_def suite_rounds_def)
  ultimately have "suite_loop parse 0 cnt ie_len pie r =
      suite_loop parse (of_nat k) cnt (ie_len - 4 * of_nat k) (pie + 4 * of_nat k) (suites_or parse pie k r)"
    using suite_loop_rounds [of k ie_len 0 cnt parse pie r] by simp
  moreover have "\<not> (of_nat k < cnt \<and> ie_len - 4 * of_nat k > 0)"
  proof (cases "k = unat cnt")
    case False
    then have "unat ie_len = 4 * k" using k by (auto simp: k_def suite_rounds_def split: if_splits)
    then have "ie_len - 4 * of_nat k = 0" using lt by (metis ie_len_zero mod_less)
    then show ?thesis by simp
  qed simp
  ultimately show ?thesis by (simp add: suite_loop.simps [of parse "of_nat k"])
qed


section \<open>Well-formed elements\<close>

text \<open>The abstract elements of a frame and the bytes they are encoded as.\<close>

datatype cipher = Cipher_None | Cipher_WEP40 | Cipher_TKIP | Cipher_CCMP | Cipher_WEP104
datatype akm = Auth_None | Auth_8021X | Auth_PSK
datatype family = RSN | WPA

primrec cipher_code :: "cipher \<Rightarrow> u32" where
  "cipher_code Cipher_None = 0"
| "cipher_code Cipher_WEP40 = 1"
| "cipher_code Cipher_TKIP = 2"
| "cipher_code Cipher_CCMP = 4"
| "cipher_code Cipher_WEP104 = 5"

primrec cipher_bit :: "cipher \<Rightarrow> u8" where
  "cipher_bit Cipher_None = NONE_CRYPT"
| "cipher_bit Cipher_WEP40 = WEP_CRYPT"
| "cipher_bit Cipher_TKIP = TKIP_CRYPT"
| "cipher_bit Cipher_CCMP = AES_CRYPT"
| "cipher_bit Cipher_WEP104 = WEP_CRYPT"

primrec akm_code :: "akm \<Rightarrow> u32" where
  "akm_code Auth_None = 0"
| "akm_code Auth_8021X = 1"
| "akm_code Auth_PSK = 2"

fun akm_bit :: "family \<Rightarrow> akm \<Rightarrow> u8" where
  "akm_bit f Auth_None = NONE_AUTH"
| "akm_bit RSN Auth_8021X = WPA2_AUTH"
| "akm_bit WPA Auth_8021X = WPA_AUTH"
| "akm_bit RSN Auth_PSK = WPA2_PSK_AUTH"
| "akm_bit WPA Auth_PSK = WPA_PSK_AUTH"

primrec suite_sel :: "family \<Rightarrow> u32 \<Rightarrow> u32" where
  "suite_sel RSN = RSN_SEL"
| "suite_sel WPA = WPA_SEL"

primrec family_id :: "family \<Rightarrow> u8" where
  "family_id RSN = IEEE80211_ELEMID_RSN"
| "family_id WPA = IEEE80211_ELEMID_VENDOR"

definition suites_bytes :: "family \<Rightarrow> u32 list \<Rightarrow> u8 list" where
  "suites_bytes f cs = concat (map (\<lambda>c. le32_bytes_of (suite_sel f c)) cs)"

definition security_bytes :: "family \<Rightarrow> u8 list \<Rightarrow> cipher list \<Rightarrow> akm list \<Rightarrow> u8 list \<Rightarrow> u8 list" where
  "security_bytes f g cs as t = g @ le16_bytes_of (of_nat (length cs)) @ suites_bytes f (map cipher_code cs)
     @ le16_bytes_of (of_nat (length as)) @ suites_bytes f (map akm_code as) @ t"

datatype info_elem = SSID "u8 list" | Security family "u8 list" "cipher list" "akm list" "u8 list" | Other u8 "u8 list"

fun elem_id :: "info_elem \<Rightarrow> u8" where
  "elem_id (SSID bs) = IEEE80211_ELEMID_SSID"
| "elem_id (Security f g cs as t) = family_id f"
| "elem_id (Other i bs) = i"

fun elem_body :: "info_elem \<Rightarrow> u8 list" where
  "elem_body (SSID bs) = bs"
| "elem_body (Security RSN g cs as t) = le16_bytes_of 1 @ security_bytes RSN g cs as t"
| "elem_body (Security WPA g cs as t) = le32_bytes_of (WPA_SEL 1) @ le16_bytes_of 1 @ security_bytes WPA g cs as t"
| "elem_body (Other i bs) = bs"

definition elem_bytes :: "info_elem \<Rightarrow> u8 list" where
  "elem_bytes e = elem_id e # of_nat (length (elem_body e)) # elem_body e"

fun elem_wf :: "info_elem \<Rightarrow> bool" where
  "elem_wf (SSID bs) \<longleftrightarrow> length bs \<le> 32"
| "elem_wf (Security f g cs as t) \<longleftrightarrow> length g = 4 \<and> as \<noteq> [] \<and> length (elem_body (Security f g cs as t)) \<le> 255"
| "elem_wf (Other i bs) \<longleftrightarrow> i \<notin> {IEEE80211_ELEMID_SSID, IEEE80211_ELEMID_RSN, IEEE80211_ELEMID_VENDOR} \<and> length bs \<le> 255"

text \<open>What an element says of the network.\<close>

fun apply_elem :: "info_elem \<Rightarrow> A_SCAN_SUMMARY \<Rightarrow> A_SCAN_SUMMARY" where
  "apply_elem (SSID bs) y = y\<lparr>ss_ssid_len := of_nat (length bs), ss_ssid := bs @ drop (length bs) (ss_ssid y)\<rparr>"
| "apply_elem (Security RSN g cs as t) y =
     y\<lparr>ss_rsn_cipher := fold (\<lambda>c r. r OR cipher_bit c) cs 0, ss_rsn_auth := fold (\<lambda>a r. r OR akm_bit RSN a) as 0\<rparr>"
| "apply_elem (Security WPA g cs as t) y =
     y\<lparr>ss_wpa_cipher := fold (\<lambda>c r. r OR cipher_bit c) cs 0, ss_wpa_auth := fold (\<lambda>a r. r OR akm_bit WPA a) as 0\<rparr>"
| "apply_elem (Other i bs) y = y"

section \<open>Suites are read back\<close>

definition cipher_parse :: "family \<Rightarrow> memory \<Rightarrow> ptr \<Rightarrow> u8" where
  "cipher_parse f = (if family_id f = IEEE80211_ELEMID_RSN then rsn_cipher_parse else wpa_cipher_parse)"

definition akm_parse :: "family \<Rightarrow> memory \<Rightarrow> ptr \<Rightarrow> u8" where
  "akm_parse f = (if family_id f = IEEE80211_ELEMID_RSN then rsn_auth_parse else wpa_auth_parse)"

lemmas sel_defs = RSN_SEL_def WPA_SEL_def

lemma cipher_parse_sel: "mem32 m p = suite_sel f (cipher_code c) \<Longrightarrow> cipher_parse f m p = cipher_bit c"
  by (cases f; cases c) (simp_all add: cipher_parse_def rsn_cipher_parse_def wpa_cipher_parse_def sel_defs)

lemma akm_parse_sel: "mem32 m p = suite_sel f (akm_code a) \<Longrightarrow> akm_parse f m p = akm_bit f a"
  by (cases f; cases a) (simp_all add: akm_parse_def rsn_auth_parse_def wpa_auth_parse_def sel_defs)

lemma length_suites_bytes [simp]: "length (suites_bytes f cs) = 4 * length cs"
  by (induction cs) (simp_all add: suites_bytes_def)

lemma mem_has_suite:
  "mem_has m pie (suites_bytes f cs) \<Longrightarrow> j < length cs \<Longrightarrow> mem32 m (pie + 4 * of_nat j) = suite_sel f (cs ! j)"
proof (induction cs arbitrary: pie j)
  case (Cons c cs)
  have c: "mem32 m pie = suite_sel f c" and cs: "mem_has m (pie + 4) (suites_bytes f cs)"
    using Cons.prems(1) by (simp_all add: suites_bytes_def mem_has_le32)
  show ?case
  proof (cases j)
    case (Suc i)
    then show ?thesis using Cons.IH [OF cs, of i] Cons.prems(2) by (simp add: algebra_simps)
  qed (simp add: c)
qed simp

lemma suites_or_codes:
  assumes "mem_has m pie (suites_bytes f (map code xs))"
    and "\<And>p x. mem32 m p = suite_sel f (code x) \<Longrightarrow> parse p = bit_of x"
  shows "suites_or parse pie (length xs) r = fold (\<lambda>x r. r OR bit_of x) xs r"
proof -
  have "map (\<lambda>j. parse (pie + 4 * of_nat j)) [0..<length xs] = map bit_of xs"
    using assms(2) mem_has_suite [OF assms(1)] by (intro nth_equalityI) auto
  moreover have "fold (\<lambda>x r. r OR g x) ys r = fold (\<lambda>b r. r OR b) (map g ys) r" for g :: "'z \<Rightarrow> u8" and ys
    by (simp add: fold_map o_def)
  ultimately show ?thesis by metis
qed

lemma suite_rounds_exact: "4 * n + k \<le> 255 \<Longrightarrow> suite_rounds (of_nat n) (4 * of_nat n + of_nat k) = n"
  using unat_of_nat [of "4 * n + k", where ?'a = 8] by (auto simp: suite_rounds_def unat_of_nat)

text \<open>The suites of a family at a pointer, as they are read from a length that covers them.\<close>

lemma suite_loop_codes:
  assumes "mem_has m pie (suites_bytes f (map code xs))" "4 * length xs + k \<le> 255"
    and "\<And>p x. mem32 m p = suite_sel f (code x) \<Longrightarrow> parse p = bit_of x"
  shows "suite_loop parse 0 (of_nat (length xs)) (4 * of_nat (length xs) + of_nat k) pie r =
    (of_nat k, pie + 4 * of_nat (length xs), fold (\<lambda>x r. r OR bit_of x) xs r)"
  using suite_loop_result [of parse "of_nat (length xs)" "4 * of_nat (length xs) + of_nat k" pie r]
    suites_or_codes [OF assms(1,3)] by (simp add: suite_rounds_exact [OF assms(2)])

lemma ie_len_bound: "2 < n \<Longrightarrow> n \<le> 255 \<Longrightarrow> (2 :: u8) < of_nat n" "4 \<le> n \<Longrightarrow> n \<le> 255 \<Longrightarrow> (4 :: u8) \<le> of_nat n"
  by (simp_all add: word_less_nat_alt word_le_nat_alt unat_of_nat)

lemma length_security_bytes [simp]:
  "length (security_bytes f g cs as t) = length g + 2 + 4 * length cs + 2 + 4 * length as + length t"
  by (simp add: security_bytes_def)

lemma parse_if:
  "(if family_id f = IEEE80211_ELEMID_RSN then rsn_cipher_parse m else wpa_cipher_parse m) = cipher_parse f m"
  "(if family_id f = IEEE80211_ELEMID_RSN then rsn_auth_parse m else wpa_auth_parse m) = akm_parse f m"
  by (simp_all add: cipher_parse_def akm_parse_def)

lemma security_ie_parse_run:
  assumes "4 \<le> ie_len" "ie_len - 4 = w" "2 < w" "w - 2 = w'"
    and "suite_loop (cipher_parse f m) 0 (mem16 m (pie + 4)) w' (pie + 6) 0 = (v, p, c)"
    and "2 < v" "v - 2 = v'" "suite_loop (akm_parse f m) 0 (mem16 m p) v' (p + 2) 0 = (z, q, a)"
  shows "security_ie_parse m pie ie_len (0, 0) (family_id f) = (c, a)"
proof -
  have pp: "pie + 4 + 2 = pie + 6" by simp
  show ?thesis
    unfolding security_ie_parse_def parse_if Let_def prod.case
      if_P [OF assms(1)] assms(2) if_P [OF assms(3)] assms(4) pp assms(5) if_P [OF assms(6)] assms(7,8) by (rule refl)
qed

lemma security_ie_parse_bytes:
  assumes "mem_has m pie (security_bytes f g cs as t)" "length g = 4" "as \<noteq> []"
    and "length (security_bytes f g cs as t) \<le> 255"
  shows "security_ie_parse m pie (of_nat (length (security_bytes f g cs as t))) (0, 0) (family_id f) =
    (fold (\<lambda>c r. r OR cipher_bit c) cs 0, fold (\<lambda>a r. r OR akm_bit f a) as 0)"
proof -
  define n where "n = length cs"
  define k where "k = length as"
  define p where "p = pie + 6 + 4 * of_nat n"
  have k0: "0 < k" and le: "4 + 2 + 4 * n + 2 + 4 * k + length t \<le> 255" using assms(2-4) by (simp_all add: n_def k_def)
  have at: "mem16 m (pie + 4) = of_nat n" "mem_has m (pie + 6) (suites_bytes f (map cipher_code cs))"
    "mem16 m p = of_nat k" "mem_has m (p + 2) (suites_bytes f (map akm_code as))"
    using assms(1,2) by (simp_all add: security_bytes_def mem_has_le16 n_def k_def p_def add_ac)
  have cs: "suite_loop (cipher_parse f m) 0 (of_nat n) (4 * of_nat n + of_nat (2 + 4 * k + length t)) (pie + 6) 0
      = (of_nat (2 + 4 * k + length t), p, fold (\<lambda>c r. r OR cipher_bit c) cs 0)"
    using suite_loop_codes [OF at(2), of "2 + 4 * k + length t" "cipher_parse f m" cipher_bit 0] le
    by (simp add: cipher_parse_sel p_def n_def)
  have as: "suite_loop (akm_parse f m) 0 (of_nat k) (4 * of_nat k + of_nat (length t)) (p + 2) 0
      = (of_nat (length t), p + 2 + 4 * of_nat k, fold (\<lambda>a r. r OR akm_bit f a) as 0)"
    using suite_loop_codes [OF at(4), of "length t" "akm_parse f m" "akm_bit f" 0] le
    by (simp add: akm_parse_sel k_def)
  let ?w = "2 + 4 * n + (2 + 4 * k + length t)"
  have L: "length (security_bytes f g cs as t) = 4 + ?w" using assms(2) by (simp add: n_def k_def)
  show ?thesis unfolding L
    by (rule security_ie_parse_run [where w = "of_nat ?w" and v = "of_nat (2 + 4 * k + length t)", OF _ _ _ _ cs [folded at(1)]])
       (use le k0 as at(3) ie_len_bound(1) [of ?w] ie_len_bound(2) [of "4 + ?w"] ie_len_bound(1) [of "2 + 4 * k + length t"] in simp_all)
qed

section \<open>The walk through the elements\<close>

lemma ucast_length:
  "n \<le> 255 \<Longrightarrow> (ucast (of_nat n :: u8) :: 'a::len word) = of_nat n"
  "n \<le> 255 \<Longrightarrow> (ucast (of_nat n :: u16) :: u8) = of_nat n"
  by (simp_all only: unsigned_of_nat) (simp_all add: take_bit_eq_mod)

lemma parse_element_bytes:
  assumes "mem_has m pie (elem_bytes e)" "elem_wf e"
  shows "parse_element m pie y = apply_elem e y"
proof (cases e)
  case (SSID bs)
  then have "mem_bytes m (pie + 2) (length bs) = bs" "m pie = 0" "m (pie + 1) = of_nat (length bs)" "length bs \<le> 32"
    using assms by (simp_all add: elem_bytes_def mem_has_def [symmetric] add.assoc)
  then show ?thesis using SSID by (simp add: parse_element_def Let_def unat_of_nat word_le_nat_alt)
next
  case (Security f g cs as t)
  let ?b = "security_bytes f g cs as t"
  have le: "length (elem_body e) \<le> 255" and g: "length g = 4" "as \<noteq> []" using assms(2) Security by auto
  have len: "m (pie + 1) = of_nat (length (elem_body e))" and ty: "m pie = family_id f"
    and body: "mem_has m (pie + 2) (elem_body e)"
    using assms(1) Security by (simp_all add: elem_bytes_def add.assoc)
  show ?thesis
  proof (cases f)
    case RSN
    have at: "mem16 m (pie + 2) = 1" "mem_has m (pie + 4) ?b" using body Security RSN by (simp_all add: mem_has_le16 add.assoc)
    have L: "length (elem_body e) = 2 + length ?b" using Security RSN by simp
    then have "(ucast (m (pie + 1)) :: u16) - 2 = of_nat (length ?b)"
      unfolding len using le by (simp only: ucast_length) simp
    then have cut: "(ucast ((ucast (m (pie + 1)) :: u16) - 2) :: u8) = of_nat (length ?b)"
      using L le by (simp only: ucast_length)
    then show ?thesis
      using security_ie_parse_bytes [OF at(2) g] L le ty at(1) cut Security RSN
      by (simp add: parse_element_def Let_def add.assoc del: length_security_bytes)
  next
    case WPA
    have at: "mem32 m (pie + 2) = WPA_SEL 1" "mem16 m (pie + 6) = 1" "mem_has m (pie + 8) ?b"
      using body Security WPA by (simp_all add: mem_has_le16 mem_has_le32 add.assoc)
    have L: "length (elem_body e) = 6 + length ?b" using Security WPA by simp
    then have "(ucast (m (pie + 1)) :: u16) - 4 - 2 = of_nat (length ?b)"
      unfolding len using le by (simp only: ucast_length) simp
    then have cut: "(ucast ((ucast (m (pie + 1)) :: u16) - 4 - 2) :: u8) = of_nat (length ?b)"
      using L le by (simp only: ucast_length)
    have "unat (m (pie + 1)) = length (elem_body e)" unfolding len using le by (simp only: unat_of_nat) simp
    then have "(6 :: u8) < m (pie + 1)" using L by (simp add: word_less_nat_alt)
    then show ?thesis
      using security_ie_parse_bytes [OF at(3) g] L le ty at(1,2) cut Security WPA
      by (simp add: parse_element_def Let_def add.assoc del: length_security_bytes)
  qed
next
  case (Other i bs)
  then show ?thesis using assms by (simp add: elem_bytes_def parse_element_def)
qed

lemma elem_wf_length: "elem_wf e \<Longrightarrow> length (elem_body e) \<le> 255"
  by (cases e) auto

lemma element_loop_bytes:
  assumes "mem_has m pie (concat (map elem_bytes es))" "\<forall>e \<in> set es. elem_wf e"
    and "unat pie + length (concat (map elem_bytes es)) < 2 ^ 32"
  shows "element_loop m pie (pie + of_nat (length (concat (map elem_bytes es)))) y = Some (fold apply_elem es y)"
  using assms
proof (induction es arbitrary: pie y)
  case Nil
  then show ?case by (simp add: element_loop.simps [of m pie])
next
  case (Cons e es)
  let ?n = "length (elem_bytes e)" and ?rest = "length (concat (map elem_bytes es))"
  have n: "?n = length (elem_body e) + 2" by (simp add: elem_bytes_def)
  have here: "mem_has m pie (elem_bytes e)" and tail: "mem_has m (pie + of_nat ?n) (concat (map elem_bytes es))"
    using Cons.prems(1) by simp_all
  have wrap: "unat pie + (?n + ?rest) < 2 ^ 32" using Cons.prems(3) by simp
  then have "unat (pie + of_nat (?n + ?rest)) = unat pie + (?n + ?rest)" by (rule unat_offset)
  then have lt: "pie < pie + of_nat (?n + ?rest)" using n by (simp add: word_less_nat_alt)
  have "m (pie + 1) = of_nat (length (elem_body e))" using here by (simp add: elem_bytes_def)
  then have step: "ucast (m (pie + 1)) + 2 = (of_nat ?n :: ptr)"
    using elem_wf_length [of e] Cons.prems(2) by (simp add: n ucast_length)
  have "unat (pie + of_nat ?n) = unat pie + ?n" using wrap by (intro unat_offset) linarith
  then have "element_loop m (pie + of_nat ?n) (pie + of_nat ?n + of_nat ?rest) (apply_elem e y)
      = Some (fold apply_elem es (apply_elem e y))"
    using Cons.IH [OF tail] Cons.prems(2) wrap by simp
  moreover have "parse_element m pie y = apply_elem e y" using parse_element_bytes [OF here] Cons.prems(2) by simp
  ultimately show ?case
    using lt by (simp add: element_loop.simps [of m pie] step add.assoc)
qed

text \<open>The loop ends on any bytes, as long as the frame is not at the very end of the address space.\<close>

lemma element_loop_returns:
  assumes "unat pieEnd + 256 < 2 ^ 32"
  shows "\<exists>y'. element_loop m pie pieEnd y = Some y'"
proof (induction "unat pieEnd - unat pie" arbitrary: pie y rule: less_induct)
  case less
  show ?case
  proof (cases "pie < pieEnd")
    case True
    let ?step = "ucast (m (pie + 1)) + 2 :: ptr"
    have "unat (m (pie + 1)) \<le> 255" using unsigned_less [of "m (pie + 1)", where ?'a = nat] by simp
    then have s: "unat ?step = unat (m (pie + 1)) + 2" by (subst unat_add_no_wrap) (simp_all add: unsigned_ucast_eq take_bit_eq_mod)
    then have "unat (pie + ?step) = unat pie + unat ?step"
      using True assms \<open>unat (m (pie + 1)) \<le> 255\<close> by (intro unat_add_no_wrap) (simp add: word_less_nat_alt)
    then have "unat pieEnd - unat (pie + ?step) < unat pieEnd - unat pie" using True s by (simp add: word_less_nat_alt)
    from less [OF this] show ?thesis using True by (simp add: element_loop.simps [of m pie])
  qed (simp add: element_loop.simps [of m pie])
qed

section \<open>Properties\<close>

text \<open>The summary of the fixed part of a frame.\<close>

definition frame_summary :: "memory \<Rightarrow> ptr \<Rightarrow> A_SCAN_SUMMARY" where
  "frame_summary m bih = scan_summary_zero\<lparr>ss_channel := ucast (Util_Freq2ieee (mem16 m bih)), ss_rssi := m (bih + 3),
     ss_bssid := mem_bytes m (bih + 6) 6, ss_caps := mem16 m (bih + 26), ss_beacon_period := mem16 m (bih + 24)\<rparr>"

lemma Api_ParseInfoElem_walk:
  assumes "\<not> len < 28"
  shows "Api_ParseInfoElem m bih len =
    map_option (Pair A_OK) (element_loop m (bih + 28) (bih + len) (frame_summary m bih))"
proof -
  have "bih + 16 + 12 + (len - 16 - 12) = bih + len" "bih + 16 + 12 = bih + 28" "bih + 16 + 10 = bih + 26"
    "bih + 16 + 8 = bih + 24" "(16 :: u32) + 12 = 28" "Option.bind x (\<lambda>y. Some (A_OK, y)) = map_option (Pair A_OK) x"
    for x :: "A_SCAN_SUMMARY option"
    by (simp_all add: map_option_case split: option.split)
  then show ?thesis
    unfolding Api_ParseInfoElem_def frame_summary_def Let_def using assms by (simp only: if_False)
qed

text \<open>C11. A well-formed beacon is read back. If the elements \<open>es\<close> - SSIDs, RSN and WPA elements with known
  suites and any other elements - are encoded behind the 28 bytes of the event header and the fixed fields, the
  parser succeeds and its summary says what the elements say: the last SSID, and for RSN and WPA each the
  ciphers and key management suites of the last element as a bit set.\<close>

theorem beacon_roundtrip:
  assumes "mem_has m (bih + 28) (concat (map elem_bytes es))" and "\<forall>e \<in> set es. elem_wf e"
    and fits: "unat bih + 28 + length (concat (map elem_bytes es)) < 2 ^ 32"
  shows "Api_ParseInfoElem m bih (of_nat (28 + length (concat (map elem_bytes es)))) =
    Some (A_OK, fold apply_elem es (frame_summary m bih))"
proof -
  let ?n = "length (concat (map elem_bytes es))"
  have at: "unat (bih + 28) = unat bih + 28" using fits unat_offset [of bih 28] by simp
  have "unat (of_nat (28 + ?n) :: u32) = 28 + ?n" using fits by (subst unat_of_nat) simp
  then have long: "\<not> (of_nat (28 + ?n) :: u32) < 28" by (simp add: word_less_nat_alt)
  have "bih + of_nat (28 + ?n) = bih + 28 + of_nat ?n" by simp
  moreover have "unat (bih + 28) + ?n < 2 ^ 32" using fits at by linarith
  ultimately show ?thesis
    unfolding Api_ParseInfoElem_walk [OF long]
    using element_loop_bytes [OF assms(1,2), of "frame_summary m bih"] by (simp only: option.map)
qed

text \<open>C33. The parser ends. Whatever the bytes of a frame are, the walk through its elements ends, because every
  element moves it by at least two bytes - unless the frame lies at the very end of the address space,
  where the pointer could wrap around. Only a frame shorter than its fixed part is an error.\<close>

theorem beacon_parse_returns:
  assumes "unat bih + unat len + 256 < 2 ^ 32"
  shows "\<exists>y. Api_ParseInfoElem m bih len = Some (if len < 28 then A_ERROR else A_OK, y)"
proof (cases "len < 28")
  case False
  have "unat (bih + len) = unat bih + unat len" using assms by (intro unat_add_no_wrap) simp
  then show ?thesis
    using element_loop_returns [of "bih + len" m "bih + 28" "frame_summary m bih"] assms False
    by (auto simp: Api_ParseInfoElem_walk)
qed (simp add: Api_ParseInfoElem_def Let_def)

text \<open>The loop over a list of suites is confined to its element if its result depends on no byte behind the \<open>ie_len\<close> bytes
  that are left of the element.\<close>

definition suites_confined :: "(memory \<Rightarrow> ptr \<Rightarrow> u8) \<Rightarrow> u16 \<Rightarrow> u8 \<Rightarrow> ptr \<Rightarrow> bool" where
  "suites_confined parse cnt ie_len pie \<longleftrightarrow> (\<forall>m m' r. mem_bytes m pie (unat ie_len) = mem_bytes m' pie (unat ie_len) \<longrightarrow>
     suite_loop (parse m) 0 cnt ie_len pie r = suite_loop (parse m') 0 cnt ie_len pie r)"

lemma suites_or_cong: "(\<And>j. j < k \<Longrightarrow> f (pie + 4 * of_nat j) = g (pie + 4 * of_nat j)) \<Longrightarrow> suites_or f pie k r = suites_or g pie k r"
  by (induction k) auto

lemma cipher_parse_cong: "mem32 m p = mem32 m' p' \<Longrightarrow> cipher_parse f m p = cipher_parse f m' p'"
  by (cases f) (simp_all add: cipher_parse_def rsn_cipher_parse_def wpa_cipher_parse_def)

lemma akm_parse_cong: "mem32 m p = mem32 m' p' \<Longrightarrow> akm_parse f m p = akm_parse f m' p'"
  by (cases f) (simp_all add: akm_parse_def rsn_auth_parse_def wpa_auth_parse_def)

text \<open>Suites inside the element are read from it.\<close>

lemma same_byte: "mem_bytes m a n = mem_bytes m' a n \<Longrightarrow> i < n \<Longrightarrow> m (a + of_nat i) = m' (a + of_nat i)"
  by (metis nth_mem_bytes)

lemma mem32_same:
  assumes "\<And>i. i < 4 \<Longrightarrow> m (a + of_nat i) = m' (a + of_nat i)"
  shows "mem32 m a = mem32 m' a"
  using assms [of 0] assms [of 1] assms [of 2] assms [of 3] by (simp add: mem32_def)

lemma mem32_inside:
  assumes "mem_bytes m pie n = mem_bytes m' pie n" "4 * j + 4 \<le> n"
  shows "mem32 m (pie + 4 * of_nat j) = mem32 m' (pie + 4 * of_nat j)"
proof (rule mem32_same)
  fix i :: nat assume "i < 4"
  then show "m (pie + 4 * of_nat j + of_nat i) = m' (pie + 4 * of_nat j + of_nat i)"
    using same_byte [OF assms(1), of "4 * j + i"] assms(2) by (simp add: add.assoc)
qed

lemma rounds_inside:
  "4 dvd unat ie_len \<or> 4 * unat cnt \<le> unat ie_len \<Longrightarrow> j < suite_rounds cnt ie_len \<Longrightarrow> 4 * j + 4 \<le> unat ie_len"
  by (auto simp: suite_rounds_def split: if_splits)

lemma confined_if:
  assumes "4 dvd unat ie_len \<or> 4 * unat cnt \<le> unat ie_len"
    and "\<And>m m' p. mem32 m p = mem32 m' p \<Longrightarrow> parse m p = parse m' p"
  shows "suites_confined parse cnt ie_len pie"
  unfolding suites_confined_def suite_loop_result prod.inject
proof (intro allI impI conjI refl)
  fix m m' :: memory and r :: u8
  assume same: "mem_bytes m pie (unat ie_len) = mem_bytes m' pie (unat ie_len)"
  show "suites_or (parse m) pie (suite_rounds cnt ie_len) r = suites_or (parse m') pie (suite_rounds cnt ie_len) r"
    by (rule suites_or_cong, rule assms(2), rule mem32_inside [OF same rounds_inside [OF assms(1)]])
qed

text \<open>Otherwise the last suite's type is behind the element: two frames that differ there only, in the type of that
  suite, are told apart.\<close>

lemma suites_or_const: "(\<And>j. j < k \<Longrightarrow> f (pie + 4 * of_nat j) = z) \<Longrightarrow> suites_or f pie k 0 = (if k = 0 then 0 else z)"
  by (induction k) auto

lemma before_offset:
  assumes "0 < d" "d \<le> i" "i < 2 ^ 32"
  shows "unat (pie + of_nat (i - d) - (pie + of_nat i) :: ptr) = 2 ^ 32 - d"
proof -
  have "of_nat i = (of_nat (i - d) + of_nat d :: ptr)" using assms(2) by (simp flip: of_nat_add)
  moreover have "of_nat (2 ^ 32 - d) + of_nat d = (0 :: ptr)" using assms by (subst of_nat_add [symmetric]) simp
  then have "(of_nat (2 ^ 32 - d) :: ptr) = - of_nat d" by (simp only: eq_neg_iff_add_eq_0)
  ultimately have "pie + of_nat (i - d) - (pie + of_nat i) = (of_nat (2 ^ 32 - d) :: ptr)" by simp
  moreover have "unat (of_nat (2 ^ 32 - d) :: ptr) = 2 ^ 32 - d" by (subst unat_of_nat) (use assms in simp)
  ultimately show ?thesis by (simp only:)
qed

definition last_suite :: "ptr \<Rightarrow> nat \<Rightarrow> u32 \<Rightarrow> memory" where
  "last_suite pie n w = mem_put (\<lambda>_. 0) (pie + 4 * of_nat n) (le32_bytes_of w)"

lemma last_suite_mem32:
  assumes "n < 2 ^ 16"
  shows "mem32 (last_suite pie n w) (pie + 4 * of_nat n) = w" "j < n \<Longrightarrow> mem32 (last_suite pie n w) (pie + 4 * of_nat j) = 0"
proof -
  show "mem32 (last_suite pie n w) (pie + 4 * of_nat n) = w"
    using mem_bytes_mem_put [of "le32_bytes_of w" "\<lambda>_. 0" "pie + 4 * of_nat n"] by (intro mem_has_le32) (simp add: mem_has_def last_suite_def)
  assume j: "j < n"
  have "last_suite pie n w (pie + 4 * of_nat j + of_nat i) = 0" if "i < 4" for i
  proof -
    have e: "pie + 4 * of_nat j + of_nat i = pie + of_nat (4 * n - (4 * n - 4 * j - i))" using j that by (simp add: add.assoc)
    have "unat (pie + 4 * of_nat j + of_nat i - (pie + of_nat (4 * n))) = 2 ^ 32 - (4 * n - 4 * j - i)"
      unfolding e by (rule before_offset) (use j that assms in auto)
    then show ?thesis unfolding last_suite_def by (subst mem_put_outside) (use assms j that in auto)
  qed
  then show "mem32 (last_suite pie n w) (pie + 4 * of_nat j) = 0" using mem32_same [of "last_suite pie n w" _ "\<lambda>_. 0"] by (simp add: mem32_def le32_def)
qed

lemma last_suite_agree:
  assumes "k \<le> 4 * n + 3" "n < 2 ^ 16" and w: "\<And>i. i < 3 \<Longrightarrow> le32_bytes_of w ! i = le32_bytes_of w' ! i"
  shows "mem_bytes (last_suite pie n w) pie k = mem_bytes (last_suite pie n w') pie k"
proof (rule nth_equalityI)
  fix i assume "i < length (mem_bytes (last_suite pie n w) pie k)"
  then have i: "i < k" by simp
  have "last_suite pie n w (pie + of_nat i) = last_suite pie n w' (pie + of_nat i)"
  proof (cases "i < 4 * n")
    case True
    then have e: "pie + of_nat i = pie + of_nat (4 * n - (4 * n - i))" by simp
    have "unat (pie + of_nat i - (pie + of_nat (4 * n))) = 2 ^ 32 - (4 * n - i)"
      unfolding e by (rule before_offset) (use True assms(2) in auto)
    then show ?thesis unfolding last_suite_def using True assms(2) by (simp add: mem_put_outside)
  next
    case False
    then have "of_nat i = (of_nat (4 * n) + of_nat (i - 4 * n) :: u32)" by (simp flip: of_nat_add)
    then have "pie + of_nat i - (pie + 4 * of_nat n) = of_nat (i - 4 * n)" by simp
    moreover have "unat (of_nat (i - 4 * n) :: u32) = i - 4 * n" "i - 4 * n < 3" using assms(1,2) i by (simp_all add: unat_of_nat)
    ultimately show ?thesis unfolding last_suite_def using w by (simp add: mem_put_apply)
  qed
  then show "mem_bytes (last_suite pie n w) pie k ! i = mem_bytes (last_suite pie n w') pie k ! i" using i by simp
qed simp

text \<open>The two suites an attacker may exchange.\<close>

lemma unconfined:
  fixes g :: "u32 \<Rightarrow> u8"
  assumes out: "\<not> 4 dvd unat ie_len" "unat ie_len < 4 * unat cnt"
    and parse: "\<And>m p. parse m p = g (mem32 m p)"
    and w: "\<And>i. i < 3 \<Longrightarrow> le32_bytes_of w ! i = le32_bytes_of w' ! i"
    and tell: "\<And>z. z \<in> {0, g 0} \<Longrightarrow> z OR g w \<noteq> z OR g w'"
  shows "\<not> suites_confined parse cnt ie_len pie"
proof -
  define n where "n = unat cnt - 1"
  have cnt: "unat cnt = Suc n" using out(2) by (simp add: n_def)
  have n: "n < 2 ^ 16" using unsigned_less [of cnt, where ?'a = nat] by (simp add: n_def)
  have rounds: "suite_rounds cnt ie_len = Suc n" using out(1) by (simp add: suite_rounds_def cnt)
  let ?z = "if n = 0 then 0 else g 0"
  have first: "suites_or (parse (last_suite pie n v)) pie n 0 = ?z" for v
    by (rule suites_or_const) (simp add: parse last_suite_mem32(2) [OF n])
  have all: "suites_or (parse (last_suite pie n v)) pie (Suc n) 0 = ?z OR g v" for v
    using first [of v] by (simp add: parse last_suite_mem32(1) [OF n])
  have "mem_bytes (last_suite pie n w) pie (unat ie_len) = mem_bytes (last_suite pie n w') pie (unat ie_len)"
    by (rule last_suite_agree [OF _ n w]) (use out(2) cnt in auto)
  moreover have "suite_loop (parse (last_suite pie n w)) 0 cnt ie_len pie 0 \<noteq> suite_loop (parse (last_suite pie n w')) 0 cnt ie_len pie 0"
    unfolding suite_loop_result rounds prod.inject all using tell [of ?z] by auto
  ultimately show ?thesis unfolding suites_confined_def by blast
qed

text \<open>What the parsers make of a word.\<close>

definition cipher_value :: "family \<Rightarrow> u32 \<Rightarrow> u8" where
  "cipher_value f w = cipher_parse f (last_suite 0 0 w) 0"

definition akm_value :: "family \<Rightarrow> u32 \<Rightarrow> u8" where
  "akm_value f w = akm_parse f (last_suite 0 0 w) 0"

lemma last_suite_word [simp]: "mem32 (last_suite 0 0 w) 0 = w"
  using last_suite_mem32(1) [of 0 0 w] by simp

lemma cipher_parse_value: "cipher_parse f m p = cipher_value f (mem32 m p)"
  unfolding cipher_value_def by (rule cipher_parse_cong) simp

lemma akm_parse_value: "akm_parse f m p = akm_value f (mem32 m p)"
  unfolding akm_value_def by (rule akm_parse_cong) simp

lemma suite_values:
  "cipher_value f (suite_sel f 0) = 1" "cipher_value f (suite_sel f 4) = 8" "cipher_value f 0 \<in> {0, 1}"
  "akm_value f (suite_sel f 0) = 1" "akm_value f (suite_sel f 2) \<in> {8, 16}" "akm_value f 0 = 0"
proof -
  show "cipher_value f (suite_sel f 0) = 1" "cipher_value f (suite_sel f 4) = 8"
    using cipher_parse_sel [of "last_suite 0 0 (suite_sel f 0)" 0 f Cipher_None] cipher_parse_sel [of "last_suite 0 0 (suite_sel f 4)" 0 f Cipher_CCMP]
    by (simp_all add: cipher_value_def)
  show "akm_value f (suite_sel f 0) = 1"
    using akm_parse_sel [of "last_suite 0 0 (suite_sel f 0)" 0 f Auth_None] by (simp add: akm_value_def)
  show "akm_value f (suite_sel f 2) \<in> {8, 16}"
    using akm_parse_sel [of "last_suite 0 0 (suite_sel f 2)" 0 f Auth_PSK] by (cases f) (simp_all add: akm_value_def)
  show "cipher_value f 0 \<in> {0, 1}"
    by (cases f) (simp_all add: cipher_value_def cipher_parse_def rsn_cipher_parse_def wpa_cipher_parse_def sel_defs)
  show "akm_value f 0 = 0"
    by (cases f) (simp_all add: akm_value_def akm_parse_def rsn_auth_parse_def wpa_auth_parse_def sel_defs)
qed

lemma suite_sel_bytes:
  assumes "i < 3"
  shows "le32_bytes_of (suite_sel f 0) ! i = le32_bytes_of (suite_sel f 4) ! i" "le32_bytes_of (suite_sel f 0) ! i = le32_bytes_of (suite_sel f 2) ! i"
proof -
  from assms have "i \<in> {0, 1, 2}" by auto
  then show "le32_bytes_of (suite_sel f 0) ! i = le32_bytes_of (suite_sel f 4) ! i"
    "le32_bytes_of (suite_sel f 0) ! i = le32_bytes_of (suite_sel f 2) ! i"
    by (cases f; auto simp: le32_bytes_of_def byte_of_def sel_defs)+
qed

text \<open>C37. When a list of suites is read inside its element. What the parser takes from a list of cipher or
  key-management suites depends on nothing behind the element, whatever the frame holds there, exactly if what is left of the
  element is a multiple of four bytes long or the count in the frame is not larger than what is left. In the other
  cases the 8-bit length wraps around without becoming zero, and what follows the element decides the result.\<close>

theorem suites_stay_inside:
  assumes "parse \<in> {cipher_parse f, akm_parse f}"
  shows "suites_confined parse cnt ie_len pie \<longleftrightarrow> 4 dvd unat ie_len \<or> 4 * unat cnt \<le> unat ie_len"
proof (cases "4 dvd unat ie_len \<or> 4 * unat cnt \<le> unat ie_len")
  case True
  then show ?thesis using assms confined_if [OF True] cipher_parse_cong akm_parse_cong by blast
next
  case False
  then have out: "\<not> 4 dvd unat ie_len" "unat ie_len < 4 * unat cnt" by simp_all
  from assms have "\<not> suites_confined parse cnt ie_len pie"
  proof (elim insertE emptyE)
    assume "parse = cipher_parse f"
    then show ?thesis
      using unconfined [OF out, of "cipher_parse f" "cipher_value f" "suite_sel f 0" "suite_sel f 4" pie] cipher_parse_value
        suite_sel_bytes(1) suite_values [of f] by fastforce
  next
    assume "parse = akm_parse f"
    then show ?thesis
      using unconfined [OF out, of "akm_parse f" "akm_value f" "suite_sel f 0" "suite_sel f 2" pie] akm_parse_value
        suite_sel_bytes(2) suite_values [of f] by fastforce
  qed
  then show ?thesis using False by simp
qed

section \<open>Example\<close>

definition demo_elems :: "info_elem list" where
  "demo_elems = [SSID [0x41, 0x42], Other 3 [11],
     Security RSN [0, 0x0f, 0xac, 4] [Cipher_CCMP, Cipher_TKIP] [Auth_PSK] [0, 0]]"

definition demo_beacon :: memory where
  "demo_beacon = mem_put (\<lambda>_. 0) 0x101c (concat (map elem_bytes demo_elems))"

lemma demo_elems_ok:
  "\<forall>e \<in> set demo_elems. elem_wf e" "length (concat (map elem_bytes demo_elems)) = 33"
  by (simp_all add: demo_elems_def elem_bytes_def)

theorem beacon_roundtrip_witness:
  "\<exists>y. Api_ParseInfoElem demo_beacon 0x1000 61 = Some (A_OK, y) \<and> ss_ssid_len y = 2 \<and> ss_rsn_cipher y = 12 \<and> ss_rsn_auth y = 16"
proof -
  have "mem_has demo_beacon (0x1000 + 28) (concat (map elem_bytes demo_elems))"
    unfolding mem_has_def demo_beacon_def using demo_elems_ok(2) mem_bytes_mem_put [of "concat (map elem_bytes demo_elems)"]
    by simp
  from beacon_roundtrip [OF this demo_elems_ok(1)] show ?thesis
    unfolding demo_elems_ok(2) by (simp add: demo_elems_def)
qed

theorem beacon_parse_returns_witness: "\<exists>y. Api_ParseInfoElem demo_beacon 0x1000 20 = Some (A_ERROR, y)"
  using beacon_parse_returns [of "0x1000" 20 demo_beacon] by simp

text \<open>With six bytes left of the element one suite is read inside it; two are not.\<close>

theorem suites_stay_inside_witness:
  "suites_confined (cipher_parse RSN) 1 6 0x1000 \<and> \<not> suites_confined (cipher_parse RSN) 2 6 0x1000"
  by (simp add: suites_stay_inside [of "cipher_parse RSN" RSN])

end
