(* ===== verification/Scan_Table.thy ===== *)
theory Scan_Table
  imports Beacon_Parse
begin

text \<open>
  The scan results, \<^verbatim>\<open>custom_src/api_interface/cust_api_wmi_rx.c\<close>: every BSS-info event is entered in the
  table behind \<open>pScanOut\<close> - in the entry of its BSSID, in a free entry, or in place of the weakest
  network. Normal and extended scans use entry types of their own (\<open>ENET_SCAN_INFO\<close> of the network
  stack, \<open>ATH_SCAN_EXT\<close>) with the same fields, one record here; the buffer is the list of its
  entries, \<open>scanOutCount\<close> of them in use. The index of the weakest entry is uninitialised until a
  weaker one is found: \<open>None\<close>.
\<close>

datatype bss_type = ENET_MEDIACTL_MODE_INFRA | ENET_MEDIACTL_MODE_ADHOC

record scan_entry =
  se_channel :: u8
  se_ssid_len :: u8
  se_rssi :: u8
  se_security_enabled :: u8
  se_beacon_period :: u16
  se_preamble :: u8
  se_bss_type :: bss_type
  se_bssid :: "u8 list"
  se_ssid :: "u8 list"
  se_rsn_cipher :: u8
  se_rsn_auth :: u8
  se_wpa_cipher :: u8
  se_wpa_auth :: u8

record scan_out =
  extended_scan :: bool
  pScanOut :: "scan_entry list"
  scanOutSize :: u16
  scanOutCount :: u16

definition scan_entry_zero :: scan_entry where
  "scan_entry_zero = \<lparr>se_channel = 0, se_ssid_len = 0, se_rssi = 0, se_security_enabled = 0, se_beacon_period = 0,
     se_preamble = 0, se_bss_type = ENET_MEDIACTL_MODE_INFRA, se_bssid = replicate 6 0, se_ssid = replicate 32 0,
     se_rsn_cipher = 0, se_rsn_auth = 0, se_wpa_cipher = 0, se_wpa_auth = 0\<rparr>"

section \<open>An entry\<close>

definition ath_ciphers :: "u8 \<Rightarrow> u8" where
  "ath_ciphers c = (if c AND TKIP_CRYPT \<noteq> 0 then 4 else 0) OR (if c AND AES_CRYPT \<noteq> 0 then 8 else 0)
     OR (if c AND WEP_CRYPT \<noteq> 0 then 2 else 0)"

definition ath_auths :: "u8 \<Rightarrow> u8 \<Rightarrow> u8 \<Rightarrow> u8" where
  "ath_auths enterprise psk a = (if a AND enterprise \<noteq> 0 then 2 else 0) OR (if a AND psk \<noteq> 0 then 1 else 0)"

text \<open>The assignments both \<open>fill\<close> functions make; the security fields are only ever or-ed to.\<close>

definition fill_entry :: "A_SCAN_SUMMARY \<Rightarrow> scan_entry \<Rightarrow> scan_entry" where
  "fill_entry y e = e\<lparr>
     se_channel := ss_channel y,
     se_rssi := ss_rssi y,
     se_bssid := ss_bssid y,
     se_ssid_len := ss_ssid_len y,
     se_ssid := (let n = unat (ss_ssid_len y) in take n (ss_ssid y) @ drop n (se_ssid e)),
     se_security_enabled := (if ss_caps y AND 0x10 \<noteq> 0 then 1 else 0),
     se_preamble := (if ss_caps y AND 0x20 \<noteq> 0 then 1 else 0),
     se_bss_type :=
       (if ss_caps y AND (1 OR 2) = 1 then ENET_MEDIACTL_MODE_INFRA else ENET_MEDIACTL_MODE_ADHOC),
     se_beacon_period := ss_beacon_period y,
     se_rsn_cipher := se_rsn_cipher e OR ath_ciphers (ss_rsn_cipher y),
     se_wpa_cipher := se_wpa_cipher e OR ath_ciphers (ss_wpa_cipher y),
     se_rsn_auth := se_rsn_auth e OR ath_auths WPA2_AUTH WPA2_PSK_AUTH (ss_rsn_auth y),
     se_wpa_auth := se_wpa_auth e OR ath_auths WPA_AUTH WPA_PSK_AUTH (ss_wpa_auth y)\<rparr>"

definition fill_scan_info :: "memory \<Rightarrow> ptr \<Rightarrow> u32 \<Rightarrow> scan_entry \<Rightarrow> scan_entry option" where
  "fill_scan_info m bih len e = do {
     (st, y) \<leftarrow> Api_ParseInfoElem m bih len;
     Some (if st = A_OK then fill_entry y e else e)}"

definition fill_ext_scan_info :: "memory \<Rightarrow> ptr \<Rightarrow> u32 \<Rightarrow> scan_entry \<Rightarrow> scan_entry option" where
  "fill_ext_scan_info m bih len e = do {
     (st, y) \<leftarrow> Api_ParseInfoElem m bih len;
     Some (if st = A_OK then fill_entry y scan_entry_zero else e)}"

section \<open>The table\<close>

text \<open>The search loop: the 8-bit counter, the weakest signal so far and its index.\<close>

partial_function (option) scan_search ::
    "scan_entry list \<Rightarrow> u8 list \<Rightarrow> u16 \<Rightarrow> u8 \<Rightarrow> u8 \<Rightarrow> u8 option \<Rightarrow> (u8 \<times> u8 \<times> u8 option) option" where
  "scan_search es bssid scanCount i worst_snr worst_snr_idx =
     (if ucast i < scanCount then
        if \<not> unat i < length es then None
        else if bssid = se_bssid (es ! unat i) then Some (i, worst_snr, worst_snr_idx)
        else
          let (worst_snr, worst_snr_idx) =
                (if worst_snr > se_rssi (es ! unat i) then (se_rssi (es ! unat i), Some i)
                 else (worst_snr, worst_snr_idx))
          in scan_search es bssid scanCount (i + 1) worst_snr worst_snr_idx
      else Some (i, worst_snr, worst_snr_idx))"

text \<open>Filling entry \<open>k\<close> of the buffer.\<close>

definition fill_at :: "memory \<Rightarrow> ptr \<Rightarrow> u32 \<Rightarrow> nat \<Rightarrow> scan_out \<Rightarrow> scan_out option" where
  "fill_at m bih len k t =
     (if \<not> k < length (pScanOut t) then None
      else do {
        e \<leftarrow> (if extended_scan t then fill_ext_scan_info m bih len (pScanOut t ! k)
              else fill_scan_info m bih len (pScanOut t ! k));
        Some (t\<lparr>pScanOut := (pScanOut t)[k := e]\<rparr>)})"

definition Custom_Api_BssInfoEvent :: "memory \<Rightarrow> ptr \<Rightarrow> u32 \<Rightarrow> scan_out \<Rightarrow> scan_out option" where
  "Custom_Api_BssInfoEvent m datap len t = (
     let scanCount = scanOutCount t; snr = m (datap + 3) in do {
       (i, worst_snr, worst_snr_idx) \<leftarrow> scan_search (pScanOut t) (mem_bytes m (datap + 6) 6) scanCount 0 0xff None;
       if ucast i < scanCount then fill_at m datap len (unat i) t
       else if scanOutSize t \<le> scanCount then
         if snr > worst_snr then do {k \<leftarrow> worst_snr_idx; fill_at m datap len (unat k) t}
         else Some t
       else do {
         t \<leftarrow> fill_at m datap len (unat scanCount) t;
         Some (t\<lparr>scanOutCount := scanCount + 1\<rparr>)}})"

section \<open>What the search finds\<close>

definition used :: "scan_out \<Rightarrow> scan_entry list" where
  "used t = take (unat (scanOutCount t)) (pScanOut t)"

text \<open>The type invariant: room for the entries in use, an 8-bit index for each, no BSSID twice.\<close>

definition scan_ok :: "scan_out \<Rightarrow> bool" where
  "scan_ok t \<longleftrightarrow> scanOutCount t \<le> scanOutSize t \<and> unat (scanOutSize t) \<le> length (pScanOut t)
     \<and> unat (scanOutSize t) \<le> 255 \<and> distinct (map se_bssid (used t))"

text \<open>The result of the search from \<open>i\<close> on: the BSSID's entry, or the weakest of the entries passed.\<close>

definition weakest :: "scan_entry list \<Rightarrow> u8 \<Rightarrow> u8 option \<Rightarrow> bool" where
  "weakest es w idx \<longleftrightarrow> (\<forall>e \<in> set es. w \<le> se_rssi e) \<and>
     (case idx of None \<Rightarrow> w = 0xff | Some k \<Rightarrow> unat k < length es \<and> se_rssi (es ! unat k) = w)"

lemma weakest_snoc:
  assumes "weakest (take n es) w idx" "n < length es" "n \<le> 255"
  shows "weakest (take (Suc n) es) (if w > se_rssi (es ! n) then se_rssi (es ! n) else w)
    (if w > se_rssi (es ! n) then Some (of_nat n) else idx)"
  using assms by (auto simp: weakest_def take_Suc_conv_app_nth nth_append unat_of_nat split: option.splits)

lemma count_less_index: "(ucast (i :: u8) :: u16) < n \<longleftrightarrow> unat i < unat n"
  using unsigned_less [of i, where ?'a = nat] by (simp add: word_less_nat_alt unsigned_ucast_eq take_bit_eq_mod)

lemma scan_search_result:
  assumes "unat n \<le> length es" "unat n \<le> 255" "unat i \<le> unat n"
    and "weakest (take (unat i) es) w idx" "b \<notin> se_bssid ` set (take (unat i) es)"
  shows "\<exists>j w' idx'. scan_search es b n i w idx = Some (j, w', idx') \<and>
    (if unat j < unat n then se_bssid (es ! unat j) = b
     else weakest (take (unat n) es) w' idx' \<and> b \<notin> se_bssid ` set (take (unat n) es))"
  using assms(3-)
proof (induction "unat n - unat i" arbitrary: i w idx)
  case 0
  then have "unat i = unat n" by simp
  with 0 show ?case by (subst scan_search.simps) (simp add: count_less_index)
next
  case (Suc k)
  then have lt: "unat i < unat n" "unat i < length es" using assms(1) by linarith+
  then have i: "unat (i + 1) = Suc (unat i)" using assms(2) by (subst unat_add_no_wrap) simp_all
  let ?r = "se_rssi (es ! unat i)"
  have w: "weakest (take (Suc (unat i)) es) (if w > ?r then ?r else w) (if w > ?r then Some i else idx)"
    using weakest_snoc [OF Suc.prems(2) lt(2)] lt(1) assms(2) by (simp only: of_nat_unat ucast_id)
  show ?case
  proof (cases "b = se_bssid (es ! unat i)")
    case True
    then show ?thesis using lt by (subst scan_search.simps) (simp add: count_less_index)
  next
    case False
    then have "b \<notin> se_bssid ` set (take (unat (i + 1)) es)"
      using Suc.prems(3) lt(2) by (simp add: i take_Suc_conv_app_nth)
    moreover have "scan_search es b n i w idx =
        scan_search es b n (i + 1) (if w > ?r then ?r else w) (if w > ?r then Some i else idx)"
      using lt False by (subst scan_search.simps) (simp add: count_less_index Let_def)
    ultimately show ?thesis
      using Suc.hyps(1) [of "i + 1"] Suc.hyps(2) w lt by (simp only: i) simp
  qed
qed

section \<open>What the parser says of a frame\<close>

lemma parse_element_fixed [simp]:
  "ss_bssid (parse_element m p y) = ss_bssid y" "ss_rssi (parse_element m p y) = ss_rssi y"
  by (simp_all add: parse_element_def Let_def split: prod.split)

lemma element_loop_fixed:
  assumes "element_loop m p q y = Some y'"
  shows "ss_bssid y' = ss_bssid y \<and> ss_rssi y' = ss_rssi y"
proof (rule element_loop.raw_induct [where P = "\<lambda>m p q y y'. ss_bssid y' = ss_bssid y \<and> ss_rssi y' = ss_rssi y", OF _ assms], goal_cases)
  case (1 loop m p q y y')
  show ?case using 1(2) 1(1) by (fastforce split: if_splits)
qed

lemma fill_at_result:
  assumes "\<not> len < 28" "unat bih + unat len + 256 < 2 ^ 32" "k < length (pScanOut t)"
  shows "\<exists>e. fill_at m bih len k t = Some (t\<lparr>pScanOut := (pScanOut t)[k := e]\<rparr>)
    \<and> se_bssid e = mem_bytes m (bih + 6) 6 \<and> se_rssi e = m (bih + 3)"
proof -
  have "unat (bih + len) = unat bih + unat len" using assms(2) by (intro unat_add_no_wrap) simp
  then obtain y where y: "element_loop m (bih + 28) (bih + len) (frame_summary m bih) = Some y"
    using element_loop_returns [of "bih + len" m "bih + 28" "frame_summary m bih"] assms(2) by auto
  then have "Api_ParseInfoElem m bih len = Some (A_OK, y)" by (simp add: Api_ParseInfoElem_walk [OF assms(1)])
  moreover have "ss_bssid y = mem_bytes m (bih + 6) 6" "ss_rssi y = m (bih + 3)"
    using element_loop_fixed [OF y] by (simp_all add: frame_summary_def)
  ultimately show ?thesis
    using assms(3) by (auto simp: fill_at_def fill_scan_info_def fill_ext_scan_info_def fill_entry_def)
qed

section \<open>The table as a map\<close>

definition scan_map :: "scan_out \<Rightarrow> u8 list \<rightharpoonup> u8" where
  "scan_map t = map_of (map (\<lambda>e. (se_bssid e, se_rssi e)) (used t))"

lemma map_of_replace:
  assumes "distinct (map fst xs)" "k < length xs" "b = fst (xs ! k) \<or> b \<notin> fst ` set xs"
  shows "map_of (xs[k := (b, r)]) = (map_of xs)(fst (xs ! k) := None, b \<mapsto> r)"
  using assms
proof (induction xs arbitrary: k)
  case (Cons x xs)
  show ?case
  proof (cases k)
    case 0
    have "map_of xs (fst x) = None" using Cons.prems(1) by (simp add: map_of_eq_None_iff)
    then show ?thesis using 0 by (cases x) (auto simp: fun_eq_iff)
  next
    case (Suc j)
    then have "xs ! j \<in> set xs" using Cons.prems(2) by simp
    then have "fst (xs ! j) \<noteq> fst x" using Cons.prems(1) by (metis distinct.simps(2) image_eqI list.map(2) list.set_map)
    then show ?thesis using Suc Cons by (cases x) (auto simp: fun_eq_iff)
  qed
qed simp

lemma used_update:
  "k < unat (scanOutCount t) \<Longrightarrow> used (t\<lparr>pScanOut := (pScanOut t)[k := e]\<rparr>) = (used t)[k := e]"
  by (simp add: used_def take_update_swap)

lemma scan_map_replace:
  assumes "scan_ok t" "k < unat (scanOutCount t)"
    and "se_bssid e = se_bssid (pScanOut t ! k) \<or> se_bssid e \<notin> se_bssid ` set (used t)"
  defines "t' \<equiv> t\<lparr>pScanOut := (pScanOut t)[k := e]\<rparr>"
  shows "scan_ok t' \<and> scan_map t' = (scan_map t)(se_bssid (pScanOut t ! k) := None, se_bssid e \<mapsto> se_rssi e)"
proof -
  have k: "k < length (used t)" "used t ! k = pScanOut t ! k"
    using assms(1,2) by (auto simp: used_def scan_ok_def word_le_nat_alt)
  have d: "distinct (map se_bssid (used t))" using assms(1) by (simp add: scan_ok_def)
  have "distinct (map se_bssid ((used t)[k := e]))"
    using assms(3)
  proof
    assume "se_bssid e = se_bssid (pScanOut t ! k)"
    then have "map se_bssid ((used t)[k := e]) = map se_bssid (used t)"
      using k by (simp add: map_update) (metis length_map list_update_id nth_map)
    with d show ?thesis by simp
  next
    assume "se_bssid e \<notin> se_bssid ` set (used t)"
    then show ?thesis using d by (simp add: map_update distinct_list_update)
  qed
  then have ok: "scan_ok t'" using assms(1) by (simp add: scan_ok_def t'_def used_update [OF assms(2)])
  have "scan_map t' = map_of ((map (\<lambda>e. (se_bssid e, se_rssi e)) (used t))[k := (se_bssid e, se_rssi e)])"
    by (simp add: scan_map_def t'_def used_update [OF assms(2)] map_update)
  also have "\<dots> = (scan_map t)(se_bssid (pScanOut t ! k) := None, se_bssid e \<mapsto> se_rssi e)"
    unfolding scan_map_def using d k assms(3) by (subst map_of_replace) (auto simp: o_def)
  finally show ?thesis using ok by simp
qed

text \<open>The map has the BSSID of an entry in use, and only those.\<close>

lemma scan_map_entry:
  assumes "scan_ok t" "k < unat (scanOutCount t)"
  shows "scan_map t (se_bssid (pScanOut t ! k)) = Some (se_rssi (pScanOut t ! k))"
proof -
  have k: "k < length (used t)" "used t ! k = pScanOut t ! k"
    using assms by (auto simp: used_def scan_ok_def word_le_nat_alt)
  have d: "distinct (map fst (map (\<lambda>e. (se_bssid e, se_rssi e)) (used t)))" using assms(1) by (simp add: scan_ok_def o_def)
  have "(se_bssid (pScanOut t ! k), se_rssi (pScanOut t ! k)) \<in> set (map (\<lambda>e. (se_bssid e, se_rssi e)) (used t))"
    using k by (metis (mono_tags) image_eqI list.set_map nth_mem)
  with d show ?thesis unfolding scan_map_def by simp
qed

lemma dom_scan_map: "dom (scan_map t) = se_bssid ` set (used t)"
  by (simp add: scan_map_def dom_map_of_conv_image_fst image_image)

lemma ran_scan_map: "scan_ok t \<Longrightarrow> ran (scan_map t) = se_rssi ` set (used t)"
  unfolding scan_map_def by (subst ran_distinct) (auto simp: scan_ok_def o_def image_image)

lemma scan_map_append:
  assumes "scan_ok t" "scanOutCount t < scanOutSize t" "se_bssid e \<notin> dom (scan_map t)"
  defines "t' \<equiv> t\<lparr>pScanOut := (pScanOut t)[unat (scanOutCount t) := e], scanOutCount := scanOutCount t + 1\<rparr>"
  shows "scan_ok t' \<and> scan_map t' = (scan_map t)(se_bssid e \<mapsto> se_rssi e)"
proof -
  let ?n = "unat (scanOutCount t)"
  have n: "unat (scanOutCount t + 1) = Suc ?n" using assms(2) by (rule unat_increment)
  have lt: "?n < length (pScanOut t)" using assms(1,2) by (auto simp: scan_ok_def word_less_nat_alt)
  then have u: "used t' = used t @ [e]"
    by (simp add: used_def t'_def n take_Suc_conv_app_nth)
  then have "distinct (map se_bssid (used t'))" using assms(1,3) by (simp add: scan_ok_def dom_scan_map)
  then have "scan_ok t'" using assms(1,2) unfolding scan_ok_def by (simp add: t'_def n word_le_nat_alt word_less_nat_alt)
  moreover have "map_of (map (\<lambda>e. (se_bssid e, se_rssi e)) (used t)) (se_bssid e) = None"
    using assms(3) by (auto simp: scan_map_def)
  then have "scan_map t' = (scan_map t)(se_bssid e \<mapsto> se_rssi e)"
    by (auto simp: scan_map_def u map_add_def fun_eq_iff split: option.splits)
  ultimately show ?thesis by simp
qed

section \<open>Properties\<close>

text \<open>C10. The scan results behave as a finite map from BSSIDs to signal strengths that keeps the strongest
  networks. An event with a complete frame enters its network: it updates or adds it while there is room; when
  the table is full it takes the place of a weakest network if that one is weaker, and is dropped
  otherwise. The entries stay inside the buffer and no BSSID appears twice, and the uninitialised
  index is not used.\<close>

theorem scan_keeps_strongest:
  fixes m :: memory and bih :: ptr
  assumes ok: "scan_ok t" and complete: "\<not> len < 28" and frame: "unat bih + unat len + 256 < 2 ^ 32"
  defines "b \<equiv> mem_bytes m (bih + 6) 6" and "r \<equiv> m (bih + 3)"
  shows "\<exists>t'. Custom_Api_BssInfoEvent m bih len t = Some t' \<and> scan_ok t' \<and>
    (if b \<in> dom (scan_map t) \<or> scanOutCount t < scanOutSize t then scan_map t' = (scan_map t)(b \<mapsto> r)
     else if \<exists>x \<in> ran (scan_map t). x < r
     then \<exists>c x. scan_map t c = Some x \<and> x < r \<and> (\<forall>x' \<in> ran (scan_map t). x \<le> x') \<and>
       scan_map t' = (scan_map t)(c := None, b \<mapsto> r)
     else t' = t)"
proof -
  let ?n = "scanOutCount t" and ?es = "pScanOut t"
  have n: "unat ?n \<le> length ?es" "unat ?n \<le> 255" using ok by (auto simp: scan_ok_def word_le_nat_alt)
  obtain i w idx where s: "scan_search ?es b ?n 0 0xff None = Some (i, w, idx)"
    and res: "if unat i < unat ?n then se_bssid (?es ! unat i) = b
      else weakest (used t) w idx \<and> b \<notin> dom (scan_map t)"
    using scan_search_result [OF n, of 0 "0xff" None b, folded used_def dom_scan_map] by (auto simp: weakest_def)
  have fill: "\<exists>e. fill_at m bih len k t = Some (t\<lparr>pScanOut := ?es[k := e]\<rparr>) \<and> se_bssid e = b \<and> se_rssi e = r"
    if "k < length ?es" for k
    using fill_at_result [OF complete frame that] by (simp add: b_def r_def)
  show ?thesis
  proof (cases "unat i < unat ?n")
    case True
    obtain e where e: "fill_at m bih len (unat i) t = Some (t\<lparr>pScanOut := ?es[unat i := e]\<rparr>)" "se_bssid e = b" "se_rssi e = r"
      using fill [of "unat i"] n True by auto
    have "b \<in> dom (scan_map t)" using scan_map_entry [OF ok True] res True by auto
    then show ?thesis
      using scan_map_replace [OF ok True, of e] e s res True
      by (simp add: Custom_Api_BssInfoEvent_def Let_def b_def [symmetric] r_def [symmetric] count_less_index)
  next
    case False
    then have new: "b \<notin> dom (scan_map t)" and wk: "weakest (used t) w idx" using res by auto
    show ?thesis
    proof (cases "?n < scanOutSize t")
      case True
      then have "unat ?n < length ?es" using ok by (auto simp: scan_ok_def word_less_nat_alt)
      then obtain e where e: "fill_at m bih len (unat ?n) t = Some (t\<lparr>pScanOut := ?es[unat ?n := e]\<rparr>)" "se_bssid e = b" "se_rssi e = r"
        using fill by blast
      have room: "(scanOutSize t \<le> ?n) = False" using True by simp
      show ?thesis
        using scan_map_append [OF ok True, of e] e s new False True
        by (simp add: Custom_Api_BssInfoEvent_def Let_def b_def [symmetric] r_def [symmetric] count_less_index room)
    next
      case no_room: False
      then have full: "scanOutSize t \<le> ?n" by (simp add: not_less)
      show ?thesis
      proof (cases "w < r")
        case True
        have "unat r \<le> 255" using unsigned_less [of r, where ?'a = nat] by simp
        then have "w \<noteq> 0xff" using True by (auto simp: word_less_nat_alt)
        then obtain k where k: "idx = Some k" "unat k < unat ?n" "se_rssi (?es ! unat k) = w" "\<forall>e \<in> set (used t). w \<le> se_rssi e"
          using wk by (auto simp: weakest_def used_def split: option.splits)
        then obtain e where e: "fill_at m bih len (unat k) t = Some (t\<lparr>pScanOut := ?es[unat k := e]\<rparr>)" "se_bssid e = b" "se_rssi e = r"
          using fill [of "unat k"] n by auto
        have c: "scan_map t (se_bssid (?es ! unat k)) = Some w" using scan_map_entry [OF ok k(2)] k(3) by simp
        then have "\<exists>x \<in> ran (scan_map t). x < r" using True by (meson ranI)
        moreover have "scan_ok (t\<lparr>pScanOut := ?es[unat k := e]\<rparr>) \<and>
            scan_map (t\<lparr>pScanOut := ?es[unat k := e]\<rparr>) = (scan_map t)(se_bssid (?es ! unat k) := None, b \<mapsto> r)"
          using scan_map_replace [OF ok k(2), of e] e new by (simp add: dom_scan_map)
        moreover have "\<forall>x' \<in> ran (scan_map t). w \<le> x'" using k(4) by (simp add: ran_scan_map [OF ok])
        ultimately show ?thesis
          using s False full no_room True k(1) e(1) c new
          by (auto simp: Custom_Api_BssInfoEvent_def Let_def b_def [symmetric] r_def [symmetric] count_less_index not_less)
      next
        case keep: False
        have c2: "\<not> (\<exists>x \<in> ran (scan_map t). x < r)" using wk keep
          by (force simp: ran_scan_map [OF ok] weakest_def)
        have c1: "\<not> (b \<in> dom (scan_map t) \<or> ?n < scanOutSize t)" using new no_room by simp
        have "Custom_Api_BssInfoEvent m bih len t = Some t"
          using s False full keep
          by (simp add: Custom_Api_BssInfoEvent_def Let_def b_def [symmetric] r_def [symmetric] count_less_index)
        then show ?thesis unfolding if_not_P [OF c1] if_not_P [OF c2] using ok by blast
      qed
    qed
  qed
qed

text \<open>An entry of a normal scan is not cleared before it is filled: the security bits of the network that had it
  before stay set. (An extended scan clears it.)\<close>

lemma fill_keeps_stale_bits:
  assumes "fill_scan_info m bih len e = Some e'"
  shows "se_rsn_cipher e AND se_rsn_cipher e' = se_rsn_cipher e"
proof -
  have "x AND (x OR z) = x" for x z :: u8 by (rule bit_word_eqI) (simp add: bit_simps)
  then show ?thesis using assms by (auto simp: fill_scan_info_def fill_entry_def bind_eq_Some_conv split: if_splits)
qed

definition demo_scan :: scan_out where
  "demo_scan = \<lparr>extended_scan = False, pScanOut = replicate 12 scan_entry_zero, scanOutSize = 12, scanOutCount = 0\<rparr>"

theorem scan_keeps_strongest_witness:
  "\<exists>t'. Custom_Api_BssInfoEvent demo_beacon 0x1000 61 demo_scan = Some t' \<and> scan_ok t'
    \<and> scan_map t' = [mem_bytes demo_beacon 0x1006 6 \<mapsto> demo_beacon 0x1003]"
proof -
  have "scan_ok demo_scan" "scanOutCount demo_scan < scanOutSize demo_scan" "scan_map demo_scan = Map.empty"
    by (simp_all add: scan_ok_def demo_scan_def used_def scan_map_def)
  then show ?thesis using scan_keeps_strongest [of demo_scan 61 "0x1000" demo_beacon] by simp
qed

end
