(* ===== verification/Wmi_Cmd.thy ===== *)
theory Wmi_Cmd
  imports Api_TxStart
begin

text \<open>
  The command path of the WMI layer, \<^verbatim>\<open>common_src/wmi/wmi.c\<close>: a command is written to a packet, gets
  the \<open>WMI_CMD_HDR\<close> of \<^verbatim>\<open>include/wmi.h\<close> put in front and is handed to the driver's transmit queue.

  The command ids are those of the firmware the tree is configured for (\<open>TARGET_AR400X_REV1\<close>);
  \<open>WLAN_CONFIG_ENABLE_WMI_SYNC\<close> is 0. The \<open>wmi_t\<close> context is part of the driver context: its control
  endpoint \<open>wmiControlEp\<close>, the device id, and two error counters. A command a function builds in
  a local structure is at the address \<open>stk\<close>; the bytes of it that the function does not set keep
  what was there.
\<close>

section \<open>The command header\<close>

abbreviation (input) sizeof_WMI_CMD_HDR :: u32 where "sizeof_WMI_CMD_HDR \<equiv> 6"

abbreviation (input) NO_SYNC_WMIFLAG :: u8 where "NO_SYNC_WMIFLAG \<equiv> 0"
abbreviation (input) END_WMIFLAG :: u8 where "END_WMIFLAG \<equiv> 4"

definition WMI_GET_DEVICE_ID :: "u16 \<Rightarrow> u16" where
  "WMI_GET_DEVICE_ID info1 = info1 AND 0xF"

definition WMI_SET_DEVICE_ID :: "u16 \<Rightarrow> u16 \<Rightarrow> u16" where
  "WMI_SET_DEVICE_ID info1 v = (info1 AND NOT 0xF) OR WMI_GET_DEVICE_ID v"

definition wmi_set_control_ep :: "u8 \<Rightarrow> 'e drv \<Rightarrow> 'e drv option" where
  "wmi_set_control_ep eid s = do {
     A_ASSERT (eid \<noteq> ENDPOINT_UNUSED);
     Some (s\<lparr>wmiControlEp := eid\<rparr>)}"

definition wmi_get_control_ep :: "'e drv \<Rightarrow> u8" where
  "wmi_get_control_ep s = wmiControlEp s"

text \<open>\<open>a_netbuf_push\<close> asserts that there is room, so the code's branch for its failure is dead; the
  result of \<open>A_WMI_CONTROL_TX\<close> is ignored.\<close>

definition wmi_cmd_send :: "'e mqx \<Rightarrow> 'e upper \<Rightarrow> ptr \<Rightarrow> u16 \<Rightarrow> u8 \<Rightarrow> 'e drv \<Rightarrow> (A_STATUS \<times> 'e drv) option" where
  "wmi_cmd_send M U osbuf cmdId syncflag s = do {
     let eid = wmiControlEp s;
     A_ASSERT (osbuf \<noteq> NULL);
     if syncflag \<ge> END_WMIFLAG then Some (A_EINVAL, a_netbuf_free M U osbuf s)
     else do {
       s \<leftarrow> on_nb osbuf (\<lambda>nb. a_netbuf_push nb sizeof_WMI_CMD_HDR) s;
       let cHdr = a_netbuf_to_data (nbs s osbuf);
       let m = mem_put (mem s) cHdr (le16_bytes_of cmdId);
       let m = mem_put m (cHdr + 2) (le16_bytes_of (WMI_SET_DEVICE_ID (mem16 m (cHdr + 2)) (deviceid s)));
       (_, s) \<leftarrow> Api_WmiTxStart osbuf eid (s\<lparr>mem := m\<rparr>);
       Some (A_OK, s)}}"

section \<open>Building commands\<close>

definition wmi_simple_cmd :: "'e mqx \<Rightarrow> 'e upper \<Rightarrow> u16 \<Rightarrow> 'e drv \<Rightarrow> (A_STATUS \<times> 'e drv) option" where
  "wmi_simple_cmd M U cmdid s = (case a_netbuf_alloc M 0 s of (osbuf, s) \<Rightarrow>
     if osbuf = NULL then Some (A_NO_MEMORY, s)
     else wmi_cmd_send M U osbuf cmdid NO_SYNC_WMIFLAG s)"

definition wmi_cmd_start :: "'e mqx \<Rightarrow> 'e upper \<Rightarrow> ptr \<Rightarrow> u16 \<Rightarrow> u16 \<Rightarrow> 'e drv \<Rightarrow> (A_STATUS \<times> 'e drv) option" where
  "wmi_cmd_start M U pInput cmdID buffSize s = (case a_netbuf_alloc M (ucast buffSize) s of (osbuf, s) \<Rightarrow>
     if osbuf = NULL then Some (A_NO_MEMORY, s)
     else do {
       s \<leftarrow> (if buffSize \<noteq> 0 then do {
               s \<leftarrow> on_nb osbuf (\<lambda>nb. a_netbuf_put nb (ucast buffSize)) s;
               Some (s\<lparr>mem := A_MEMCPY (mem s) (a_netbuf_to_data (nbs s osbuf)) pInput (ucast buffSize)\<rparr>)}
             else Some s);
       wmi_cmd_send M U osbuf cmdID NO_SYNC_WMIFLAG s})"

abbreviation (input) WMI_SET_BSS_FILTER_CMDID :: u16 where "WMI_SET_BSS_FILTER_CMDID \<equiv> 0x0009"
abbreviation (input) WMI_SET_BEACON_INT_CMDID :: u16 where "WMI_SET_BEACON_INT_CMDID \<equiv> 0x000f"
abbreviation (input) WMI_SET_APPIE_CMDID :: u16 where "WMI_SET_APPIE_CMDID \<equiv> 0x003f"
abbreviation (input) WMI_AP_HIDDEN_SSID_CMDID :: u16 where "WMI_AP_HIDDEN_SSID_CMDID \<equiv> 0xf00b"
abbreviation (input) WMI_AP_CONN_INACT_CMDID :: u16 where "WMI_AP_CONN_INACT_CMDID \<equiv> 0xf012"
abbreviation (input) WMI_AP_SET_DTIM_CMDID :: u16 where "WMI_AP_SET_DTIM_CMDID \<equiv> 0xf015"
abbreviation (input) WMI_AP_PSBUF_OFFLOAD_CMDID :: u16 where "WMI_AP_PSBUF_OFFLOAD_CMDID \<equiv> 0xf0af"
abbreviation (input) WMI_STORERECALL_RECALL_CMDID :: u16 where "WMI_STORERECALL_RECALL_CMDID \<equiv> 0xf05f"
abbreviation (input) WMI_SOCKET_CMDID :: u16 where "WMI_SOCKET_CMDID \<equiv> 0xf08d"
abbreviation (input) WMI_P2P_FW_SET_NOA_CMDID :: u16 where "WMI_P2P_FW_SET_NOA_CMDID \<equiv> 0xf0a9"
abbreviation (input) WMI_P2P_FW_SET_OPPPS_CMDID :: u16 where "WMI_P2P_FW_SET_OPPPS_CMDID \<equiv> 0xf0ab"

definition wmi_bssfilter_cmd :: "'e mqx \<Rightarrow> 'e upper \<Rightarrow> u8 \<Rightarrow> u32 \<Rightarrow> 'e drv \<Rightarrow> (A_STATUS \<times> 'e drv) option" where
  "wmi_bssfilter_cmd M U filt ieMask s = (
     let s = s\<lparr>mem := mem_put ((mem s)(stk s := filt)) (stk s + 4) (le32_bytes_of ieMask)\<rparr>
     in wmi_cmd_start M U (stk s) WMI_SET_BSS_FILTER_CMDID 8 s)"

abbreviation (input) sizeof_WMI_SOCKET_CMD :: u32 where "sizeof_WMI_SOCKET_CMD \<equiv> 8"

definition wmi_socket_cmd :: "'e mqx \<Rightarrow> 'e upper \<Rightarrow> u32 \<Rightarrow> ptr \<Rightarrow> u32 \<Rightarrow> 'e drv \<Rightarrow> (A_STATUS \<times> 'e drv) option" where
  "wmi_socket_cmd M U cmd_type pData len s = do {
     A_ASSERT (\<not> (pData = NULL \<or> len < sizeof_WMI_SOCKET_CMD));
     let m = mem_put (mem s) pData (le32_bytes_of cmd_type);
     let m = mem_put m (pData + 4) (le32_bytes_of (len - sizeof_WMI_SOCKET_CMD));
     wmi_cmd_start M U pData WMI_SOCKET_CMDID (ucast len) (s\<lparr>mem := m\<rparr>)}"

text \<open>The payload of the recall command is not copied but appended as a fragment.\<close>

definition wmi_storerecall_recall_cmd :: "'e mqx \<Rightarrow> 'e upper \<Rightarrow> u32 \<Rightarrow> ptr \<Rightarrow> 'e drv \<Rightarrow> (A_STATUS \<times> 'e drv) option" where
  "wmi_storerecall_recall_cmd M U len pData s = (
     let msgLength = 5 - 1 in case a_netbuf_alloc M msgLength s of (osbuf, s) \<Rightarrow>
     if osbuf = NULL then Some (A_NO_MEMORY, s)
     else do {
       s \<leftarrow> on_nb osbuf (\<lambda>nb. a_netbuf_put nb msgLength) s;
       let s = s\<lparr>mem := mem_put (mem s) (a_netbuf_to_data (nbs s osbuf)) (le32_bytes_of len)\<rparr>;
       s \<leftarrow> on_nb osbuf (\<lambda>nb. a_netbuf_append_fragment nb pData len) s;
       wmi_cmd_send M U osbuf WMI_STORERECALL_RECALL_CMDID NO_SYNC_WMIFLAG s})"

text \<open>\<open>ap_param\<close> is given by its two fields; the command is the union \<open>stackU\<close> at \<open>stk\<close>.\<close>

abbreviation (input) AP_SUB_CMD_BCON_INT :: u16 where "AP_SUB_CMD_BCON_INT \<equiv> 1"
abbreviation (input) AP_SUB_CMD_HIDDEN_FLAG :: u16 where "AP_SUB_CMD_HIDDEN_FLAG \<equiv> 2"
abbreviation (input) AP_SUB_CMD_INACT_TIME :: u16 where "AP_SUB_CMD_INACT_TIME \<equiv> 3"
abbreviation (input) AP_SUB_CMD_DTIM_INT :: u16 where "AP_SUB_CMD_DTIM_INT \<equiv> 6"
abbreviation (input) AP_SUB_CMD_PSBUF :: u16 where "AP_SUB_CMD_PSBUF \<equiv> 7"

definition wmi_ap_set_param :: "'e mqx \<Rightarrow> 'e upper \<Rightarrow> u16 \<Rightarrow> ptr \<Rightarrow> 'e drv \<Rightarrow> (A_STATUS \<times> 'e drv) option" where
  "wmi_ap_set_param M U cmd_subset data s = (
     let m = mem s; start = (\<lambda>bs cmd n. wmi_cmd_start M U (stk s) cmd n (s\<lparr>mem := mem_put m (stk s) bs\<rparr>)) in
     if cmd_subset = AP_SUB_CMD_HIDDEN_FLAG then start [1] WMI_AP_HIDDEN_SSID_CMDID 1
     else if cmd_subset = AP_SUB_CMD_INACT_TIME then start (le32_bytes_of (mem32 m data)) WMI_AP_CONN_INACT_CMDID 4
     else if cmd_subset = AP_SUB_CMD_BCON_INT then start (le16_bytes_of (mem16 m data)) WMI_SET_BEACON_INT_CMDID 2
     else if cmd_subset = AP_SUB_CMD_DTIM_INT then start [m data] WMI_AP_SET_DTIM_CMDID 1
     else if cmd_subset = AP_SUB_CMD_PSBUF then start [m data, m (data + 1)] WMI_AP_PSBUF_OFFLOAD_CMDID 2
     else Some (A_OK, s))"

definition wmi_p2p_set_oppps :: "'e mqx \<Rightarrow> 'e upper \<Rightarrow> u8 \<Rightarrow> u8 \<Rightarrow> 'e drv \<Rightarrow> (A_STATUS \<times> 'e drv) option" where
  "wmi_p2p_set_oppps M U enable ctwin s = (case a_netbuf_alloc M 2 s of (osbuf, s) \<Rightarrow>
     if osbuf = NULL then Some (A_NO_MEMORY, s)
     else do {
       s \<leftarrow> on_nb osbuf (\<lambda>nb. a_netbuf_put nb 2) s;
       let s = s\<lparr>mem := mem_put (mem s) (a_netbuf_to_data (nbs s osbuf)) [enable, ctwin]\<rparr>;
       wmi_cmd_send M U osbuf WMI_P2P_FW_SET_OPPPS_CMDID NO_SYNC_WMIFLAG s})"

text \<open>The last three free the packet when \<open>wmi_cmd_send\<close> fails - which has freed it already; with
  \<open>NO_SYNC_WMIFLAG\<close> it does not fail. \<open>noa\<close> is the address of a \<open>WMI_NOA_INFO_STRUCT\<close>: two bytes, then
  descriptors of 13 bytes.\<close>

definition wmi_p2p_set_noa :: "'e mqx \<Rightarrow> 'e upper \<Rightarrow> ptr \<Rightarrow> 'e drv \<Rightarrow> (A_STATUS \<times> 'e drv) option" where
  "wmi_p2p_set_noa M U noa s = (
     let cnt = mem s (noa + 1); n = 2 + ucast cnt * 13 in case a_netbuf_alloc M n s of (osbuf, s) \<Rightarrow>
     if osbuf = NULL then Some (A_NO_MEMORY, s)
     else do {
       s \<leftarrow> on_nb osbuf (\<lambda>nb. a_netbuf_put nb n) s;
       let cmd = a_netbuf_to_data (nbs s osbuf);
       let m = mem_put (mem s) cmd [mem s noa, mem s (noa + 1)];
       let m = fold (\<lambda>i m. A_MEMCPY m (cmd + 2 + of_nat i * 13) (noa + 2 + of_nat i * 13) 13) [0..<unat (m (cmd + 1))] m;
       (status, s) \<leftarrow> wmi_cmd_send M U osbuf WMI_P2P_FW_SET_NOA_CMDID NO_SYNC_WMIFLAG (s\<lparr>mem := m\<rparr>);
       Some (status, if status \<noteq> A_OK then a_netbuf_free M U osbuf s else s)})"

text \<open>\<open>appie_param\<close> is given by its three fields.\<close>

definition wmi_set_appie_cmd :: "'e mqx \<Rightarrow> 'e upper \<Rightarrow> u8 \<Rightarrow> u8 \<Rightarrow> ptr \<Rightarrow> 'e drv \<Rightarrow> (A_STATUS \<times> 'e drv) option" where
  "wmi_set_appie_cmd M U mgmtFrmType ieLen ieInfo s = (case a_netbuf_alloc M (2 + ucast ieLen) s of (osbuf, s) \<Rightarrow>
     if osbuf = NULL then Some (A_NO_MEMORY, s)
     else do {
       s \<leftarrow> on_nb osbuf (\<lambda>nb. a_netbuf_put nb (2 + ucast ieLen)) s;
       let cmd = a_netbuf_to_data (nbs s osbuf);
       let m = mem_put (mem s) cmd [mgmtFrmType, ieLen];
       let m = A_MEMCPY m (cmd + 2) ieInfo (ucast ieLen);
       (status, s) \<leftarrow> wmi_cmd_send M U osbuf WMI_SET_APPIE_CMDID NO_SYNC_WMIFLAG (s\<lparr>mem := m\<rparr>);
       Some (status, if status \<noteq> A_OK then a_netbuf_free M U osbuf s else s)})"

text \<open>\<open>buf\<close> is the address of a \<open>WMI_P2P_SDPD_TX_CMD\<close>; the byte-order conversions of its fields change nothing.\<close>

abbreviation (input) WMI_P2P_SDPD_TX_CMDID :: u16 where "WMI_P2P_SDPD_TX_CMDID \<equiv> 0xf05b"
abbreviation (input) sizeof_WMI_P2P_SDPD_TX_CMD :: u32 where "sizeof_WMI_P2P_SDPD_TX_CMD \<equiv> 1048"

definition wmi_sdpd_send_cmd :: "'e mqx \<Rightarrow> 'e upper \<Rightarrow> ptr \<Rightarrow> 'e drv \<Rightarrow> (A_STATUS \<times> 'e drv) option" where
  "wmi_sdpd_send_cmd M U buf s = (case a_netbuf_alloc M sizeof_WMI_P2P_SDPD_TX_CMD s of (osbuf, s) \<Rightarrow>
     if osbuf = NULL then Some (A_NO_MEMORY, s)
     else do {
       s \<leftarrow> on_nb osbuf (\<lambda>nb. a_netbuf_put nb sizeof_WMI_P2P_SDPD_TX_CMD) s;
       let cmd = a_netbuf_to_data (nbs s osbuf);
       let m = mem_put (mem s) cmd (replicate (unat sizeof_WMI_P2P_SDPD_TX_CMD) 0);
       let m = A_MEMCPY m cmd buf sizeof_WMI_P2P_SDPD_TX_CMD;
       (status, s) \<leftarrow> wmi_cmd_send M U osbuf WMI_P2P_SDPD_TX_CMDID NO_SYNC_WMIFLAG (s\<lparr>mem := m\<rparr>);
       Some (status, if status \<noteq> A_OK then a_netbuf_free M U osbuf s else s)})"

section \<open>What a command looks like in the transmit queue\<close>

lemma credits_required_returns: "cs \<noteq> 0 \<Longrightarrow> \<exists>n. credits_required len cs = Some n"
  by (simp add: credits_required_def Let_def)

lemma submit_run:
  assumes rep: "tx_rep s xs" "p \<noteq> NULL" "p \<notin> set xs" "length xs < queue_cap"
    and room: "6 \<le> nb_data (nbs s p) - nb_head (nbs s p)" and cs: "creditSize s \<noteq> 0"
  obtains s' c l where "Driver_SubmitTxRequest p s = Some (A_OK, s')" "tx_rep s' (xs @ [p])" "mem s' = mem s"
    "nbs s' p = (nbs s p)\<lparr>nb_data := nb_data (nbs s p) - 6, queueLink := l,
       trans := (trans (nbs s p))\<lparr>t_cb := cb_Driver_TxComplete, t_credits := c\<rparr>\<rparr>"
proof -
  let ?nb = "(nbs s p)\<lparr>nb_data := nb_data (nbs s p) - 6\<rparr>"
  have push: "a_netbuf_push (trans_update f (nbs s p)) 6 = Some (trans_update f ?nb)" for f
    using room by (simp add: a_netbuf_push_def not_less [symmetric])
  obtain n where n: "credits_required (DEV_CALC_PADDED_LEN s (a_netbuf_to_len (natives s) ?nb)) (creditSize s) = Some n"
    using credits_required_returns [OF cs] by blast
  define s1 where "s1 = s\<lparr>nbs := (nbs s)(p := trans_update (t_credits_update (\<lambda>_. ucast n) \<circ> t_cb_update (\<lambda>_. cb_Driver_TxComplete)) ?nb)\<rparr>"
  have "prepare_tx cb_Driver_TxComplete p s = Some s1"
    using n by (simp add: prepare_tx_def set_trans_def set_nb_def on_nb_def push nb_len_def DEV_CALC_PADDED_LEN_def s1_def)
  then have run: "Driver_SubmitTxRequest p s = Some (A_OK, Driver_WakeDriver (tx_enqueue s1 p))"
    by (simp add: Driver_SubmitTxRequest_def)
  have "tx_rep s1 xs = tx_rep s xs" by (rule tx_rep_cong) (use rep in \<open>auto simp: s1_def\<close>)
  then have "tx_rep (tx_enqueue s1 p) (xs @ [p])" using txq.rep_enq [of s1 xs p] rep by simp
  moreover obtain l where "nbs (tx_enqueue s1 p) p = (nbs s1 p)\<lparr>queueLink := l\<rparr>"
    using tx_enqueue_links [of s1 p p] by auto
  moreover have "(nbs s1 p)\<lparr>queueLink := l\<rparr> = (nbs s p)\<lparr>nb_data := nb_data (nbs s p) - 6, queueLink := l,
       trans := (trans (nbs s p))\<lparr>t_cb := cb_Driver_TxComplete, t_credits := ucast n\<rparr>\<rparr>"
    by (cases "nbs s p") (simp add: s1_def)
  ultimately show thesis
    by (intro that [OF run, of "ucast n" l]) (simp_all add: Driver_WakeDriver_def tx_rep_def, simp add: s1_def)
qed

text \<open>The bytes of a command: id, device id, the two bytes that are never set, parameters.\<close>

definition cmd_frame :: "u16 \<Rightarrow> u16 \<Rightarrow> u8 list \<Rightarrow> u8 list \<Rightarrow> u8 list" where
  "cmd_frame cmd info rsvd bs = le16_bytes_of cmd @ le16_bytes_of info @ rsvd @ bs"

lemma cmd_send_run:
  fixes s :: "'e drv"
  assumes rep: "tx_rep s xs" "p \<noteq> NULL" "p \<notin> set xs" "length xs < queue_cap" and wf: "nb_wf (nbs s p)"
    and room: "12 \<le> nb_data (nbs s p) - nb_head (nbs s p)" and cs: "creditSize s \<noteq> 0"
    and ctl: "mem_bytes (mem s) (nb_data (nbs s p) - 6) 6 = [h0, h1, i0, i1, r0, r1]"
  obtains s' where "wmi_cmd_send M U p cmd NO_SYNC_WMIFLAG s = Some (A_OK, s')" "tx_rep s' (xs @ [p])"
    "t_epid (trans (nbs s' p)) = wmiControlEp s"
    "drop 6 (packet_bytes (mem s') (nbs s' p))
      = cmd_frame cmd (WMI_SET_DEVICE_ID (le16 i0 i1) (deviceid s)) [r0, r1] (packet_bytes (mem s) (nbs s p))"
proof -
  let ?d = "nb_data (nbs s p)" and ?h = "nb_head (nbs s p)"
  let ?bs = "packet_bytes (mem s) (nbs s p)"
  define nb where "nb = (nbs s p)\<lparr>nb_data := ?d - 6\<rparr>"
  have d: "?h \<le> ?d" using wf by (simp add: nb_wf_def)
  have r: "unat ?h + 12 \<le> unat ?d" "unat ?h \<le> unat ?d" using room d by (simp_all add: word_le_nat_alt unat_diff_word)
  have "(6 :: u32) \<le> ?d - ?h" using room by (simp add: word_le_nat_alt)
  then have push: "a_netbuf_push (nbs s p) 6 = Some nb" by (simp add: a_netbuf_push_def not_less [symmetric] nb_def)
  have nbd: "nb_data nb = ?d - 6" by (simp add: nb_def)
  have wf1: "nb_wf nb" using a_netbuf_push_wf [OF wf push] .
  have d6: "unat (?d - 6) = unat ?d - 6" using r by (simp add: unat_diff_word word_le_nat_alt)
  have pb: "packet_bytes (mem s) nb = [h0, h1, i0, i1, r0, r1] @ ?bs"
    using push_bytes [OF wf push, of "mem s"] ctl by (simp add: nbd)
  define m where "m = mem_put (mem s) (?d - 6) (le16_bytes_of cmd)"
  have pm: "packet_bytes m nb = le16_bytes_of cmd @ [i0, i1, r0, r1] @ ?bs"
    using put_front [of "le16_bytes_of cmd" "mem s" nb] by (simp add: pb m_def nbd)
  have i: "mem16 m (?d - 6 + 2) = le16 i0 i1"
    using packet_mem16 [of 2 m nb] by (simp add: pm nbd nth_append)
  define m2 where "m2 = mem_put m (?d - 6 + 2) (le16_bytes_of (WMI_SET_DEVICE_ID (le16 i0 i1) (deviceid s)))"
  have pm2: "packet_bytes m2 nb = cmd_frame cmd (WMI_SET_DEVICE_ID (le16 i0 i1) (deviceid s)) [r0, r1] ?bs"
    using put_inside [OF wf1, of 2 "le16_bytes_of (WMI_SET_DEVICE_ID (le16 i0 i1) (deviceid s))" m]
    by (simp add: pm m2_def nbd cmd_frame_def)
  define s1 where "s1 = s\<lparr>mem := m2, nbs := (nbs s)(p := trans_update (t_epid_update (\<lambda>_. wmiControlEp s)) nb)\<rparr>"
  have "unat ?h + 6 \<le> unat (?d - 6)" "?h \<le> ?d - 6" using d6 r by (auto simp: word_le_nat_alt)
  then have room1: "6 \<le> nb_data (nbs s1 p) - nb_head (nbs s1 p)"
    by (simp add: s1_def nb_def word_le_nat_alt [of 6] unat_diff_word)
  have "tx_rep s1 xs = tx_rep s xs" by (rule tx_rep_cong) (use rep in \<open>auto simp: s1_def\<close>)
  then have rep1: "tx_rep s1 xs" using rep by simp
  obtain s' c l where sub: "Driver_SubmitTxRequest p s1 = Some (A_OK, s')" "tx_rep s' (xs @ [p])" "mem s' = mem s1"
    "nbs s' p = (nbs s1 p)\<lparr>nb_data := nb_data (nbs s1 p) - 6, queueLink := l,
       trans := (trans (nbs s1 p))\<lparr>t_cb := cb_Driver_TxComplete, t_credits := c\<rparr>\<rparr>"
    using submit_run [OF rep1 rep(2-4) room1] cs by (auto simp: s1_def)
  have run: "wmi_cmd_send M U p cmd NO_SYNC_WMIFLAG s = Some (A_OK, s')"
    using sub(1) push i by (simp add: wmi_cmd_send_def rep on_nb_def a_netbuf_to_data_def Let_def Api_WmiTxStart_def
        set_trans_def set_nb_def s1_def m2_def m_def nb_def)
  have "a_netbuf_push (nbs s1 p) 6 = Some ((nbs s1 p)\<lparr>nb_data := nb_data (nbs s1 p) - 6\<rparr>)"
    using room1 by (simp add: a_netbuf_push_def not_less [symmetric])
  moreover have "nb_wf (nbs s1 p)" using wf1 by (simp add: s1_def nb_wf_def)
  ultimately have "packet_bytes (mem s') (nbs s' p) = mem_bytes (mem s') (nb_data nb - 6) 6 @ packet_bytes m2 nb"
    using push_bytes [of "nbs s1 p" 6 _ m2] sub(3,4) by (simp add: packet_bytes_def s1_def)
  then show thesis using that [OF run sub(2)] sub(4) by (simp add: pm2) (simp add: s1_def)
qed

text \<open>The block \<open>_mem_alloc_system_zero\<close> returns for the bytes of a packet: inside the address space, and
  zero (it is the head room that matters here).\<close>

definition zeroed_block :: "memory \<Rightarrow> ptr \<Rightarrow> u32 \<Rightarrow> bool" where
  "zeroed_block m a n \<longleftrightarrow> unat a + 64 + unat n < 2 ^ 32 \<and> mem_bytes m a 64 = replicate 64 0"

lemma alloc_object:
  assumes "a_netbuf_alloc M n s = (p, s1)" "p \<noteq> NULL"
  shows "nb_data (nbs s1 p) = nb_head (nbs s1 p) + 64 \<and> nb_tail (nbs s1 p) = nb_head (nbs s1 p) + 64
    \<and> nb_end (nbs s1 p) = nb_head (nbs s1 p) + (64 + n) \<and> nb_head (nbs s1 p) \<noteq> NULL"
  using assms by (auto simp: a_netbuf_alloc_def a_malloc_def qosal_malloc_def set_nb_def Let_def AR6000_DATA_OFFSET_def
      split: prod.splits if_splits)

lemma alloc_others:
  fixes s :: "'e drv"
  assumes "a_netbuf_alloc M n s = (p, s1)" "p \<noteq> NULL"
  shows "txQueue s1 = txQueue s \<and> creditSize s1 = creditSize s \<and> wmiControlEp s1 = wmiControlEp s
    \<and> deviceid s1 = deviceid s \<and> (\<forall>x. x \<noteq> p \<longrightarrow> nbs s1 x = nbs s x)"
  using assms by (auto simp: a_netbuf_alloc_def a_malloc_def qosal_malloc_def set_nb_def Let_def split: prod.splits if_splits)

lemma alloc_room:
  assumes "zeroed_block m a n"
  shows "unat (a + 64) = unat a + 64" "unat (a + 64 + n) = unat a + 64 + unat n" "unat (a + (64 + n)) = unat a + 64 + unat n"
    "mem_bytes m (a + 58) 6 = [0, 0, 0, 0, 0, 0]"
proof -
  have lt: "unat a + 64 + unat n < 2 ^ 32" using assms by (simp add: zeroed_block_def)
  show 1: "unat (a + 64) = unat a + 64" using lt unat_add_no_wrap [of a 64] by simp
  show 2: "unat (a + 64 + n) = unat a + 64 + unat n" using lt unat_add_no_wrap [of "a + 64" n] by (simp add: 1)
  then show "unat (a + (64 + n)) = unat a + 64 + unat n" by (simp add: add.assoc)
  have "mem_bytes m (a + of_nat 58) (64 - 58) = drop 58 (replicate 64 0)"
    using assms mem_bytes_drop [of 58 64 m a] by (simp only: zeroed_block_def)
  then show "mem_bytes m (a + 58) 6 = [0, 0, 0, 0, 0, 0]" by (simp add: eval_nat_numeral)
qed

text \<open>C15. A command on its way to the chip. When the packet can be allocated, \<open>wmi_cmd_start\<close> returns
  \<open>A_OK\<close> and the packet is at the end of the transmit queue, for the control endpoint; behind the head room of the
  HTC header its bytes are the command id, the device id, two zero bytes and the parameters.\<close>

theorem wmi_command_frame:
  fixes s :: "'e drv"
  assumes rep: "tx_rep s xs" "length xs < queue_cap" and cs: "creditSize s \<noteq> 0"
    and alloc: "a_netbuf_alloc M (ucast n) s = (p, s1)" "p \<noteq> NULL" "p \<notin> set xs"
    and block: "zeroed_block (mem s1) (nb_head (nbs s1 p)) (ucast n)"
    and src: "mem_bytes (mem s1) pInput (unat n) = bs"
  shows "\<exists>s'. wmi_cmd_start M U pInput cmdID n s = Some (A_OK, s') \<and> tx_rep s' (xs @ [p])
    \<and> t_epid (trans (nbs s' p)) = wmiControlEp s
    \<and> drop 6 (packet_bytes (mem s') (nbs s' p)) = cmd_frame cmdID (deviceid s AND 0xF) [0, 0] bs"
proof -
  let ?a = "nb_head (nbs s1 p)"
  have n: "unat (ucast n :: u32) = unat n" 
    using unsigned_less [of n, where ?'a = nat] by (simp add: unsigned_ucast_eq take_bit_eq_mod)
  note obj = alloc_object [OF alloc(1,2)] and oth = alloc_others [OF alloc(1,2)] and room = alloc_room [OF block]
  let ?nb = "(nbs s1 p)\<lparr>nb_tail := nb_tail (nbs s1 p) + ucast n\<rparr>"
  define s2 where "s2 = s1\<lparr>nbs := (nbs s1)(p := ?nb), mem := mem_put (mem s1) (?a + 64) bs\<rparr>"
  have put: "a_netbuf_put (nbs s1 p) (ucast n) = Some ?nb"
    using obj room n by (simp add: a_netbuf_put_def add.assoc [symmetric])
  have len: "length bs = unat n" using src by auto
  have s2: "nbs s2 p = ?nb" "mem s2 = mem_put (mem s1) (?a + 64) bs" "nb_data ?nb = ?a + 64" "nb_head ?nb = ?a"
    "nb_tail ?nb = ?a + 64 + ucast n" "nb_end ?nb = ?a + (64 + ucast n)"
    using obj by (simp_all add: s2_def)
  have start: "wmi_cmd_start M U pInput cmdID n s = wmi_cmd_send M U p cmdID NO_SYNC_WMIFLAG s2"
  proof (cases "n = 0")
    case True
    then have "?nb = nbs s1 p" by (cases "nbs s1 p") simp
    then have "s2 = s1" using True len by (simp only: s2_def) simp
    with True alloc show ?thesis by (simp add: wmi_cmd_start_def)
  next
    case False
    then show ?thesis using alloc put obj src n
      by (simp add: wmi_cmd_start_def on_nb_def a_netbuf_to_data_def A_MEMCPY_def s2_def)
  qed
  have wf: "nb_wf (nbs s2 p)" using room n by (simp add: s2 nb_wf_def word_le_nat_alt)
  have "?a + 64 + ucast n - (?a + 64) = (ucast n :: u32)" by simp
  then have pb: "packet_bytes (mem s2) (nbs s2 p) = bs"
    using mem_bytes_mem_put [of bs "mem s1" "?a + 64"] len n unsigned_less [of n, where ?'a = nat]
    by (simp add: packet_bytes_def s2)
  have "tx_rep s2 xs = tx_rep s xs" by (rule tx_rep_cong) (use alloc(3) oth in \<open>auto simp: s2_def\<close>)
  then have rep2: "tx_rep s2 xs" using rep by simp
  have cs2: "creditSize s2 \<noteq> 0" using cs oth by (simp add: s2_def)
  have 1: "12 \<le> nb_data (nbs s2 p) - nb_head (nbs s2 p)" by (simp add: s2)
  have "mem_bytes (mem s2) (?a + 58) 6 = mem_bytes (mem s1) (?a + 58) 6"
    unfolding s2 using room len n block unat_offset [of ?a 58]
    by (intro mem_bytes_mem_put_before) (simp_all add: zeroed_block_def)
  then have 2: "mem_bytes (mem s2) (nb_data (nbs s2 p) - 6) 6 = [0, 0, 0, 0, 0, 0]" 
    using room(4) unfolding s2 add.commute [of ?a] by simp
  obtain s' where "wmi_cmd_send M U p cmdID NO_SYNC_WMIFLAG s2 = Some (A_OK, s')" "tx_rep s' (xs @ [p])"
    "t_epid (trans (nbs s' p)) = wmiControlEp s2"
    "drop 6 (packet_bytes (mem s') (nbs s' p)) = cmd_frame cmdID (WMI_SET_DEVICE_ID (le16 0 0) (deviceid s2)) [0, 0] bs"
    using cmd_send_run [OF rep2 alloc(2,3) rep(2) wf 1 cs2 2, of M U cmdID] pb by metis
  moreover have "WMI_SET_DEVICE_ID (le16 0 0) v = v AND 0xF" for v
    by (simp add: WMI_SET_DEVICE_ID_def WMI_GET_DEVICE_ID_def le16_def)
  ultimately show ?thesis using start oth by (simp add: s2_def)
qed

text \<open>The packet object at \<open>0x500\<close>, its bytes at \<open>0x1000\<close>; the command is a \<open>WMI_BEACON_INT_CMD\<close>.\<close>

definition cmd_heap :: "unit mqx" where
  "cmd_heap = \<lparr>mem_alloc_system_zero = (\<lambda>n m e. (if n = sizeof_A_NETBUF then 0x500 else 0x1000, m, e)),
     mem_free = (\<lambda>_ e. e), get_size = (\<lambda>_ _. 0), time_delay = (\<lambda>_ e. e), spi_set_mode = (\<lambda>e. (True, e)),
     spi_read_write = (\<lambda>_ bs e. (True, bs, e)), spi_fread = (\<lambda>n e. ([], e)), spi_fwrite = (\<lambda>bs e. (0, e)),
     spi_fflush = (\<lambda>e. e), gpio_irq = (\<lambda>_ e. e), gpio_power = (\<lambda>_ e. (True, e)), uninit_u32 = (\<lambda>_. 0)\<rparr>"

definition demo_cmd :: "unit drv" where
  "demo_cmd = (drv_zero ())\<lparr>mem := (\<lambda>a. if a < 0x1000 then 1 else 0), creditSize := 1500, wmiControlEp := 1, deviceid := 0x12\<rparr>"

theorem wmi_command_frame_witness:
  "\<exists>s'. wmi_cmd_start cmd_heap demo_upper 0x300 WMI_SET_BEACON_INT_CMDID 2 demo_cmd = Some (A_OK, s')
    \<and> drop 6 (packet_bytes (mem s') (nbs s' 0x500)) = [0x0f, 0, 2, 0, 0, 0, 1, 1]"
proof -
  obtain s1 where alloc: "a_netbuf_alloc cmd_heap (ucast (2 :: u16)) demo_cmd = (0x500, s1)"
    and m: "mem s1 = mem demo_cmd" "nb_head (nbs s1 0x500) = 0x1000"
    by (simp add: a_netbuf_alloc_def a_malloc_def qosal_malloc_def cmd_heap_def sizeof_A_NETBUF_def Let_def set_nb_def
        AR6000_DATA_OFFSET_def)
  have rep: "tx_rep demo_cmd []"
    by (simp add: tx_rep_def demo_cmd_def drv_zero_def queue_zero_def queue_rep_def queue_cap_def)
  have z: "zeroed_block (mem s1) (nb_head (nbs s1 0x500)) (ucast (2 :: u16))"
    unfolding zeroed_block_def m using unat_offset [of "0x1000"]
    by (intro conjI nth_equalityI) (auto simp: demo_cmd_def word_less_nat_alt)
  have src: "mem_bytes (mem s1) 0x300 (unat (2 :: u16)) = [1, 1]"
    by (simp add: m demo_cmd_def mem_bytes_def upt_rec)
  show ?thesis
    using wmi_command_frame [OF rep _ _ alloc _ _ z src, of demo_upper WMI_SET_BEACON_INT_CMDID]
    by (auto simp: queue_cap_def demo_cmd_def cmd_frame_def le16_bytes_of_def byte_of_def)
qed

end
