(* ===== verification/Wmi_Event.thy ===== *)
theory Wmi_Event
  imports Wmi_Cmd
begin

text \<open>
  The event path of the WMI layer, \<^verbatim>\<open>wmi_control_rx\<close> of \<^verbatim>\<open>common_src/wmi/wmi.c\<close>: an event's header
  is taken off, its length is tested, and the handler of its evid is called.

  A call of a handler (\<^verbatim>\<open>common_src/include/a_drv_api.h\<close> maps the macros to functions) is a value of the
  type \<open>wmi_call\<close>, with the arguments the code passes; \<open>H\<close> says what a handler does, and yields \<open>A_OK\<close> for
  a function without a result. The \<open>switch\<close> over the ids whose case is a single call is a table. Byte-order
  conversions in place change nothing on this host. \<open>A_WMI_EVENT\<close> is \<open>A_ERROR\<close>.
\<close>

section \<open>Calls of handlers\<close>

datatype packet_handler = Api_StoreRecallEvent | Api_StoreRecallStartEvent | Api_HostDsetStoreEvent
  | Api_HostDsetReadEvent | Api_HostDsetCreateEvent | Api_HostDsetWriteEvent | Api_HostDsetReadbackEvent
  | Api_HostDsetSyncEvent | Api_DsetOPEvent | Api_WpsProfileEvent | Api_SockResponseEventRx

datatype p2p_handler = p2p_list_persistent_network_event | p2p_go_neg_event | p2p_node_list_event | p2p_req_auth_event
  | get_p2p_ctx | get_p2p_prov_disc_req | get_p2p_serv_disc_req | p2p_invite_req_rx | p2p_invite_rcvd_result_ev
  | p2p_invite_sent_result_event

datatype data_handler = Api_BssInfoEvent | Api_TargetStatsEvent | Api_TestCmdEventRx | Api_RxDbglogEvent
  | Api_RxGpioDataEvent | Api_RxPfmDataEvent | Api_RxPfmDataDoneEvent | Api_RxHBChallengeEvent

datatype ptr_handler = Api_GetBitRateEvent | Api_GetPmkEvent | Api_AggrRecvAddbaReqEvent | Api_AggrRecvDelbaReqEvent

datatype reply_handler = Api_GetTemperatureReply | Api_GetCountryCodeReply | Api_ProbeReqEvent | Api_GetWpsInitReply

text \<open>The first five constructors are the calls of handlers with the same parameters: \<open>(devId, datap, len,
  osbuf)\<close>, \<open>(devId, datap, len)\<close> twice, \<open>(devId, datap)\<close> and \<open>(datap, len)\<close>.\<close>

datatype wmi_call =
    packet_call packet_handler u8 ptr u32 ptr
  | p2p_call p2p_handler u8 ptr u32
  | data_call data_handler u8 ptr u32
  | ptr_call ptr_handler u8 ptr
  | reply_call reply_handler ptr u32
  | Api_ChannelListEvent u8 u8 ptr
  | Api_GetSetParamReply ptr
  | Api_ReadyEvent u8 ptr u8 u32 u32
  | Api_ConnectEvent u8 u16 ptr u16 u16 u32 u8 u8 u8 ptr
  | Api_DisconnectEvent u8 u8 ptr u8 ptr u16
  | Api_RSNASuccessEvent u8 u8
  | Api_RegDomainEvent u8 u32
  | Api_ScanCompleteEvent u8 u32
  | Api_TkipMicErrorEvent u8 u8 u8

type_synonym 'e handlers = "wmi_call \<Rightarrow> 'e drv \<Rightarrow> (A_STATUS \<times> 'e drv) option"

section \<open>Event ids\<close>

abbreviation (input) WMI_GET_CHANNEL_LIST_CMDID :: u16 where "WMI_GET_CHANNEL_LIST_CMDID \<equiv> 0x000e"
abbreviation (input) WMI_GET_BITRATE_CMDID :: u16 where "WMI_GET_BITRATE_CMDID \<equiv> 0xf001"
abbreviation (input) WMI_READY_EVENTID :: u16 where "WMI_READY_EVENTID \<equiv> 0x1001"
abbreviation (input) WMI_CONNECT_EVENTID :: u16 where "WMI_CONNECT_EVENTID \<equiv> 0x1002"
abbreviation (input) WMI_DISCONNECT_EVENTID :: u16 where "WMI_DISCONNECT_EVENTID \<equiv> 0x1003"
abbreviation (input) WMI_BSSINFO_EVENTID :: u16 where "WMI_BSSINFO_EVENTID \<equiv> 0x1004"
abbreviation (input) WMI_CMDERROR_EVENTID :: u16 where "WMI_CMDERROR_EVENTID \<equiv> 0x1005"
abbreviation (input) WMI_REGDOMAIN_EVENTID :: u16 where "WMI_REGDOMAIN_EVENTID \<equiv> 0x1006"
abbreviation (input) WMI_TKIP_MICERR_EVENTID :: u16 where "WMI_TKIP_MICERR_EVENTID \<equiv> 0x1009"
abbreviation (input) WMI_SCAN_COMPLETE_EVENTID :: u16 where "WMI_SCAN_COMPLETE_EVENTID \<equiv> 0x100a"
abbreviation (input) WMI_REPORT_STATISTICS_EVENTID :: u16 where "WMI_REPORT_STATISTICS_EVENTID \<equiv> 0x100b"
abbreviation (input) WMI_EXTENSION_EVENTID :: u16 where "WMI_EXTENSION_EVENTID \<equiv> 0x1010"
abbreviation (input) WMI_TEST_EVENTID :: u16 where "WMI_TEST_EVENTID \<equiv> 0x1016"
abbreviation (input) WMI_PEER_NODE_EVENTID :: u16 where "WMI_PEER_NODE_EVENTID \<equiv> 0x101b"
abbreviation (input) WMI_ADDBA_REQ_EVENTID :: u16 where "WMI_ADDBA_REQ_EVENTID \<equiv> 0x1020"
abbreviation (input) WMI_DELBA_REQ_EVENTID :: u16 where "WMI_DELBA_REQ_EVENTID \<equiv> 0x1022"
abbreviation (input) WMI_GET_PMK_EVENTID :: u16 where "WMI_GET_PMK_EVENTID \<equiv> 0x102a"
abbreviation (input) WMI_RX_PROBE_REQ_EVENTID :: u16 where "WMI_RX_PROBE_REQ_EVENTID \<equiv> 0x900a"
abbreviation (input) WMI_STORERECALL_STORE_EVENTID :: u16 where "WMI_STORERECALL_STORE_EVENTID \<equiv> 0x9003"
abbreviation (input) WMI_WPS_PROFILE_EVENTID :: u16 where "WMI_WPS_PROFILE_EVENTID \<equiv> 0x900f"
abbreviation (input) WMI_SOCKET_RESPONSE_EVENTID :: u16 where "WMI_SOCKET_RESPONSE_EVENTID \<equiv> 0x9016"
abbreviation (input) WMI_HOST_DSET_STORE_EVENTID :: u16 where "WMI_HOST_DSET_STORE_EVENTID \<equiv> 0x9031"
abbreviation (input) WMI_HOST_DSET_READ_EVENTID :: u16 where "WMI_HOST_DSET_READ_EVENTID \<equiv> 0x9032"
abbreviation (input) WMI_STORERECALL_START_EVENTID :: u16 where "WMI_STORERECALL_START_EVENTID \<equiv> 0x9033"
abbreviation (input) WMI_HOST_DSET_CREATE_EVENTID :: u16 where "WMI_HOST_DSET_CREATE_EVENTID \<equiv> 0x9038"
abbreviation (input) WMI_HOST_DSET_LARGE_WRITE_EVENTID :: u16 where "WMI_HOST_DSET_LARGE_WRITE_EVENTID \<equiv> 0x9039"
abbreviation (input) WMI_HOST_DSET_LARGE_READ_EVENTID :: u16 where "WMI_HOST_DSET_LARGE_READ_EVENTID \<equiv> 0x903a"
abbreviation (input) WMI_HOST_DSET_SYNC_EVENTID :: u16 where "WMI_HOST_DSET_SYNC_EVENTID \<equiv> 0x903b"
abbreviation (input) WMI_DSET_OP_EVENTID :: u16 where "WMI_DSET_OP_EVENTID \<equiv> 0x903c"
abbreviation (input) WMI_GET_TEMPERATURE_REPLY_EVENTID :: u16 where "WMI_GET_TEMPERATURE_REPLY_EVENTID \<equiv> 0x903d"
abbreviation (input) WMI_PARAM_SET_REPLY_EVENTID :: u16 where "WMI_PARAM_SET_REPLY_EVENTID \<equiv> 0x903e"
abbreviation (input) WMI_GET_COUNTRY_CODE_REPLY_EVENTID :: u16 where "WMI_GET_COUNTRY_CODE_REPLY_EVENTID \<equiv> 0x9040"
abbreviation (input) WMI_WLAN_WPS_INIT_KEY_EVENTID :: u16 where "WMI_WLAN_WPS_INIT_KEY_EVENTID \<equiv> 0x9041"
abbreviation (input) WMI_P2P_GO_NEG_RESULT_EVENTID :: u16 where "WMI_P2P_GO_NEG_RESULT_EVENTID \<equiv> 0x1036"
abbreviation (input) WMI_P2P_INVITE_REQ_EVENTID :: u16 where "WMI_P2P_INVITE_REQ_EVENTID \<equiv> 0x103e"
abbreviation (input) WMI_P2P_INVITE_RCVD_RESULT_EVENTID :: u16 where "WMI_P2P_INVITE_RCVD_RESULT_EVENTID \<equiv> 0x103f"
abbreviation (input) WMI_P2P_INVITE_SENT_RESULT_EVENTID :: u16 where "WMI_P2P_INVITE_SENT_RESULT_EVENTID \<equiv> 0x1040"
abbreviation (input) WMI_P2P_PROV_DISC_RESP_EVENTID :: u16 where "WMI_P2P_PROV_DISC_RESP_EVENTID \<equiv> 0x1041"
abbreviation (input) WMI_P2P_PROV_DISC_REQ_EVENTID :: u16 where "WMI_P2P_PROV_DISC_REQ_EVENTID \<equiv> 0x1042"
abbreviation (input) WMI_P2P_SDPD_RX_EVENTID :: u16 where "WMI_P2P_SDPD_RX_EVENTID \<equiv> 0x1046"
abbreviation (input) WMI_P2P_NODE_LIST_EVENTID :: u16 where "WMI_P2P_NODE_LIST_EVENTID \<equiv> 0x901a"
abbreviation (input) WMI_P2P_REQ_TO_AUTH_EVENTID :: u16 where "WMI_P2P_REQ_TO_AUTH_EVENTID \<equiv> 0x901b"
abbreviation (input) WMI_P2P_LIST_PERSISTENT_NETWORK_EVENTID :: u16 where "WMI_P2P_LIST_PERSISTENT_NETWORK_EVENTID \<equiv> 0x9030"

text \<open>The minimal length of an event: the first matching entry of \<open>length_array\<close>.\<close>

definition length_array :: "(u16 \<times> u16) list" where
  "length_array = [(WMI_BSSINFO_EVENTID, 16), (WMI_CONNECT_EVENTID, 20), (WMI_GET_CHANNEL_LIST_CMDID, 4),
     (WMI_READY_EVENTID, 15), (WMI_DISCONNECT_EVENTID, 11), (WMI_BSSINFO_EVENTID, 16), (WMI_REGDOMAIN_EVENTID, 4),
     (WMI_GET_PMK_EVENTID, 32), (WMI_TKIP_MICERR_EVENTID, 2), (WMI_PEER_NODE_EVENTID, 7)]"

definition wmi_test_ev_length :: "u16 \<Rightarrow> u32 \<Rightarrow> A_STATUS" where
  "wmi_test_ev_length evid len = (case map_of length_array evid of
       Some n \<Rightarrow> if sint len < uint n then A_ERROR else A_OK
     | None \<Rightarrow> A_OK)"

text \<open>The cases of the \<open>switch\<close> that are a call of one handler, for the event at \<open>d\<close>. The \<open>wmi_p2p\<close>
  functions declare their length \<open>QOSAL_UINT8\<close>.\<close>

definition event_calls :: "u8 \<Rightarrow> memory \<Rightarrow> ptr \<Rightarrow> u32 \<Rightarrow> ptr \<Rightarrow> (u16 \<times> wmi_call) list" where
  "event_calls devId m d len osbuf = [
     (WMI_GET_CHANNEL_LIST_CMDID, Api_ChannelListEvent devId (m (d + 1)) (d + 2)),
     (WMI_GET_BITRATE_CMDID, ptr_call Api_GetBitRateEvent devId d),
     (WMI_GET_TEMPERATURE_REPLY_EVENTID, reply_call Api_GetTemperatureReply d len),
     (WMI_GET_COUNTRY_CODE_REPLY_EVENTID, reply_call Api_GetCountryCodeReply d len),
     (WMI_PARAM_SET_REPLY_EVENTID, Api_GetSetParamReply d),
     (WMI_READY_EVENTID, Api_ReadyEvent devId (d + 8) (m (d + 14)) (mem32 m d) (mem32 m (d + 4))),
     (WMI_CONNECT_EVENTID, Api_ConnectEvent devId (mem16 m d) (d + 2) (mem16 m (d + 8)) (mem16 m (d + 10))
        (mem32 m (d + 12)) (m (d + 16)) (m (d + 17)) (m (d + 18)) (d + 19)),
     (WMI_DISCONNECT_EVENTID, Api_DisconnectEvent devId (m (d + 8)) (d + 2) (m (d + 9)) (d + 10) (mem16 m d)),
     (WMI_REGDOMAIN_EVENTID, Api_RegDomainEvent devId (mem32 m d)),
     (WMI_SCAN_COMPLETE_EVENTID, Api_ScanCompleteEvent devId (mem32 m d)),
     (WMI_REPORT_STATISTICS_EVENTID, data_call Api_TargetStatsEvent devId d len),
     (WMI_GET_PMK_EVENTID, ptr_call Api_GetPmkEvent devId d),
     (WMI_STORERECALL_STORE_EVENTID, packet_call Api_StoreRecallEvent devId d len osbuf),
     (WMI_STORERECALL_START_EVENTID, packet_call Api_StoreRecallStartEvent devId d len osbuf),
     (WMI_HOST_DSET_STORE_EVENTID, packet_call Api_HostDsetStoreEvent devId d len osbuf),
     (WMI_HOST_DSET_READ_EVENTID, packet_call Api_HostDsetReadEvent devId d len osbuf),
     (WMI_HOST_DSET_CREATE_EVENTID, packet_call Api_HostDsetCreateEvent devId d len osbuf),
     (WMI_HOST_DSET_LARGE_WRITE_EVENTID, packet_call Api_HostDsetWriteEvent devId d len osbuf),
     (WMI_HOST_DSET_LARGE_READ_EVENTID, packet_call Api_HostDsetReadbackEvent devId d len osbuf),
     (WMI_HOST_DSET_SYNC_EVENTID, packet_call Api_HostDsetSyncEvent devId d len osbuf),
     (WMI_DSET_OP_EVENTID, packet_call Api_DsetOPEvent devId d len osbuf),
     (WMI_WPS_PROFILE_EVENTID, packet_call Api_WpsProfileEvent devId d len osbuf),
     (WMI_ADDBA_REQ_EVENTID, ptr_call Api_AggrRecvAddbaReqEvent devId d),
     (WMI_DELBA_REQ_EVENTID, ptr_call Api_AggrRecvDelbaReqEvent devId d),
     (WMI_TKIP_MICERR_EVENTID, Api_TkipMicErrorEvent devId (m d) (m (d + 1))),
     (WMI_SOCKET_RESPONSE_EVENTID, packet_call Api_SockResponseEventRx devId d len osbuf),
     (WMI_P2P_LIST_PERSISTENT_NETWORK_EVENTID, p2p_call p2p_list_persistent_network_event devId d (ucast (ucast len :: u8))),
     (WMI_P2P_GO_NEG_RESULT_EVENTID, p2p_call p2p_go_neg_event devId d (ucast (ucast len :: u8))),
     (WMI_P2P_NODE_LIST_EVENTID, p2p_call p2p_node_list_event devId d len),
     (WMI_P2P_REQ_TO_AUTH_EVENTID, p2p_call p2p_req_auth_event devId d len),
     (WMI_P2P_PROV_DISC_RESP_EVENTID, p2p_call get_p2p_ctx devId d (ucast (ucast len :: u8))),
     (WMI_P2P_PROV_DISC_REQ_EVENTID, p2p_call get_p2p_prov_disc_req devId d (ucast (ucast len :: u8))),
     (WMI_P2P_INVITE_REQ_EVENTID, p2p_call p2p_invite_req_rx devId d (ucast (ucast len :: u8))),
     (WMI_P2P_INVITE_RCVD_RESULT_EVENTID, p2p_call p2p_invite_rcvd_result_ev devId d (ucast (ucast len :: u8))),
     (WMI_P2P_INVITE_SENT_RESULT_EVENTID, p2p_call p2p_invite_sent_result_event devId d (ucast (ucast len :: u8))),
     (WMI_P2P_SDPD_RX_EVENTID, p2p_call get_p2p_serv_disc_req devId d (ucast (ucast len :: u8))),
     (WMI_TEST_EVENTID, data_call Api_TestCmdEventRx devId d len),
     (WMI_RX_PROBE_REQ_EVENTID, reply_call Api_ProbeReqEvent d len),
     (WMI_WLAN_WPS_INIT_KEY_EVENTID, reply_call Api_GetWpsInitReply d len)]"

section \<open>Receiving an event\<close>

definition call_only :: "'e handlers \<Rightarrow> wmi_call \<Rightarrow> 'e drv \<Rightarrow> 'e drv option" where
  "call_only H c s = do {(_, s) \<leftarrow> H c s; Some s}"

abbreviation (input) sizeof_WMIX_CMD_HDR :: u32 where "sizeof_WMIX_CMD_HDR \<equiv> 4"

text \<open>Extended events carry a 32-bit id of their own, of which the low half counts.\<close>

definition xtnd_calls :: "u8 \<Rightarrow> ptr \<Rightarrow> u32 \<Rightarrow> (u16 \<times> wmi_call) list" where
  "xtnd_calls devId d len = [(0x3008, data_call Api_RxDbglogEvent devId d len), (0x3005, data_call Api_RxGpioDataEvent devId d len),
     (0x300C, data_call Api_RxPfmDataEvent devId d len), (0x300D, data_call Api_RxPfmDataDoneEvent devId d len),
     (0x3007, data_call Api_RxHBChallengeEvent devId d len)]"

definition wmi_control_rx_xtnd :: "'e handlers \<Rightarrow> u8 \<Rightarrow> ptr \<Rightarrow> 'e drv \<Rightarrow> (A_STATUS \<times> 'e drv) option" where
  "wmi_control_rx_xtnd H devId osbuf s =
     (if nb_len osbuf s < sizeof_WMIX_CMD_HDR then Some (A_ERROR, s\<lparr>cmd_len_err := cmd_len_err s + 1\<rparr>)
      else
        let evid = ucast (mem32 (mem s) (a_netbuf_to_data (nbs s osbuf))) in do {
          s \<leftarrow> on_nb osbuf (\<lambda>nb. a_netbuf_pull nb sizeof_WMIX_CMD_HDR) s;
          let datap = a_netbuf_to_data (nbs s osbuf);
          let len = nb_len osbuf s;
          case map_of (xtnd_calls devId datap len) evid of
            Some c \<Rightarrow> do {s \<leftarrow> call_only H c s; Some (A_OK, s)}
          | None \<Rightarrow> Some (A_ERROR, s\<lparr>cmd_id_err := cmd_id_err s + 1\<rparr>)})"

abbreviation (input) STACK_ERROR :: u8 where "STACK_ERROR \<equiv> 4"

definition wmi_errorEvent_rx :: "ptr \<Rightarrow> 'e drv \<Rightarrow> (A_STATUS \<times> 'e drv) option" where
  "wmi_errorEvent_rx datap s = do {
     A_ASSERT (mem s (datap + 2) \<noteq> STACK_ERROR);
     Some (A_OK, s)}"

text \<open>The 16 bytes of a \<open>WMI_BSS_INFO_HDR\<close>, made of the 12 bytes of a \<open>WMI_BSS_INFO_HDR2\<close> at an address.\<close>

definition bss_info_hdr :: "memory \<Rightarrow> ptr \<Rightarrow> u8 list" where
  "bss_info_hdr m d = (let snr = m (d + 3) in
     le16_bytes_of (mem16 m d) @ [m (d + 2), snr] @ le16_bytes_of (ucast snr - 95)
       @ mem_bytes m (d + 4) 6 @ le32_bytes_of (ucast (mem16 m (d + 10))))"

definition bss_info_event :: "'e handlers \<Rightarrow> u8 \<Rightarrow> ptr \<Rightarrow> ptr \<Rightarrow> 'e drv \<Rightarrow> 'e drv option" where
  "bss_info_event H devId datap osbuf s = (
     let hdr = bss_info_hdr (mem s) datap; rss = ucast (mem s (datap + 3)) - 95 :: u16 in do {
       s \<leftarrow> on_nb osbuf (\<lambda>nb. a_netbuf_push nb 4) s;
       let datap = a_netbuf_to_data (nbs s osbuf);
       let len = nb_len osbuf s;
       let s = s\<lparr>mem := mem_put (mem s) datap hdr\<rparr>;
       if sint rss \<le> 0 then call_only H (data_call Api_BssInfoEvent devId datap len) s else Some s})"

abbreviation (input) PEER_NODE_JOIN_EVENT :: u8 where "PEER_NODE_JOIN_EVENT \<equiv> 0"
abbreviation (input) PEER_FIRST_NODE_JOIN_EVENT :: u8 where "PEER_FIRST_NODE_JOIN_EVENT \<equiv> 0x10"

text \<open>The \<open>switch\<close>: the status, and \<open>spareBuf\<close>, whether the handler keeps the packet.\<close>

definition wmi_event :: "'e handlers \<Rightarrow> u16 \<Rightarrow> u8 \<Rightarrow> ptr \<Rightarrow> 'e drv \<Rightarrow> (A_STATUS \<times> bool \<times> 'e drv) option" where
  "wmi_event H evid devId osbuf s = (
     let datap = a_netbuf_to_data (nbs s osbuf); len = nb_len osbuf s in
     case map_of (event_calls devId (mem s) datap len osbuf) evid of
       Some c \<Rightarrow> do {
         (status, s) \<leftarrow> H c s;
         Some (if evid = WMI_SOCKET_RESPONSE_EVENTID then status else A_OK,
               evid = WMI_WPS_PROFILE_EVENTID \<or> evid = WMI_SOCKET_RESPONSE_EVENTID, s)}
     | None \<Rightarrow>
         if evid = WMI_PEER_NODE_EVENTID then do {
           s \<leftarrow> (if mem s datap = PEER_NODE_JOIN_EVENT
                 then call_only H (Api_RSNASuccessEvent devId PEER_FIRST_NODE_JOIN_EVENT) s else Some s);
           Some (A_OK, False, s)}
         else if evid = WMI_BSSINFO_EVENTID then do {s \<leftarrow> bss_info_event H devId datap osbuf s; Some (A_OK, False, s)}
         else if evid = WMI_CMDERROR_EVENTID then do {(status, s) \<leftarrow> wmi_errorEvent_rx datap s; Some (status, False, s)}
         else if evid = WMI_EXTENSION_EVENTID then do {(status, s) \<leftarrow> wmi_control_rx_xtnd H devId osbuf s; Some (status, False, s)}
         else Some (A_ERROR, False, s\<lparr>cmd_id_err := cmd_id_err s + 1\<rparr>))"

definition wmi_control_rx :: "'e mqx \<Rightarrow> 'e upper \<Rightarrow> 'e handlers \<Rightarrow> ptr \<Rightarrow> 'e drv \<Rightarrow> (A_STATUS \<times> 'e drv) option" where
  "wmi_control_rx M U H osbuf s = do {
     A_ASSERT (osbuf \<noteq> NULL);
     if nb_len osbuf s < sizeof_WMI_CMD_HDR then
       let s = a_netbuf_free M U osbuf s in Some (A_ERROR, s\<lparr>cmd_len_err := cmd_len_err s + 1\<rparr>)
     else
       let cmd = a_netbuf_to_data (nbs s osbuf); evid = mem16 (mem s) cmd;
           devId = ucast (WMI_GET_DEVICE_ID (mem16 (mem s) (cmd + 2))) in do {
         s \<leftarrow> on_nb osbuf (\<lambda>nb. a_netbuf_pull nb sizeof_WMI_CMD_HDR) s;
         A_ASSERT (wmi_test_ev_length evid (nb_len osbuf s) = A_OK);
         (status, spareBuf, s) \<leftarrow> wmi_event H evid devId osbuf s;
         Some (status, if \<not> spareBuf then a_netbuf_free M U osbuf s else s)}}"

section \<open>From the bytes of an event to the call\<close>

lemma test_ev_length_ok: "map_of length_array evid = Some n \<Longrightarrow> unat n \<le> k \<Longrightarrow> k < 2 ^ 31 \<Longrightarrow>
    wmi_test_ev_length evid (of_nat k) = A_OK"
  using signed_take_bit_int_eq_self [of 31 "int k"] zle_int [of "unat n" k]
  by (simp add: wmi_test_ev_length_def signed_of_nat not_less)

lemma event_pulled:
  fixes s :: "'e drv"
  assumes p: "p \<noteq> NULL" "nb_wf (nbs s p)" "num_frags (nbs s p) = 0"
    and frame: "packet_bytes (mem s) (nbs s p) = cmd_frame evid info rsvd bs" "length rsvd = 2"
    and ok: "wmi_test_ev_length evid (of_nat (length bs)) = A_OK"
  defines "s1 \<equiv> s\<lparr>nbs := (nbs s)(p := (nbs s p)\<lparr>nb_data := nb_data (nbs s p) + 6\<rparr>)\<rparr>"
  shows "wmi_control_rx M U H p s = do {
      (status, spareBuf, s) \<leftarrow> wmi_event H evid (ucast (WMI_GET_DEVICE_ID info)) p s1;
      Some (status, if \<not> spareBuf then a_netbuf_free M U p s else s)}"
    and "packet_bytes (mem s1) (nbs s1 p) = bs" and "nb_wf (nbs s1 p)" and "nb_len p s1 = of_nat (length bs)"
proof -
  let ?nb = "nbs s p" and ?fr = "cmd_frame evid info rsvd bs"
  have len: "length (packet_bytes (mem s) ?nb) = 6 + length bs" using frame by (simp add: cmd_frame_def)
  have six: "6 \<le> nb_tail ?nb - nb_data ?nb" using len by (simp add: length_packet_bytes word_le_nat_alt)
  have pull: "a_netbuf_pull ?nb 6 = Some (?nb\<lparr>nb_data := nb_data ?nb + 6\<rparr>)"
    using six by (simp add: a_netbuf_pull_def not_less)
  have pb: "packet_bytes (mem s) (?nb\<lparr>nb_data := nb_data ?nb + 6\<rparr>) = bs"
    using packet_bytes_pull [OF pull, of "mem s"] frame by (simp add: cmd_frame_def)
  then show "packet_bytes (mem s1) (nbs s1 p) = bs" by (simp add: s1_def)
  show "nb_wf (nbs s1 p)" using a_netbuf_pull_wf [OF p(2) pull] by (simp add: s1_def)
  have n1: "nb_len p s1 = of_nat (length bs)"
    using p(3) length_packet_bytes [of "mem s" "?nb\<lparr>nb_data := nb_data ?nb + 6\<rparr>"] pb
    by (simp add: nb_len_single s1_def)
  then show "nb_len p s1 = of_nat (length bs)" .
  have ids: "mem16 (mem s) (nb_data ?nb) = evid" "mem16 (mem s) (nb_data ?nb + 2) = info"
    using packet_mem16 [of 0 "mem s" ?nb] packet_mem16 [of 2 "mem s" ?nb]
    by (simp_all add: frame cmd_frame_def le16_bytes_of_def nth_append)
  show "wmi_control_rx M U H p s = do {
      (status, spareBuf, s) \<leftarrow> wmi_event H evid (ucast (WMI_GET_DEVICE_ID info)) p s1;
      Some (status, if \<not> spareBuf then a_netbuf_free M U p s else s)}"
    using p ids ok n1 six [folded not_less]
    by (simp add: wmi_control_rx_def a_netbuf_to_data_def on_nb_def pull s1_def nb_len_single)
qed

text \<open>The bytes of a connect event.\<close>

definition connect_bytes :: "u16 \<Rightarrow> u8 list \<Rightarrow> u16 \<Rightarrow> u16 \<Rightarrow> u32 \<Rightarrow> u8 \<Rightarrow> u8 \<Rightarrow> u8 \<Rightarrow> u8 list \<Rightarrow> u8 list" where
  "connect_bytes ch bssid li bi nt beaconIe assocReq assocResp assocInfo =
     le16_bytes_of ch @ bssid @ le16_bytes_of li @ le16_bytes_of bi @ le32_bytes_of nt
       @ [beaconIe, assocReq, assocResp] @ assocInfo"

lemma packet_has: "mem_has m (nb_data nb) (packet_bytes m nb)"
  by (simp add: mem_has_def packet_bytes_def)

text \<open>C24. A connect event is decoded field by field. For a packet that holds a command header and the bytes of
  a connect event, \<open>wmi_control_rx\<close> calls the connect handler once, with the device id of the header
  and the channel, intervals, network type and lengths of the event, pointers to the event's BSSID and to its
  association info, and then frees the packet.\<close>

theorem connect_event_roundtrip:
  fixes s :: "'e drv"
  assumes p: "p \<noteq> NULL" "nb_wf (nbs s p)" "num_frags (nbs s p) = 0"
    and frame: "packet_bytes (mem s) (nbs s p) = cmd_frame WMI_CONNECT_EVENTID info rsvd
        (connect_bytes ch bssid li bi nt bl ql rl assoc)" "length rsvd = 2"
    and len: "length bssid = 6" "1 \<le> length assoc" "length assoc < 2 ^ 16"
  shows "\<exists>s1 d. mem s1 = mem s \<and> mem_has (mem s1) (d + 2) bssid \<and> mem_has (mem s1) (d + 19) assoc
    \<and> wmi_control_rx M U H p s = do {
        (_, s) \<leftarrow> H (Api_ConnectEvent (ucast (info AND 0xF)) ch (d + 2) li bi nt bl ql rl (d + 19)) s1;
        Some (A_OK, a_netbuf_free M U p s)}"
proof -
  let ?bs = "connect_bytes ch bssid li bi nt bl ql rl assoc"
  let ?s1 = "s\<lparr>nbs := (nbs s)(p := (nbs s p)\<lparr>nb_data := nb_data (nbs s p) + 6\<rparr>)\<rparr>"
  let ?d = "nb_data (nbs s p) + 6"
  have ok: "wmi_test_ev_length WMI_CONNECT_EVENTID (of_nat (length ?bs)) = A_OK"
    by (rule test_ev_length_ok [of _ 20]) (use len in \<open>simp_all add: length_array_def connect_bytes_def\<close>)
  note pulled = event_pulled [OF p frame ok]
  have "mem_has (mem s) ?d ?bs" using packet_has [of "mem s" "nbs ?s1 p"] pulled(2) by simp
  then have has: "mem_has (mem s) ?d (le16_bytes_of ch)" "mem_has (mem s) (?d + 2) bssid"
    "mem_has (mem s) (?d + 8) (le16_bytes_of li)" "mem_has (mem s) (?d + 10) (le16_bytes_of bi)"
    "mem_has (mem s) (?d + 12) (le32_bytes_of nt)" "mem s (?d + 16) = bl" "mem s (?d + 17) = ql" "mem s (?d + 18) = rl"
    "mem_has (mem s) (?d + 19) assoc"
    using len by (simp_all add: connect_bytes_def add.assoc)
  note vals = has(1,3,4) [THEN mem_has_le16] has(5) [THEN mem_has_le32] has(6-8)
  have "wmi_event H WMI_CONNECT_EVENTID (ucast (WMI_GET_DEVICE_ID info)) p ?s1 = do {
      (_, s) \<leftarrow> H (Api_ConnectEvent (ucast (info AND 0xF)) ch (?d + 2) li bi nt bl ql rl (?d + 19)) ?s1;
      Some (A_OK, False, s)}"
    using vals by (simp add: wmi_event_def event_calls_def a_netbuf_to_data_def WMI_GET_DEVICE_ID_def)
  then have "wmi_control_rx M U H p s = do {
      (_, s) \<leftarrow> H (Api_ConnectEvent (ucast (info AND 0xF)) ch (?d + 2) li bi nt bl ql rl (?d + 19)) ?s1;
      Some (A_OK, a_netbuf_free M U p s)}"
    unfolding pulled(1)
    by (cases "H (Api_ConnectEvent (ucast (info AND 0xF)) ch (?d + 2) li bi nt bl ql rl (?d + 19)) ?s1") auto
  with has show ?thesis by (intro exI [of _ ?s1] exI [of _ ?d]) simp
qed

lemma rssi_sign: "sint (ucast snr - 95 :: u16) \<le> 0 \<longleftrightarrow> snr \<le> 95" for snr :: u8
proof -
  have lt: "uint snr < 256" using unsigned_less [of snr, where ?'a = int] by simp
  have eq: "(ucast snr - 95 :: u16) = word_of_int (uint snr - 95)"
    by (simp only: ucast_eq of_int_diff of_int_numeral)
  have "signed_take_bit 15 (uint snr - 95) = uint snr - 95"
    using lt uint_ge_0 [of snr] by (intro signed_take_bit_int_eq_self) simp_all
  then have "sint (ucast snr - 95 :: u16) = uint snr - 95" unfolding eq signed_of_int by simp
  then show ?thesis by (simp add: word_le_def)
qed

text \<open>C26. The BSS-info event. The chip sends a 12-byte header with the signal-to-noise ratio;
  \<open>wmi_control_rx\<close> puts the 16-byte header in its place that the scan code reads, growing the packet to the front: the
  header has the RSSI (the SNR less 95) and a wider element mask, and the beacon behind it is not touched. The handler
  sees exactly these bytes, and is not called for an SNR above 95.\<close>

theorem bss_info_converted:
  fixes s :: "'e drv"
  assumes p: "p \<noteq> NULL" "nb_wf (nbs s p)" "num_frags (nbs s p) = 0"
    and frame: "packet_bytes (mem s) (nbs s p) = cmd_frame WMI_BSSINFO_EVENTID info rsvd
        (le16_bytes_of ch @ [ft, snr] @ bssid @ le16_bytes_of ieMask @ body)" "length rsvd = 2"
    and len: "length bssid = 6" "4 \<le> length body" "length body < 2 ^ 16"
  shows "\<exists>s1. packet_bytes (mem s1) (nbs s1 p) =
        le16_bytes_of ch @ [ft, snr] @ le16_bytes_of (ucast snr - 95) @ bssid @ le32_bytes_of (ucast ieMask) @ body
    \<and> wmi_control_rx M U H p s = do {
        s \<leftarrow> (if snr \<le> 95 then call_only H (data_call Api_BssInfoEvent (ucast (info AND 0xF))
                (nb_data (nbs s1 p)) (of_nat (16 + length body))) s1 else Some s1);
        Some (A_OK, a_netbuf_free M U p s)}"
proof -
  let ?bs = "le16_bytes_of ch @ [ft, snr] @ bssid @ le16_bytes_of ieMask @ body"
  let ?s1 = "s\<lparr>nbs := (nbs s)(p := (nbs s p)\<lparr>nb_data := nb_data (nbs s p) + 6\<rparr>)\<rparr>"
  let ?d = "nb_data (nbs s p) + 6"
  let ?hdr = "le16_bytes_of ch @ [ft, snr] @ le16_bytes_of (ucast snr - 95) @ bssid @ le32_bytes_of (ucast ieMask)"
  have ok: "wmi_test_ev_length WMI_BSSINFO_EVENTID (of_nat (length ?bs)) = A_OK"
    by (rule test_ev_length_ok [of _ 16]) (use len in \<open>simp_all add: length_array_def\<close>)
  note pulled = event_pulled [OF p frame ok]
  have "mem_has (mem s) ?d ?bs" using packet_has [of "mem s" "nbs ?s1 p"] pulled(2) by simp
  then have has: "mem_has (mem s) ?d (le16_bytes_of ch)" "mem s (?d + 2) = ft" "mem s (?d + 3) = snr"
    "mem_has (mem s) (?d + 4) bssid" "mem_has (mem s) (?d + 10) (le16_bytes_of ieMask)"
    using len by (simp_all add: add.assoc)
  then have hdr: "bss_info_hdr (mem s) ?d = ?hdr"
    using mem_has_le16 [OF has(1)] mem_has_le16 [OF has(5)] len by (simp add: bss_info_hdr_def mem_has_def)
  let ?nb = "nbs ?s1 p"
  define nb2 where "nb2 = (nbs s p)\<lparr>nb_data := ?d - 4\<rparr>"
  have nb2: "nb_data nb2 = ?d - 4" by (simp add: nb2_def)
  have six: "6 \<le> nb_tail (nbs s p) - nb_data (nbs s p)"
    using arg_cong [OF frame(1), of length] by (simp add: length_packet_bytes word_le_nat_alt cmd_frame_def)
  then have "nb_data (nbs s p) \<le> ?d" "unat ?d = unat (nb_data (nbs s p)) + 6"
    using p(2) word_plus_le [of "nb_data (nbs s p)" "nb_tail (nbs s p)" 6] by (auto simp: nb_wf_def)
  then have "4 \<le> ?d - nb_head (nbs s p)"
    using p(2) by (auto simp: nb_wf_def word_le_nat_alt unat_diff_word)
  then have push: "a_netbuf_push ?nb 4 = Some nb2" by (simp add: a_netbuf_push_def not_less nb2_def)
  have pb: "packet_bytes (mem s) nb2 = mem_bytes (mem s) (?d - 4) 4 @ ?bs"
    using push_bytes [OF pulled(3) push, of "mem s"] pulled(2) by (simp add: nb2)
  define s2 where "s2 = ?s1\<lparr>nbs := (nbs ?s1)(p := nb2), mem := mem_put (mem s) (?d - 4) ?hdr\<rparr>"
  have pb2: "packet_bytes (mem s2) (nbs s2 p) = ?hdr @ body"
    using put_front [of ?hdr "mem s" nb2] len by (simp add: pb s2_def nb2)
  have "nb_len p s2 = of_nat (length (packet_bytes (mem s2) (nbs s2 p)))"
    using p(3) by (simp add: nb_len_single s2_def length_packet_bytes nb2_def)
  then have n2: "nb_len p s2 = of_nat (16 + length body)" unfolding pb2 using len by simp
  have "bss_info_event H (ucast (info AND 0xF)) ?d p ?s1 =
     (if snr \<le> 95 then call_only H (data_call Api_BssInfoEvent (ucast (info AND 0xF)) (nb_data (nbs s2 p))
        (of_nat (16 + length body))) s2 else Some s2)"
    using push n2 rssi_sign [of snr] has(3) hdr
    by (simp add: bss_info_event_def on_nb_def a_netbuf_to_data_def s2_def nb_len_def Let_def nb2)
  then have "wmi_event H WMI_BSSINFO_EVENTID (ucast (WMI_GET_DEVICE_ID info)) p ?s1 = do {
      s \<leftarrow> (if snr \<le> 95 then call_only H (data_call Api_BssInfoEvent (ucast (info AND 0xF)) (nb_data (nbs s2 p))
        (of_nat (16 + length body))) s2 else Some s2); Some (A_OK, False, s)}"
    by (simp add: wmi_event_def event_calls_def a_netbuf_to_data_def WMI_GET_DEVICE_ID_def)
  then have "wmi_control_rx M U H p s = do {
      s \<leftarrow> (if snr \<le> 95 then call_only H (data_call Api_BssInfoEvent (ucast (info AND 0xF)) (nb_data (nbs s2 p))
        (of_nat (16 + length body))) s2 else Some s2); Some (A_OK, a_netbuf_free M U p s)}"
    unfolding pulled(1) by simp
  with pb2 show ?thesis by (intro exI [of _ s2]) simp
qed

section \<open>Whose packet it is\<close>

text \<open>A receive buffer that is in hand: from the pool, and not in the free queue, which holds \<open>xs\<close>.\<close>

definition in_hand :: "ptr \<Rightarrow> ptr list \<Rightarrow> 'e drv \<Rightarrow> bool" where
  "in_hand p xs s \<longleftrightarrow> p \<noteq> NULL \<and> p \<notin> set xs \<and> length xs < queue_cap \<and> rxfree_rep s xs \<and> rxPoolID (nbs s p) \<noteq> 0"

fun keeps_packet :: "wmi_call \<Rightarrow> bool" where
  "keeps_packet (packet_call h _ _ _ _) \<longleftrightarrow> h = Api_WpsProfileEvent \<or> h = Api_SockResponseEventRx"
| "keeps_packet _ \<longleftrightarrow> False"

definition handlers_borrow :: "'e handlers \<Rightarrow> ptr \<Rightarrow> ptr list \<Rightarrow> bool" where
  "handlers_borrow H p xs \<longleftrightarrow>
     (\<forall>c s st s'. H c s = Some (st, s') \<longrightarrow> \<not> keeps_packet c \<longrightarrow> in_hand p xs s \<longrightarrow> in_hand p xs s')"

lemma handlers_borrowD:
  "handlers_borrow H p xs \<Longrightarrow> H c s = Some (st, s') \<Longrightarrow> \<not> keeps_packet c \<Longrightarrow> in_hand p xs s \<Longrightarrow> in_hand p xs s'"
  by (simp add: handlers_borrow_def)

lemma call_only_in_hand:
  "handlers_borrow H p xs \<Longrightarrow> call_only H c s = Some s' \<Longrightarrow> \<not> keeps_packet c \<Longrightarrow> in_hand p xs s \<Longrightarrow> in_hand p xs s'"
  by (auto simp: call_only_def bind_eq_Some_conv dest: handlers_borrowD)

lemma rxfree_rep_other:
  assumes "p \<notin> set xs"
  shows "rxfree_rep (s\<lparr>nbs := (nbs s)(p := nb)\<rparr>) xs = rxfree_rep s xs"
proof -
  have "linked ((nbs s)(p := nb)) (q_head (rxFreeQueue s)) xs = linked (nbs s) (q_head (rxFreeQueue s)) xs"
    by (rule linked_cong) (use assms in auto)
  then show ?thesis by (simp add: rxfree_rep_def queue_rep_def)
qed

lemma in_hand_frame [simp]:
  "in_hand p xs (s\<lparr>mem := m\<rparr>) = in_hand p xs s" "in_hand p xs (s\<lparr>cmd_len_err := n\<rparr>) = in_hand p xs s"
  "in_hand p xs (s\<lparr>cmd_id_err := n\<rparr>) = in_hand p xs s"
  by (simp_all add: in_hand_def rxfree_rep_def)

lemma pull_in_hand: "on_nb p (\<lambda>nb. a_netbuf_pull nb n) s = Some s' \<Longrightarrow> in_hand p xs s \<Longrightarrow> in_hand p xs s'"
  by (auto simp: on_nb_Some a_netbuf_pull_def A_ASSERT_bind_Some in_hand_def rxfree_rep_other)

lemma push_in_hand: "on_nb p (\<lambda>nb. a_netbuf_push nb n) s = Some s' \<Longrightarrow> in_hand p xs s \<Longrightarrow> in_hand p xs s'"
  by (auto simp: on_nb_Some a_netbuf_push_def A_ASSERT_bind_Some in_hand_def rxfree_rep_other)

lemma free_in_hand: "in_hand p xs s \<Longrightarrow> rxfree_rep (a_netbuf_free M U p s) (xs @ [p])"
  using free_rx_pool_rep [of s xs p] by (simp add: in_hand_def a_netbuf_free_def)

lemma xtnd_in_hand:
  assumes "wmi_control_rx_xtnd H devId p s = Some (st, s')" "handlers_borrow H p xs" "in_hand p xs s"
  shows "in_hand p xs s'"
proof -
  have "\<not> keeps_packet c" if "map_of (xtnd_calls devId d n) i = Some c" for d n i c
    using map_of_SomeD [OF that] by (auto simp: xtnd_calls_def)
  note plain = call_only_in_hand [OF assms(2) _ this]
  show ?thesis using assms(1,3)
    by (auto simp: wmi_control_rx_xtnd_def bind_eq_Some_conv Let_def split: if_splits option.splits
        dest!: pull_in_hand intro: plain)
qed

lemma bss_info_in_hand:
  assumes "bss_info_event H devId d p s = Some s'" "handlers_borrow H p xs" "in_hand p xs s"
  shows "in_hand p xs s'"
  using assms by (auto simp: bss_info_event_def bind_eq_Some_conv Let_def split: if_splits
      dest!: push_in_hand dest: call_only_in_hand)

lemma event_in_hand:
  assumes run: "wmi_event H evid devId p s = Some (st, spare, s')" and H: "handlers_borrow H p xs" "in_hand p xs s"
    and not: "evid \<noteq> WMI_WPS_PROFILE_EVENTID" "evid \<noteq> WMI_SOCKET_RESPONSE_EVENTID"
  shows "\<not> spare \<and> in_hand p xs s'"
proof (cases "map_of (event_calls devId (mem s) (a_netbuf_to_data (nbs s p)) (nb_len p s) p) evid")
  case None
  then show ?thesis using run H
    by (auto simp: wmi_event_def bind_eq_Some_conv Let_def wmi_errorEvent_rx_def A_ASSERT_bind_Some split: if_splits
        dest: xtnd_in_hand bss_info_in_hand call_only_in_hand)
next
  case (Some c)
  have "\<not> keeps_packet c" using map_of_SomeD [OF Some] not by (auto simp: event_calls_def)
  with Some run H not show ?thesis
    by (auto simp: wmi_event_def bind_eq_Some_conv Let_def dest: handlers_borrowD)
qed

text \<open>C9. No event leaks its receive buffer. Whatever bytes a received packet holds - a known or
  unknown event, of whatever length - if \<open>wmi_control_rx\<close> returns, then the buffer is back at the
  end of the free queue, provided the handlers leave it alone, and unless the event is one of the
  two whose handler keeps the packet.\<close>

theorem event_buffer_returned:
  assumes "in_hand p xs s" "handlers_borrow H p xs" "wmi_control_rx M U H p s = Some (st, s')"
    and "mem16 (mem s) (nb_data (nbs s p)) \<notin> {WMI_WPS_PROFILE_EVENTID, WMI_SOCKET_RESPONSE_EVENTID}"
  shows "rxfree_rep s' (xs @ [p])"
proof (cases "nb_len p s < 6")
  case True
  with assms(1,3) free_in_hand [of p xs s M U] show ?thesis
    by (auto simp: wmi_control_rx_def A_ASSERT_bind_Some rxfree_rep_def Let_def)
next
  case False
  then obtain s1 sp s2 evid devId where pull: "on_nb p (\<lambda>nb. a_netbuf_pull nb 6) s = Some s1"
    and ev: "wmi_event H evid devId p s1 = Some (st, sp, s2)" and evid: "evid = mem16 (mem s) (nb_data (nbs s p))"
    and s': "s' = (if \<not> sp then a_netbuf_free M U p s2 else s2)"
    using assms(3) by (auto simp: wmi_control_rx_def A_ASSERT_bind_Some bind_eq_Some_conv a_netbuf_to_data_def Let_def)
  have "evid \<noteq> WMI_WPS_PROFILE_EVENTID" "evid \<noteq> WMI_SOCKET_RESPONSE_EVENTID" using assms(4) evid by auto
  from event_in_hand [OF ev assms(2) pull_in_hand [OF pull assms(1)] this]
  show ?thesis by (simp add: s' free_in_hand)
qed

section \<open>Witnesses\<close>

text \<open>A handler that leaves a trace in a counter; a packet from the receive pool.\<close>

definition demo_handlers :: "unit handlers" where
  "demo_handlers c s = Some (A_OK, s\<lparr>cmd_id_err := cmd_id_err s + 100\<rparr>)"

definition demo_event :: "u8 list \<Rightarrow> unit drv" where
  "demo_event f = (demo_tx f)\<lparr>nbs := (nbs (demo_tx f))(0x500 := (nbs (demo_tx f) 0x500)\<lparr>rxPoolID := 1\<rparr>)\<rparr>"

lemma demo_event_packet:
  assumes "length f < 192"
  shows "nb_wf (nbs (demo_event f) 0x500)" "num_frags (nbs (demo_event f) 0x500) = 0"
    "packet_bytes (mem (demo_event f)) (nbs (demo_event f) 0x500) = f"
proof -
  have "unat (0x1040 + of_nat (length f) :: ptr) = 0x1040 + length f"
    using assms by (subst unat_offset) auto
  with assms show "nb_wf (nbs (demo_event f) 0x500)"
    by (simp add: nb_wf_def demo_event_def demo_tx_packet demo_tx_tail word_le_nat_alt)
  show "num_frags (nbs (demo_event f) 0x500) = 0" by (simp add: demo_event_def demo_tx_packet)
  show "packet_bytes (mem (demo_event f)) (nbs (demo_event f) 0x500) = f"
    using demo_tx_bytes [OF assms] by (simp add: demo_event_def packet_bytes_def)
qed

theorem connect_event_roundtrip_witness:
  "\<exists>s'. wmi_control_rx cmd_heap demo_upper demo_handlers 0x500 (demo_event (cmd_frame WMI_CONNECT_EVENTID 0x12 [0, 0]
       (connect_bytes 2437 [1, 2, 3, 4, 5, 6] 100 100 1 0 0 0 [7]))) = Some (A_OK, s')"
proof -
  let ?f = "cmd_frame WMI_CONNECT_EVENTID 0x12 [0, 0] (connect_bytes 2437 [1, 2, 3, 4, 5, 6] 100 100 1 0 0 0 [7])"
  have "length ?f < 192" by (simp add: cmd_frame_def connect_bytes_def)
  note pk = demo_event_packet [OF this]
  show ?thesis
    using connect_event_roundtrip [OF _ pk, of cmd_heap demo_upper demo_handlers]
    by (auto simp: demo_handlers_def)
qed

theorem bss_info_converted_witness:
  "\<exists>s'. wmi_control_rx cmd_heap demo_upper demo_handlers 0x500 (demo_event (cmd_frame WMI_BSSINFO_EVENTID 0x12 [0, 0]
       (le16_bytes_of 2437 @ [1, 40] @ [1, 2, 3, 4, 5, 6] @ le16_bytes_of 0xffff @ [7, 8, 9, 10]))) = Some (A_OK, s')"
proof -
  let ?f = "cmd_frame WMI_BSSINFO_EVENTID 0x12 [0, 0]
      (le16_bytes_of 2437 @ [1, 40] @ [1, 2, 3, 4, 5, 6] @ le16_bytes_of 0xffff @ [7, 8, 9, 10])"
  have "length ?f < 192" by (simp add: cmd_frame_def)
  note pk = demo_event_packet [OF this]
  show ?thesis
    using bss_info_converted [OF _ pk, of cmd_heap demo_upper demo_handlers]
    by (auto simp: demo_handlers_def call_only_def)
qed

theorem event_buffer_returned_witness:
  "\<exists>s'. wmi_control_rx cmd_heap demo_upper demo_handlers 0x500 (demo_event [0x34, 0x12, 0, 0, 0, 0, 9]) = Some (A_ERROR, s')
    \<and> rxfree_rep s' [0x500]"
proof -
  let ?s = "demo_event [0x34, 0x12, 0, 0, 0, 0, 9]"
  have pk: "nb_wf (nbs ?s 0x500)" "num_frags (nbs ?s 0x500) = 0" "packet_bytes (mem ?s) (nbs ?s 0x500) = cmd_frame 0x1234 0 [0, 0] [9]"
    using demo_event_packet [of "[0x34, 0x12, 0, 0, 0, 0, 9]"] by (simp_all add: cmd_frame_def le16_bytes_of_def byte_of_def)
  have hand: "in_hand 0x500 [] ?s"
    by (simp add: in_hand_def queue_cap_def demo_event_def demo_tx_def rxfree_rep_def queue_rep_def drv_zero_def queue_zero_def)
  have H: "handlers_borrow demo_handlers 0x500 []" by (simp add: handlers_borrow_def demo_handlers_def)
  have "\<exists>s'. wmi_control_rx cmd_heap demo_upper demo_handlers 0x500 ?s = Some (A_ERROR, s')"
    by (subst event_pulled(1) [OF _ pk])
      (simp_all add: wmi_test_ev_length_def length_array_def wmi_event_def event_calls_def)
  then obtain s' where run: "wmi_control_rx cmd_heap demo_upper demo_handlers 0x500 ?s = Some (A_ERROR, s')" by blast
  have "mem16 (mem ?s) (nb_data (nbs ?s 0x500)) = 0x1234"
    using packet_mem16 [of 0 "mem ?s" "nbs ?s 0x500"] by (simp add: pk(3) cmd_frame_def le16_bytes_of_def)
  with event_buffer_returned [OF hand H run] run show ?thesis by simp
qed

end
