(* ===== verification/Sock_Cxt.thy ===== *)
theory Sock_Cxt
  imports Wmi_Event
begin

text \<open>
  The socket contexts of \<^verbatim>\<open>common_src/stack_common\<close> (\<^verbatim>\<open>common_stack_offload.h\<close>, \<^verbatim>\<open>api_stack_offload.c\<close>) and the
  small operations on them: finding a context, the mask of pending commands, waking a task that
  waits on a socket and waiting on one, the descriptor sets of \<open>select\<close>.

  Sockets sit on top of the driver, so their state is part of the environment of a driver context:
  \<open>'e net\<close> is a driver whose environment holds the contexts behind the pointers
  \<open>ath_sock_context[]\<close>, the zero-copy queue, the event \<open>select\<close> waits for and \<open>last_driver_error\<close>. The
  custom part of a context (\<open>SOCKET_CONTEXT\<close>) is the field \<open>cust\<close>; \<open>sock_context\<close> is its address.

  What the code asks of the operating system for a waiting task is the record \<open>sock_os\<close>: a wait
  yields whether the event came before the time ran out, and the state after whatever the other
  tasks did meanwhile. The configuration is the one of \<^verbatim>\<open>atheros_stack_offload.h\<close> and \<^verbatim>\<open>a_config.h\<close>: 16
  sockets, \<open>ZERO_COPY\<close>, \<open>NON_BLOCKING_RX\<close>, blocking transmit, \<open>T_SELECT_VER1\<close>, SSL and HTTP.
\<close>

section \<open>Data\<close>

record SOCKET_CONTEXT =
  sockRxWakeEvent :: bool
  sockTxWakeEvent :: bool
  rxqueue :: A_NETBUF_QUEUE_T
  blockFlag :: u8
  respAvailable :: bool
  txUnblocked :: bool
  txBlock :: bool
  rxBlock :: bool

record ATH_SOCKET_CONTEXT =
  handle :: u32
  sock_st_mask :: "nat \<Rightarrow> u32"
  sock_result :: u32
  sock_context :: ptr
  sock_pReq :: ptr
  sock_data :: ptr
  domain :: u8
  sock_type :: u8
  remaining_bytes :: u16
  old_netbuf :: ptr
  ssl :: ptr
  TCPCtrFlag :: u8
  cust :: SOCKET_CONTEXT

record 'e sockets =
  os_env :: 'e
  ath_sock_context :: "nat \<Rightarrow> ptr"
  sock_objs :: "ptr \<Rightarrow> ATH_SOCKET_CONTEXT"
  zero_copy_free_queue :: A_NETBUF_QUEUE_T
  sockSelectWakeEvent :: bool
  last_driver_error :: A_STATUS

type_synonym 'e net = "'e sockets drv"

record 'e sock_os =
  wait_rx_event :: "ptr \<Rightarrow> u32 \<Rightarrow> 'e net \<Rightarrow> bool \<times> 'e net"
  wait_tx_event :: "ptr \<Rightarrow> u32 \<Rightarrow> 'e net \<Rightarrow> bool \<times> 'e net"
  wait_select_event :: "u32 \<Rightarrow> 'e net \<Rightarrow> bool \<times> 'e net"
  task_set_priority :: "u32 \<Rightarrow> 'e net \<Rightarrow> u32 \<times> 'e net"
  promiscuous_cb :: "ptr \<Rightarrow> 'e net \<Rightarrow> 'e net option"
  sizeof_SOCKET_CONTEXT :: u32

abbreviation (input) MAX_SOCKETS_SUPPORTED :: nat where "MAX_SOCKETS_SUPPORTED \<equiv> 16"
abbreviation (input) GLOBAL_SOCK_INDEX :: nat where "GLOBAL_SOCK_INDEX \<equiv> 16"
abbreviation (input) EMPTY_SOCKET_CONTEXT :: u32 where "EMPTY_SOCKET_CONTEXT \<equiv> 0"
abbreviation (input) SOCKET_HANDLE_PLACEHOLDER :: u32 where "SOCKET_HANDLE_PLACEHOLDER \<equiv> 0xFFFFFFFF"
abbreviation (input) ATH_AF_INET :: u8 where "ATH_AF_INET \<equiv> 2"
abbreviation (input) ATH_AF_INET6 :: u8 where "ATH_AF_INET6 \<equiv> 3"
abbreviation (input) SOCK_STREAM_TYPE :: u8 where "SOCK_STREAM_TYPE \<equiv> 1"
abbreviation (input) SOCK_DGRAM_TYPE :: u8 where "SOCK_DGRAM_TYPE \<equiv> 2"
abbreviation (input) SOCK_RAW_TYPE :: u8 where "SOCK_RAW_TYPE \<equiv> 3"
abbreviation (input) TCP_FIN :: u8 where "TCP_FIN \<equiv> 1"
abbreviation (input) TCP_LISTEN :: u8 where "TCP_LISTEN \<equiv> 2"
abbreviation (input) RX_DIRECTION :: u8 where "RX_DIRECTION \<equiv> 0"
abbreviation (input) TX_DIRECTION :: u8 where "TX_DIRECTION \<equiv> 1"
abbreviation (input) TCP_CONNECTION_AVAILABLE :: u32 where "TCP_CONNECTION_AVAILABLE \<equiv> 99"

text \<open>\<open>A_ERROR\<close>, \<open>A_OK\<close>, \<open>A_SOCK_INVALID\<close> as the \<open>QOSAL_INT32\<close> results of the socket calls.\<close>

abbreviation (input) E_ERROR :: u32 where "E_ERROR \<equiv> 0xFFFFFFFF"
abbreviation (input) E_SOCK_INVALID :: u32 where "E_SOCK_INVALID \<equiv> 0xFFFFFFFE"

section \<open>Contexts\<close>

definition on_env :: "('e \<Rightarrow> 'e) \<Rightarrow> 'e drv \<Rightarrow> 'e drv" where
  "on_env f s = s\<lparr>hw_env := f (hw_env s)\<rparr>"

definition obj :: "ptr \<Rightarrow> 'e net \<Rightarrow> ATH_SOCKET_CONTEXT" where
  "obj p s = sock_objs (hw_env s) p"

definition set_obj :: "ptr \<Rightarrow> (ATH_SOCKET_CONTEXT \<Rightarrow> ATH_SOCKET_CONTEXT) \<Rightarrow> 'e net \<Rightarrow> 'e net" where
  "set_obj p f = on_env (\<lambda>e. e\<lparr>sock_objs := (sock_objs e)(p := f (sock_objs e p))\<rparr>)"

text \<open>\<open>ath_sock_context[i]\<close>, the object it points to, and an update of that object.\<close>

definition sk_ptr :: "nat \<Rightarrow> 'e net \<Rightarrow> ptr" where
  "sk_ptr i s = ath_sock_context (hw_env s) i"

definition sk :: "nat \<Rightarrow> 'e net \<Rightarrow> ATH_SOCKET_CONTEXT" where
  "sk i s = obj (sk_ptr i s) s"

definition set_sk :: "nat \<Rightarrow> (ATH_SOCKET_CONTEXT \<Rightarrow> ATH_SOCKET_CONTEXT) \<Rightarrow> 'e net \<Rightarrow> 'e net" where
  "set_sk i f s = set_obj (sk_ptr i s) f s"

definition set_error :: "A_STATUS \<Rightarrow> 'e net \<Rightarrow> 'e net" where
  "set_error e = on_env (last_driver_error_update (\<lambda>_. e))"

abbreviation on_cust :: "(SOCKET_CONTEXT \<Rightarrow> SOCKET_CONTEXT) \<Rightarrow> ATH_SOCKET_CONTEXT \<Rightarrow> ATH_SOCKET_CONTEXT" where
  "on_cust f \<equiv> cust_update f"

definition queue_empty :: "nat \<Rightarrow> 'e net \<Rightarrow> bool" where
  "queue_empty i s \<longleftrightarrow> q_count (rxqueue (cust (sk i s))) = 0"

definition find_socket_context_from_ssl :: "ptr \<Rightarrow> 'e net \<Rightarrow> nat option" where
  "find_socket_context_from_ssl p s = find (\<lambda>i. ssl (sk i s) = p) [0..<MAX_SOCKETS_SUPPORTED]"

text \<open>\<open>SOCKET_NOT_FOUND\<close> is \<open>None\<close>.\<close>

definition find_socket_context :: "u32 \<Rightarrow> bool \<Rightarrow> 'e net \<Rightarrow> nat option" where
  "find_socket_context h retrieve s =
     (if retrieve \<and> h = 0 then None
      else find (\<lambda>i. handle (sk i s) = h) [0..<MAX_SOCKETS_SUPPORTED])"

text \<open>The bit of a command in \<open>sock_st_mask\<close>.\<close>

definition SOCK_EV_MASK_SET :: "u32 \<Rightarrow> ATH_SOCKET_CONTEXT \<Rightarrow> ATH_SOCKET_CONTEXT" where
  "SOCK_EV_MASK_SET cmd c = (let w = unat (drop_bit 5 cmd) in
     c\<lparr>sock_st_mask := (sock_st_mask c)(w := sock_st_mask c w OR push_bit (unat (cmd AND 0x1f)) 1)\<rparr>)"

definition SOCK_EV_MASK_CLEAR :: "u32 \<Rightarrow> ATH_SOCKET_CONTEXT \<Rightarrow> ATH_SOCKET_CONTEXT" where
  "SOCK_EV_MASK_CLEAR cmd c = (let w = unat (drop_bit 5 cmd) in
     c\<lparr>sock_st_mask := (sock_st_mask c)(w := sock_st_mask c w AND NOT (push_bit (unat (cmd AND 0x1f)) 1))\<rparr>)"

definition SOCK_EV_MASK_TEST :: "u32 \<Rightarrow> ATH_SOCKET_CONTEXT \<Rightarrow> bool" where
  "SOCK_EV_MASK_TEST cmd c \<longleftrightarrow>
     sock_st_mask c (unat (drop_bit 5 cmd)) AND push_bit (unat (cmd AND 0x1f)) 1 \<noteq> 0"

text \<open>\<open>SOCK_CMD_LAST\<close> is 68: three words.\<close>

definition custom_sock_is_pending :: "ATH_SOCKET_CONTEXT \<Rightarrow> u32" where
  "custom_sock_is_pending c = fold (\<lambda>i rtn. rtn OR sock_st_mask c i) [0..<68 div 32 + 1] 0"

definition clear_socket_context :: "'e sockets mqx \<Rightarrow> nat \<Rightarrow> 'e net \<Rightarrow> 'e net" where
  "clear_socket_context M i s = (
     let s = set_sk i (\<lambda>c. c\<lparr>handle := 0, sock_st_mask := (\<lambda>_. 0), domain := 0, sock_type := 0, TCPCtrFlag := 0\<rparr>) s
     in if sock_data (sk i s) \<noteq> NULL
        then set_sk i (\<lambda>c. c\<lparr>sock_data := NULL\<rparr>) (a_free M (sock_data (sk i s)) s) else s)"

section \<open>Waking and waiting\<close>

definition isSocketBlocked :: "ptr \<Rightarrow> 'e net \<Rightarrow> bool" where
  "isSocketBlocked ctxt s \<longleftrightarrow> blockFlag (cust (obj ctxt s)) \<noteq> 0"

definition unblock :: "ptr \<Rightarrow> u8 \<Rightarrow> 'e net \<Rightarrow> 'e net" where
  "unblock ctxt direction s = set_obj ctxt (on_cust (\<lambda>k.
     if direction = RX_DIRECTION then
       let k = k\<lparr>respAvailable := True\<rparr> in if rxBlock k then k\<lparr>sockRxWakeEvent := True\<rparr> else k
     else if direction = TX_DIRECTION then
       let k = k\<lparr>txUnblocked := True\<rparr> in if txBlock k then k\<lparr>sockTxWakeEvent := True\<rparr> else k
     else k)) s"

definition unblockSelect :: "'e net \<Rightarrow> 'e net" where
  "unblockSelect = on_env (sockSelectWakeEvent_update (\<lambda>_. True))"

text \<open>Milliseconds to ticks, about.\<close>

definition block_ticks :: "'e upper \<Rightarrow> u32 \<Rightarrow> u32" where
  "block_ticks U msec = (let ret = msec * up_alarm_frequency U div 1024 in if msec \<noteq> 0 \<and> ret = 0 then ret + 1 else ret)"

definition blockForResponse :: "'e sockets upper \<Rightarrow> 'e sock_os \<Rightarrow> ptr \<Rightarrow> u32 \<Rightarrow> u8 \<Rightarrow> 'e net \<Rightarrow> A_STATUS \<times> 'e net" where
  "blockForResponse U OS ctxt msec direction s = (
     let ret = block_ticks U msec; s = set_obj ctxt (on_cust (blockFlag_update (\<lambda>_. 1))) s in
     case task_set_priority OS 5 s of (old_priority, s) \<Rightarrow>
     case (if direction = RX_DIRECTION then
             case (if \<not> respAvailable (cust (obj ctxt s)) then
                     case wait_rx_event OS ctxt ret (set_obj ctxt (on_cust (rxBlock_update (\<lambda>_. True))) s) of (ok, s) \<Rightarrow>
                     let s = (if ok then set_obj ctxt (on_cust (sockRxWakeEvent_update (\<lambda>_. False))) s else s) in
                     (if ok then A_OK else A_ERROR, set_obj ctxt (on_cust (rxBlock_update (\<lambda>_. False))) s)
                   else (A_OK, s)) of (result, s) \<Rightarrow>
             if respAvailable (cust (obj ctxt s))
             then (A_OK, set_obj ctxt (on_cust (respAvailable_update (\<lambda>_. False))) s) else (result, s)
           else if direction = TX_DIRECTION then
             case (if \<not> txUnblocked (cust (obj ctxt s)) then
                     case wait_tx_event OS ctxt ret (set_obj ctxt (on_cust (txBlock_update (\<lambda>_. True))) s) of (ok, s) \<Rightarrow>
                     let s = (if ok then set_obj ctxt (on_cust (sockTxWakeEvent_update (\<lambda>_. False))) s else s) in
                     (if ok then A_OK else A_ERROR, set_obj ctxt (on_cust (txBlock_update (\<lambda>_. False))) s)
                   else (A_OK, s)) of (result, s) \<Rightarrow>
             if txUnblocked (cust (obj ctxt s))
             then (A_OK, set_obj ctxt (on_cust (txUnblocked_update (\<lambda>_. False))) s) else (result, s)
           else (A_OK, set_error A_EINVAL s)) of (result, s) \<Rightarrow>
     case task_set_priority OS old_priority s of (_, s) \<Rightarrow>
     (result, set_obj ctxt (on_cust (blockFlag_update (\<lambda>_. 0))) s))"

definition blockForDataRx :: "'e sockets upper \<Rightarrow> 'e sock_os \<Rightarrow> ptr \<Rightarrow> u32 \<Rightarrow> u8 \<Rightarrow> 'e net \<Rightarrow> A_STATUS \<times> 'e net" where
  "blockForDataRx U OS ctxt msec direction s =
     blockForResponse U OS ctxt msec direction (set_obj ctxt (on_cust (respAvailable_update (\<lambda>_. False))) s)"

definition blockSelect :: "'e sockets upper \<Rightarrow> 'e sock_os \<Rightarrow> u32 \<Rightarrow> 'e net \<Rightarrow> A_STATUS \<times> 'e net" where
  "blockSelect U OS msec s = (case wait_select_event OS (block_ticks U msec) s of (ok, s) \<Rightarrow>
     if \<not> ok then (A_ERROR, s) else (A_OK, on_env (sockSelectWakeEvent_update (\<lambda>_. False)) s))"

section \<open>Descriptor sets\<close>

text \<open>A set is the word the pointer \<open>mask\<close> points to; the operations yield the new one.\<close>

definition FD_IsSet :: "u32 \<Rightarrow> u32 \<Rightarrow> 'e net \<Rightarrow> bool" where
  "FD_IsSet h m s = (case find_socket_context h True s of None \<Rightarrow> True
     | Some index \<Rightarrow> m AND push_bit index 1 \<noteq> 0)"

definition FD_Set :: "u32 \<Rightarrow> u32 \<Rightarrow> 'e net \<Rightarrow> u32" where
  "FD_Set h m s = (case find_socket_context h True s of None \<Rightarrow> m
     | Some index \<Rightarrow> m OR push_bit index 1)"

definition FD_Clr :: "u32 \<Rightarrow> u32 \<Rightarrow> 'e net \<Rightarrow> u32" where
  "FD_Clr h m s = (case find_socket_context h True s of
       None \<Rightarrow> fold (\<lambda>i m. if m AND push_bit i 1 \<noteq> 0 \<and> handle (sk i s) = 0 then m AND NOT (push_bit i 1) else m)
                 [0..<MAX_SOCKETS_SUPPORTED] (m AND (push_bit (MAX_SOCKETS_SUPPORTED + 1) 1 - 1))
     | Some index \<Rightarrow> m AND NOT (push_bit index 1))"

definition FD_Zero :: "u32 \<Rightarrow> u32" where
  "FD_Zero m = 0"

section \<open>Initialisation\<close>

abbreviation (input) sizeof_ATH_SOCKET_CONTEXT :: u32 where "sizeof_ATH_SOCKET_CONTEXT \<equiv> 48"

definition cust_zero :: SOCKET_CONTEXT where
  "cust_zero = \<lparr>sockRxWakeEvent = False, sockTxWakeEvent = False, rxqueue = queue_zero, blockFlag = 0,
     respAvailable = False, txUnblocked = False, txBlock = False, rxBlock = False\<rparr>"

definition sock_zero :: ATH_SOCKET_CONTEXT where
  "sock_zero = \<lparr>handle = 0, sock_st_mask = (\<lambda>_. 0), sock_result = 0, sock_context = NULL, sock_pReq = NULL,
     sock_data = NULL, domain = 0, sock_type = 0, remaining_bytes = 0, old_netbuf = NULL, ssl = NULL,
     TCPCtrFlag = 0, cust = cust_zero\<rparr>"

text \<open>The two loops; the flags of the second structure that the code does not set are those of the
  zeroed block that the allocator returns.\<close>

primrec alloc_contexts :: "'e sockets mqx \<Rightarrow> nat list \<Rightarrow> 'e net \<Rightarrow> A_STATUS \<times> 'e net" where
  "alloc_contexts M [] s = (A_OK, s)"
| "alloc_contexts M (i # is) s = (case a_malloc M sizeof_ATH_SOCKET_CONTEXT s of (p, s) \<Rightarrow>
     let s = on_env (\<lambda>e. e\<lparr>ath_sock_context := (ath_sock_context e)(i := p)\<rparr>) s in
     if p = NULL then (A_NO_MEMORY, s) else alloc_contexts M is (set_obj p (\<lambda>_. sock_zero) s))"

primrec alloc_custom :: "'e sockets mqx \<Rightarrow> 'e sock_os \<Rightarrow> nat list \<Rightarrow> 'e net \<Rightarrow> A_STATUS \<times> 'e net" where
  "alloc_custom M OS [] s = (A_OK, s)"
| "alloc_custom M OS (i # is) s = (case a_malloc M (sizeof_SOCKET_CONTEXT OS) s of (p, s) \<Rightarrow>
     if p = NULL then (A_NO_MEMORY, s)
     else alloc_custom M OS is (set_sk i (\<lambda>c. c\<lparr>sock_context := p, remaining_bytes := 0, old_netbuf := NULL,
            cust := cust_zero\<lparr>rxqueue := a_netbuf_queue_init\<rparr>\<rparr>) s))"

definition socket_context_init :: "'e sockets mqx \<Rightarrow> 'e sock_os \<Rightarrow> 'e net \<Rightarrow> A_STATUS \<times> 'e net" where
  "socket_context_init M OS s = (case alloc_contexts M [0..<MAX_SOCKETS_SUPPORTED + 1] s of (st, s) \<Rightarrow>
     if st \<noteq> A_OK then (st, s)
     else case alloc_custom M OS [0..<MAX_SOCKETS_SUPPORTED + 1] s of (st, s) \<Rightarrow>
     if st \<noteq> A_OK then (st, s)
     else (A_OK, on_env (zero_copy_free_queue_update (\<lambda>_. a_netbuf_queue_init)) s))"

section \<open>Frames\<close>

lemma on_env_fields [simp]:
  "hw_env (on_env f s) = f (hw_env s)" "nbs (on_env f s) = nbs s" "mem (on_env f s) = mem s"
  "natives (on_env f s) = natives s" "rxFreeQueue (on_env f s) = rxFreeQueue s" "txQueue (on_env f s) = txQueue s"
  "rxfree_rep (on_env f s) xs = rxfree_rep s xs" "nb_len p (on_env f s) = nb_len p s"
  "cxt_ptr (on_env f s) = cxt_ptr s" "promiscuous_mode (on_env f s) = promiscuous_mode s"
  by (simp_all add: on_env_def rxfree_rep_def nb_len_def)

lemma set_obj_fields [simp]:
  "nbs (set_obj p f s) = nbs s" "mem (set_obj p f s) = mem s" "natives (set_obj p f s) = natives s"
  "rxFreeQueue (set_obj p f s) = rxFreeQueue s" "txQueue (set_obj p f s) = txQueue s"
  "rxfree_rep (set_obj p f s) xs = rxfree_rep s xs" "nb_len q (set_obj p f s) = nb_len q s"
  "sk_ptr i (set_obj p f s) = sk_ptr i s" "zero_copy_free_queue (hw_env (set_obj p f s)) = zero_copy_free_queue (hw_env s)"
  "obj q (set_obj p f s) = (if q = p then f (obj p s) else obj q s)"
  "last_driver_error (hw_env (set_obj p f s)) = last_driver_error (hw_env s)"
  by (simp_all add: set_obj_def sk_ptr_def obj_def)

lemma set_sk_fields [simp]:
  "nbs (set_sk i f s) = nbs s" "mem (set_sk i f s) = mem s" "natives (set_sk i f s) = natives s"
  "rxFreeQueue (set_sk i f s) = rxFreeQueue s" "txQueue (set_sk i f s) = txQueue s"
  "rxfree_rep (set_sk i f s) xs = rxfree_rep s xs" "nb_len q (set_sk i f s) = nb_len q s"
  "sk_ptr j (set_sk i f s) = sk_ptr j s" "zero_copy_free_queue (hw_env (set_sk i f s)) = zero_copy_free_queue (hw_env s)"
  "sk i (set_sk i f s) = f (sk i s)" "last_driver_error (hw_env (set_sk i f s)) = last_driver_error (hw_env s)"
  by (simp_all add: set_sk_def sk_def)

lemma set_error_fields [simp]:
  "sk_ptr i (set_error e s) = sk_ptr i s" "obj p (set_error e s) = obj p s" "sk i (set_error e s) = sk i s"
  "zero_copy_free_queue (hw_env (set_error e s)) = zero_copy_free_queue (hw_env s)"
  "nbs (set_error e s) = nbs s" "mem (set_error e s) = mem s" "rxfree_rep (set_error e s) xs = rxfree_rep s xs"
  "natives (set_error e s) = natives s" "last_driver_error (hw_env (set_error e s)) = e"
  by (simp_all add: set_error_def sk_ptr_def obj_def sk_def)

lemma unblockSelect_fields [simp]:
  "sk_ptr i (unblockSelect s) = sk_ptr i s" "obj p (unblockSelect s) = obj p s" "sk i (unblockSelect s) = sk i s"
  "zero_copy_free_queue (hw_env (unblockSelect s)) = zero_copy_free_queue (hw_env s)"
  "nbs (unblockSelect s) = nbs s" "mem (unblockSelect s) = mem s" "rxfree_rep (unblockSelect s) xs = rxfree_rep s xs"
  "natives (unblockSelect s) = natives s"
  by (simp_all add: unblockSelect_def sk_ptr_def obj_def sk_def)

text \<open>An update of the packets or of the free queue leaves the sockets alone.\<close>

lemma drv_update_env:
  "hw_env s' = hw_env s \<Longrightarrow> sk_ptr i s' = sk_ptr i s \<and> obj p s' = obj p s \<and> sk i s' = sk i s"
  by (simp add: sk_ptr_def obj_def sk_def)

section \<open>Distinct contexts\<close>

definition ptrs_ok :: "'e net \<Rightarrow> bool" where
  "ptrs_ok s \<longleftrightarrow> inj_on (\<lambda>i. sk_ptr i s) {..GLOBAL_SOCK_INDEX}"

lemma sk_set_sk:
  "ptrs_ok s \<Longrightarrow> i \<le> GLOBAL_SOCK_INDEX \<Longrightarrow> j \<le> GLOBAL_SOCK_INDEX \<Longrightarrow>
   sk j (set_sk i f s) = (if j = i then f (sk i s) else sk j s)"
  by (auto simp: sk_def set_sk_def ptrs_ok_def dest: inj_onD)

lemma ptrs_ok_cong [simp]: "ptrs_ok (set_sk i f s) = ptrs_ok s" "ptrs_ok (set_obj p f s) = ptrs_ok s"
  "ptrs_ok (set_error e s) = ptrs_ok s" "ptrs_ok (unblockSelect s) = ptrs_ok s"
  by (simp_all add: ptrs_ok_def)

lemma find_nth: "find P [0..<n] = Some i \<longleftrightarrow> i < n \<and> P i \<and> (\<forall>j<i. \<not> P j)"
  by (auto simp: find_Some_iff)

lemma find_none: "find P [0..<n] = None \<longleftrightarrow> (\<forall>i<n. \<not> P i)"
  by (auto simp: find_None_iff)

lemma find_socket_Some: "find_socket_context h r s = Some i \<longleftrightarrow>
   \<not> (r \<and> h = 0) \<and> i < MAX_SOCKETS_SUPPORTED \<and> handle (sk i s) = h \<and> (\<forall>j<i. handle (sk j s) \<noteq> h)"
  by (simp add: find_socket_context_def find_nth)

lemma find_socket_None: "find_socket_context h r s = None \<longleftrightarrow>
   (r \<and> h = 0) \<or> (\<forall>i<MAX_SOCKETS_SUPPORTED. handle (sk i s) \<noteq> h)"
  by (auto simp: find_socket_context_def find_none)

lemma find_socket_handles:
  "(\<And>i. i < MAX_SOCKETS_SUPPORTED \<Longrightarrow> handle (sk i s') = handle (sk i s)) \<Longrightarrow> find_socket_context h r s' = find_socket_context h r s"
  by (auto simp: find_socket_context_def intro!: find_cong)

end
