(* ===== verification/Sock_Recv.thy ===== *)
theory Sock_Recv
  imports Sock_Cxt
begin

text \<open>
  Receiving on a socket: a data frame of the driver goes to the queue of its socket
  (\<open>custom_receive_tcpip\<close> of \<^verbatim>\<open>custom_src/stack_custom/cust_api_stack_txrx.c\<close>), the application takes the
  bytes (\<open>Api_recvfrom\<close> of \<^verbatim>\<open>custom_src/stack_custom/cust_api_stack_offload.c\<close>, zero-copy version: it gets a
  pointer into the packet) and gives the packet back later (\<open>zero_copy_free\<close>). A read of a stream
  socket may take a part of a packet; the context then holds the packet for the next read.
\<close>

section \<open>The queues\<close>

definition sock_enqueue :: "nat \<Rightarrow> ptr \<Rightarrow> 'e net \<Rightarrow> 'e net" where
  "sock_enqueue i p s = (case a_netbuf_enqueue (nbs s, rxqueue (cust (sk i s))) p of (h, q) \<Rightarrow>
     set_sk i (on_cust (rxqueue_update (\<lambda>_. q))) (s\<lparr>nbs := h\<rparr>))"

definition sock_dequeue :: "nat \<Rightarrow> 'e net \<Rightarrow> ptr \<times> 'e net" where
  "sock_dequeue i s = (case a_netbuf_dequeue (nbs s, rxqueue (cust (sk i s))) of (p, h, q) \<Rightarrow>
     (p, set_sk i (on_cust (rxqueue_update (\<lambda>_. q))) (s\<lparr>nbs := h\<rparr>)))"

definition zc_enqueue :: "ptr \<Rightarrow> 'e net \<Rightarrow> 'e net" where
  "zc_enqueue p s = (case a_netbuf_enqueue (nbs s, zero_copy_free_queue (hw_env s)) p of (h, q) \<Rightarrow>
     on_env (zero_copy_free_queue_update (\<lambda>_. q)) (s\<lparr>nbs := h\<rparr>))"

definition get_total_pkts_buffered :: "'e net \<Rightarrow> u32" where
  "get_total_pkts_buffered s =
     fold (\<lambda>i n. n + ucast (q_count (rxqueue (cust (sk i s))))) [0..<MAX_SOCKETS_SUPPORTED] 0"

text \<open>Both counters are \<open>QOSAL_UINT8\<close>.\<close>

definition get_holding_buffer :: "'e net \<Rightarrow> u32" where
  "get_holding_buffer s = (
     case fold (\<lambda>i (active_sock, holdingBuffers).
            if handle (sk i s) \<noteq> 0
            then (active_sock + 1, let n = q_count (rxqueue (cust (sk i s))) in
                    if n \<ge> 1 then holdingBuffers + ucast n else holdingBuffers)
            else (active_sock, holdingBuffers)) [0..<MAX_SOCKETS_SUPPORTED] (0 :: u8, 0 :: u8)
     of (active_sock, holdingBuffers) \<Rightarrow> if active_sock > 2 then ucast holdingBuffers else 0)"

section \<open>Delivering a frame\<close>

abbreviation (input) BSP_CONFIG_ATHEROS_PCB :: u32 where "BSP_CONFIG_ATHEROS_PCB \<equiv> 10"

definition custom_receive_tcpip :: "'e sockets mqx \<Rightarrow> 'e sockets upper \<Rightarrow> ptr \<Rightarrow> 'e net \<Rightarrow> A_STATUS \<times> 'e net" where
  "custom_receive_tcpip M U pReq s = (
     if pReq = NULL then (A_OK, s)
     else case find_socket_context (mem32 (mem s) (a_netbuf_to_data (nbs s pReq))) True s of
       None \<Rightarrow> (A_ERROR, a_netbuf_free M U pReq (set_error A_SOCKCXT_NOT_FOUND s))
     | Some index \<Rightarrow>
         if custom_sock_is_pending (sk index s) \<noteq> 0
         then (A_ERROR, a_netbuf_free M U pReq (set_error A_SOCK_UNAVAILABLE s))
         else let s = unblockSelect s in
           if get_holding_buffer s \<ge> 2 then
             if get_total_pkts_buffered s \<ge> BSP_CONFIG_ATHEROS_PCB - 1 then (A_OK, a_netbuf_free M U pReq s)
             else (A_OK, unblock (sk_ptr index s) RX_DIRECTION (sock_enqueue index pReq s))
           else
             if get_total_pkts_buffered s \<ge> BSP_CONFIG_ATHEROS_PCB then (A_OK, a_netbuf_free M U pReq s)
             else (A_OK, unblock (sk_ptr index s) RX_DIRECTION (sock_enqueue index pReq s)))"

definition Custom_DeliverFrameToNetworkStack ::
    "'e sockets mqx \<Rightarrow> 'e sockets upper \<Rightarrow> 'e sock_os \<Rightarrow> ptr \<Rightarrow> 'e net \<Rightarrow> 'e net option" where
  "Custom_DeliverFrameToNetworkStack M U OS pReq s =
     (if promiscuous_mode s \<noteq> 0 then promiscuous_cb OS pReq s
      else Some (snd (custom_receive_tcpip M U pReq s)))"

section \<open>Reading\<close>

abbreviation (input) sizeof_SOCK_RECV_T :: u32 where "sizeof_SOCK_RECV_T \<equiv> 20"
abbreviation (input) sizeof_SOCK_RECV6_T :: u32 where "sizeof_SOCK_RECV6_T \<equiv> 40"

text \<open>The length of the custom header of a packet at \<open>d\<close>; the sender's address is copied out for a
  socket that is not a stream. The byte-order conversions in place change nothing.\<close>

definition recv_header :: "ATH_SOCKET_CONTEXT \<Rightarrow> ptr \<Rightarrow> ptr \<Rightarrow> ptr \<Rightarrow> memory \<Rightarrow> (u32 \<times> memory) option" where
  "recv_header c d nam socklength m = (
     let addressed = sock_type c = SOCK_DGRAM_TYPE \<or> sock_type c = SOCK_RAW_TYPE in
     if domain c = ATH_AF_INET then
       Some (sizeof_SOCK_RECV_T,
         if addressed then mem_put (A_MEMCPY m nam (d + 4) 8) socklength (le32_bytes_of 8) else m)
     else if domain c = ATH_AF_INET6 then
       Some (sizeof_SOCK_RECV6_T,
         if addressed then mem_put (A_MEMCPY m nam (d + 4) 28) socklength (le32_bytes_of 28) else m)
     else None)"

definition holds_part :: "ATH_SOCKET_CONTEXT \<Rightarrow> bool" where
  "holds_part c \<longleftrightarrow> sock_type c = SOCK_STREAM_TYPE \<and> remaining_bytes c \<noteq> 0 \<and> old_netbuf c \<noteq> NULL"

text \<open>Taking bytes from the packet \<open>p\<close>, the held one (\<open>part\<close>) or the one just taken from the queue: the
  result, the pointer that is stored in \<open>*buffer\<close>, and the state.\<close>

definition recv_take :: "bool \<Rightarrow> nat \<Rightarrow> ptr \<Rightarrow> u32 \<Rightarrow> ptr \<Rightarrow> ptr \<Rightarrow> 'e net \<Rightarrow> (u32 \<times> ptr \<times> 'e net) option" where
  "recv_take part index p len_max nam socklength s = do {
     (hdrlen, m) \<leftarrow> recv_header (sk index s) (a_netbuf_to_data (nbs s p)) nam socklength (mem s);
     let s = s\<lparr>mem := m\<rparr>;
     s \<leftarrow> (if \<not> part then on_nb p (\<lambda>nb. a_netbuf_pull nb hdrlen) s else Some s);
     let len = nb_len p s;
     let stream = sock_type (sk index s) = SOCK_STREAM_TYPE;
     let s = (if stream then
                if len > len_max then set_sk index (\<lambda>c. c\<lparr>remaining_bytes := ucast (len - len_max)\<rparr>) s
                else set_sk index (\<lambda>c. c\<lparr>remaining_bytes := 0, old_netbuf := NULL\<rparr>) s
              else s);
     let len = (if len > len_max then len_max else len);
     let buffer = a_netbuf_to_data (nbs s p);
     s \<leftarrow> (if stream \<and> remaining_bytes (sk index s) \<noteq> 0 then do {
             s \<leftarrow> on_nb p (\<lambda>nb. a_netbuf_pull nb len) s;
             Some (set_sk index (\<lambda>c. c\<lparr>old_netbuf := p\<rparr>) s)}
           else Some (zc_enqueue p s));
     Some (len, buffer, s)}"

definition Api_recvfrom :: "u32 \<Rightarrow> u32 \<Rightarrow> ptr \<Rightarrow> ptr \<Rightarrow> 'e net \<Rightarrow> (u32 \<times> ptr option \<times> 'e net) option" where
  "Api_recvfrom h len_max nam socklength s = (case find_socket_context h True s of
       None \<Rightarrow> Some (E_SOCK_INVALID, None, s)
     | Some index \<Rightarrow>
         let part = holds_part (sk index s) in
         case (if part then (old_netbuf (sk index s), s) else sock_dequeue index s) of (p, s) \<Rightarrow>
         if p = NULL then Some (E_ERROR, None, s)
         else do {
           (len, buffer, s) \<leftarrow> recv_take part index p len_max nam socklength s;
           Some (len, Some buffer, s)})"

definition t_recvfrom :: "'e sockets upper \<Rightarrow> u32 \<Rightarrow> u32 \<Rightarrow> ptr \<Rightarrow> ptr \<Rightarrow> 'e net \<Rightarrow> (u32 \<times> ptr option \<times> 'e net) option" where
  "t_recvfrom U h len_max nam socklength s = (
     if cxt_ptr s = NULL then Some (E_ERROR, None, s)
     else do {
       (status, s) \<leftarrow> Api_DriverAccessCheck U True ACCESS_REQUEST_RX s;
       if status \<noteq> A_OK then Some (E_ERROR, None, s) else Api_recvfrom h len_max nam socklength s})"

definition t_recv :: "'e sockets upper \<Rightarrow> u32 \<Rightarrow> u32 \<Rightarrow> 'e net \<Rightarrow> (u32 \<times> ptr option \<times> 'e net) option" where
  "t_recv U h len_max s = t_recvfrom U h len_max NULL NULL s"

definition zero_copy_free :: "'e sockets mqx \<Rightarrow> 'e sockets upper \<Rightarrow> ptr \<Rightarrow> 'e net \<Rightarrow> 'e net option" where
  "zero_copy_free M U buffer s = do {
     (p, h, q) \<leftarrow> a_netbuf_dequeue_adv (nbs s, zero_copy_free_queue (hw_env s)) buffer;
     let s = on_env (zero_copy_free_queue_update (\<lambda>_. q)) (s\<lparr>nbs := h\<rparr>);
     Some (if p \<noteq> NULL then a_netbuf_free M U p s else s)}"

text \<open>\<open>a_netbuf_purge_queue\<close> of \<^verbatim>\<open>custom_src/driver/cust_driver_netbuf.c\<close> runs on the count of the queue.\<close>

partial_function (option) purge_loop :: "'e sockets mqx \<Rightarrow> 'e sockets upper \<Rightarrow> nat \<Rightarrow> 'e net \<Rightarrow> 'e net option" where
  "purge_loop M U i s = (
     if q_count (rxqueue (cust (sk i s))) = 0 then Some s
     else let temp = q_head (rxqueue (cust (sk i s)));
              s = set_sk i (on_cust (rxqueue_update (q_head_update (\<lambda>_. queueLink (nbs s temp))))) s;
              s = s\<lparr>nbs := set_link temp NULL (nbs s)\<rparr>;
              s = a_netbuf_free M U temp s;
              s = set_sk i (on_cust (rxqueue_update (q_count_update (\<lambda>n. n - 1)))) s
          in purge_loop M U i s)"

definition a_netbuf_purge_queue :: "'e sockets mqx \<Rightarrow> 'e sockets upper \<Rightarrow> nat \<Rightarrow> 'e net \<Rightarrow> 'e net option" where
  "a_netbuf_purge_queue M U i s = do {
     s \<leftarrow> purge_loop M U i s;
     Some (set_sk i (on_cust (rxqueue_update (\<lambda>q. q\<lparr>q_head := NULL, q_tail := NULL\<rparr>))) s)}"

end
