(* ===== verification/Sock_Pool.thy ===== *)
theory Sock_Pool
  imports Sock_Recv "HOL-Library.Multiset"
begin

text \<open>
  Where the receive buffers are. Every buffer the socket layer has been given is in exactly one
  place: the receive queue of a socket, held by a stream socket that has read a part of it, the
  zero-copy queue while the application uses it, or the driver's free queue.
\<close>

section \<open>Queues that share the packet objects\<close>

lemma queue_rep_cong:
  "(\<And>x. x \<in> set xs \<Longrightarrow> queueLink (h' x) = queueLink (h x)) \<Longrightarrow> queue_rep (h', q) xs = queue_rep (h, q) xs"
  by (simp add: queue_rep_def linked_cong [of xs h' h])

lemma queue_rep_tail: "queue_rep (h, q) xs \<Longrightarrow> q_head q \<noteq> NULL \<Longrightarrow> q_tail q \<in> set xs"
  by (cases xs) (auto simp: queue_rep_def)

lemma queue_rep_head: "queue_rep (h, q) xs \<Longrightarrow> q_head q \<noteq> NULL \<Longrightarrow> q_head q \<in> set xs"
  by (cases xs) (auto simp: queue_rep_def)

lemma enqueue_local: "queue_rep (h, q) xs \<Longrightarrow> y \<notin> set xs \<Longrightarrow> y \<noteq> p \<Longrightarrow> fst (a_netbuf_enqueue (h, q) p) y = h y"
  by (auto simp: set_link_def Let_def dest: queue_rep_tail)

lemma dequeue_local: "queue_rep (h, q) xs \<Longrightarrow> y \<notin> set xs \<Longrightarrow> fst (snd (a_netbuf_dequeue (h, q))) y = h y"
  by (auto simp: set_link_def Let_def dest: queue_rep_head)

lemma set_link_links: "\<exists>l. set_link x n h y = (h y)\<lparr>queueLink := l\<rparr>"
  by (cases "y = x") (auto simp: set_link_def intro: exI [of _ "queueLink (h y)"])

lemma set_link_links2: "\<exists>l. set_link x n (set_link z k h) y = (h y)\<lparr>queueLink := l\<rparr>"
  using set_link_links [of x n "set_link z k h" y] set_link_links [of z k h y] by auto

lemma dequeue_adv_local:
  assumes rep: "queue_rep (h, q) xs" and run: "a_netbuf_dequeue_adv (h, q) pkt = Some (c, h', q')"
  shows "(y \<notin> set xs \<longrightarrow> h' y = h y) \<and> (\<exists>l. h' y = (h y)\<lparr>queueLink := l\<rparr>) \<and> (c \<noteq> NULL \<longrightarrow> c \<in> set xs)"
proof -
  let ?us = "takeWhile (\<lambda>x. nb_data (h x) \<noteq> pkt) xs"
  have find: "adv_find h pkt NULL (q_head q) =
      Some (last (NULL # ?us), case drop (length ?us) xs of [] \<Rightarrow> NULL | c # _ \<Rightarrow> c)"
    using adv_find_linked [of h "q_head q" xs pkt NULL] rep by (simp add: queue_rep_def Let_def)
  have last: "last (NULL # ?us) \<in> insert NULL (set xs)"
    using last_in_set [of ?us] set_takeWhileD [of "last ?us" "\<lambda>x. nb_data (h x) \<noteq> pkt" xs] by auto
  show ?thesis
  proof (cases "drop (length ?us) xs")
    case Nil
    then show ?thesis using run find by (auto simp: bind_eq_Some_conv split: if_splits intro: exI [of _ "queueLink (h y)"])
  next
    case (Cons d ds)
    then have d: "d \<in> set xs" using in_set_dropD [of d "length ?us" xs] by simp
    have prev: "d \<noteq> q_head q \<Longrightarrow> last (NULL # ?us) \<in> set xs"
      using Cons rep linked_head [of h "q_head q" xs] last_in_set [of ?us] set_takeWhileD [of "last ?us" "\<lambda>x. nb_data (h x) \<noteq> pkt" xs]
      by (cases "?us = []") (auto simp: queue_rep_def split: list.splits)
    have "q_head q \<noteq> NULL" "d \<noteq> NULL" using Cons rep linked_not_null [of h "q_head q" xs] d
      by (auto simp: queue_rep_def split: if_splits) (cases xs; simp)
    moreover define w where "w = last (NULL # ?us)"
    ultimately have "c = d" and "h' = set_link d NULL h \<or> d \<noteq> q_head q \<and> h' = set_link d NULL (set_link w (queueLink (h d)) h)"
      using run find [folded w_def] Cons by (auto simp: Let_def split: if_splits)
    moreover have "y \<notin> set xs \<Longrightarrow> y \<noteq> d \<and> (d \<noteq> q_head q \<longrightarrow> y \<noteq> w)" using d prev w_def by auto
    ultimately show ?thesis
      using d set_link_links [of d NULL h y] set_link_links2 [of d NULL w "queueLink (h d)" h y]
      by (elim disjE conjE) (simp_all add: set_link_def)
  qed
qed

section \<open>The buffers and their places\<close>

definition held_of :: "ATH_SOCKET_CONTEXT \<Rightarrow> ptr multiset" where
  "held_of c = (if old_netbuf c = NULL then {#} else {#old_netbuf c#})"

definition buffers :: "'e net \<Rightarrow> (nat \<Rightarrow> ptr list) \<Rightarrow> ptr list \<Rightarrow> ptr list \<Rightarrow> ptr multiset" where
  "buffers s qs zs fs = (\<Sum>i<MAX_SOCKETS_SUPPORTED. held_of (sk i s) + mset (qs i)) + mset zs + mset fs"

text \<open>The socket queues hold \<open>qs\<close>, the zero-copy queue \<open>zs\<close>, the free queue \<open>fs\<close>, and the buffers in all
  places are \<open>P\<close>, each once.\<close>

definition sock_rep :: "ptr multiset \<Rightarrow> 'e net \<Rightarrow> (nat \<Rightarrow> ptr list) \<Rightarrow> ptr list \<Rightarrow> ptr list \<Rightarrow> bool" where
  "sock_rep P s qs zs fs \<longleftrightarrow> ptrs_ok s
     \<and> (\<forall>i<MAX_SOCKETS_SUPPORTED. queue_rep (nbs s, rxqueue (cust (sk i s))) (qs i))
     \<and> queue_rep (nbs s, zero_copy_free_queue (hw_env s)) zs \<and> rxfree_rep s fs
     \<and> buffers s qs zs fs = P \<and> (\<forall>x. count P x \<le> 1)"

lemma sum_one: "i < (n :: nat) \<Longrightarrow> f i \<subseteq># (\<Sum>k<n. f k :: 'a multiset)"
  by (subst sum.remove [of "{..<n}" i]) auto

lemma sum_two: "i < (n :: nat) \<Longrightarrow> j < n \<Longrightarrow> i \<noteq> j \<Longrightarrow> f i + f j \<subseteq># (\<Sum>k<n. f k :: 'a multiset)"
  by (subst sum.remove [of "{..<n}" i], simp, simp, subst sum.remove [of "{..<n} - {i}" j]) (auto simp: add.assoc [symmetric])

lemma no_dup: "A + B \<subseteq># P \<Longrightarrow> \<forall>x. count P x \<le> 1 \<Longrightarrow> x \<in># A \<Longrightarrow> x \<notin># B"
proof
  assume "x \<in># B" "x \<in># A" "A + B \<subseteq># P" and P: "\<forall>x. count P x \<le> 1"
  then have "0 < count A x" "0 < count B x" "count A x + count B x \<le> count P x"
    using mset_subset_eq_count [of "A + B" P x] by simp_all
  then show False using spec [OF P, of x] by arith
qed

lemma sock_repD:
  assumes "sock_rep P s qs zs fs"
  shows "ptrs_ok s" "i < MAX_SOCKETS_SUPPORTED \<Longrightarrow> queue_rep (nbs s, rxqueue (cust (sk i s))) (qs i)"
    "queue_rep (nbs s, zero_copy_free_queue (hw_env s)) zs" "rxfree_rep s fs" "queue_rep (nbs s, rxFreeQueue s) fs"
    "buffers s qs zs fs = P" "count P p \<le> 1"
  using assms by (auto simp: sock_rep_def rxfree_rep_def)

lemma places:
  assumes "sock_rep P s qs zs fs"
  shows "i < MAX_SOCKETS_SUPPORTED \<Longrightarrow> x \<in> set (qs i) \<Longrightarrow> x \<in># P" "x \<in> set zs \<Longrightarrow> x \<in># P" "x \<in> set fs \<Longrightarrow> x \<in># P"
    "i < MAX_SOCKETS_SUPPORTED \<Longrightarrow> old_netbuf (sk i s) \<noteq> NULL \<Longrightarrow> old_netbuf (sk i s) \<in># P"
proof -
  note P = sock_repD(6) [OF assms, unfolded buffers_def, symmetric]
  note one = sum_one [of _ MAX_SOCKETS_SUPPORTED "\<lambda>i. held_of (sk i s) + mset (qs i)", THEN mset_subset_eqD]
  show "i < MAX_SOCKETS_SUPPORTED \<Longrightarrow> x \<in> set (qs i) \<Longrightarrow> x \<in># P" using one [of i x] by (simp add: P)
  show "i < MAX_SOCKETS_SUPPORTED \<Longrightarrow> old_netbuf (sk i s) \<noteq> NULL \<Longrightarrow> old_netbuf (sk i s) \<in># P"
    using one [of i "old_netbuf (sk i s)"] by (simp add: P held_of_def)
qed (use sock_repD(6) [OF assms] in \<open>auto simp: buffers_def\<close>)

lemma disjoint_places:
  assumes rep: "sock_rep P s qs zs fs"
  shows "i < MAX_SOCKETS_SUPPORTED \<Longrightarrow> j < MAX_SOCKETS_SUPPORTED \<Longrightarrow> i \<noteq> j \<Longrightarrow> x \<in> set (qs i) \<Longrightarrow> x \<notin> set (qs j)"
    "i < MAX_SOCKETS_SUPPORTED \<Longrightarrow> x \<in> set (qs i) \<Longrightarrow> x \<notin> set zs" "i < MAX_SOCKETS_SUPPORTED \<Longrightarrow> x \<in> set (qs i) \<Longrightarrow> x \<notin> set fs"
    "x \<in> set zs \<Longrightarrow> x \<notin> set fs"
    "i < MAX_SOCKETS_SUPPORTED \<Longrightarrow> j < MAX_SOCKETS_SUPPORTED \<Longrightarrow> x \<in> set (qs i) \<Longrightarrow> x \<noteq> old_netbuf (sk j s)"
    "i < MAX_SOCKETS_SUPPORTED \<Longrightarrow> j < MAX_SOCKETS_SUPPORTED \<Longrightarrow> i \<noteq> j \<Longrightarrow> old_netbuf (sk i s) \<noteq> NULL \<Longrightarrow>
       old_netbuf (sk j s) \<noteq> old_netbuf (sk i s)"
proof -
  let ?f = "\<lambda>i. held_of (sk i s) + mset (qs i)"
  note P = sock_repD(6) [OF rep, unfolded buffers_def]
  have once: "\<forall>x. count P x \<le> 1" using sock_repD(7) [OF rep] by blast
  note nd = no_dup [OF _ once]
  show "i < MAX_SOCKETS_SUPPORTED \<Longrightarrow> x \<in> set (qs i) \<Longrightarrow> x \<notin> set zs" 
    using nd [of "sum ?f {..<MAX_SOCKETS_SUPPORTED}" "mset zs" x] mset_subset_eqD [OF sum_one [of i MAX_SOCKETS_SUPPORTED ?f], of x] P [symmetric] by simp
  show "i < MAX_SOCKETS_SUPPORTED \<Longrightarrow> x \<in> set (qs i) \<Longrightarrow> x \<notin> set fs" 
    using nd [of "sum ?f {..<MAX_SOCKETS_SUPPORTED} + mset zs" "mset fs" x] mset_subset_eqD [OF sum_one [of i MAX_SOCKETS_SUPPORTED ?f], of x] P [symmetric] by simp
  show "x \<in> set zs \<Longrightarrow> x \<notin> set fs" 
    using nd [of "sum ?f {..<MAX_SOCKETS_SUPPORTED} + mset zs" "mset fs" x] P [symmetric] by simp
  have two: "i < MAX_SOCKETS_SUPPORTED \<Longrightarrow> j < MAX_SOCKETS_SUPPORTED \<Longrightarrow> i \<noteq> j \<Longrightarrow> ?f i + ?f j \<subseteq># P"
    using sum_two [of i MAX_SOCKETS_SUPPORTED j ?f] P [symmetric] by (simp add: subset_mset.add_increasing2)
  show "i < MAX_SOCKETS_SUPPORTED \<Longrightarrow> j < MAX_SOCKETS_SUPPORTED \<Longrightarrow> i \<noteq> j \<Longrightarrow> x \<in> set (qs i) \<Longrightarrow> x \<notin> set (qs j)"
    using nd [OF two, of x] by simp
  show "i < MAX_SOCKETS_SUPPORTED \<Longrightarrow> j < MAX_SOCKETS_SUPPORTED \<Longrightarrow> i \<noteq> j \<Longrightarrow> old_netbuf (sk i s) \<noteq> NULL \<Longrightarrow>
      old_netbuf (sk j s) \<noteq> old_netbuf (sk i s)"
    using nd [OF two, of "old_netbuf (sk i s)"] by (auto simp: held_of_def split: if_splits)
  have self: "i < MAX_SOCKETS_SUPPORTED \<Longrightarrow> ?f i \<subseteq># P"
    using sum_one [of i MAX_SOCKETS_SUPPORTED ?f] P [symmetric] by (simp add: subset_mset.add_increasing2)
  show "i < MAX_SOCKETS_SUPPORTED \<Longrightarrow> j < MAX_SOCKETS_SUPPORTED \<Longrightarrow> x \<in> set (qs i) \<Longrightarrow> x \<noteq> old_netbuf (sk j s)"
    using nd [OF two, of x] nd [OF self, of x] queue_rep_facts [OF sock_repD(2) [OF rep, of i]]
    by (cases "i = j"; cases "old_netbuf (sk j s) = NULL") (auto simp: held_of_def)
qed

lemma place_sizes:
  assumes "sock_rep P s qs zs fs"
  shows "i < MAX_SOCKETS_SUPPORTED \<Longrightarrow> length (qs i) \<le> size P" "length zs \<le> size P" "length fs \<le> size P"
proof -
  note P = sock_repD(6) [OF assms, unfolded buffers_def, symmetric]
  show "i < MAX_SOCKETS_SUPPORTED \<Longrightarrow> length (qs i) \<le> size P"
    using size_mset_mono [OF sum_one [of i MAX_SOCKETS_SUPPORTED "\<lambda>i. held_of (sk i s) + mset (qs i)"]] by (simp add: P)
qed (simp_all add: sock_repD(6) [OF assms, unfolded buffers_def, symmetric])

lemma buffers_queue: "i < MAX_SOCKETS_SUPPORTED \<Longrightarrow>
    buffers s (qs(i := xs)) zs fs + mset (qs i) = buffers s qs zs fs + mset xs"
  by (simp add: buffers_def sum.remove [of "{..<MAX_SOCKETS_SUPPORTED}" i])

lemma sum_held_cong: "(\<And>j. j < MAX_SOCKETS_SUPPORTED \<Longrightarrow> old_netbuf (sk j s') = old_netbuf (sk j s)) \<Longrightarrow>
    buffers s' qs zs fs = buffers s qs zs fs"
  by (auto simp: buffers_def held_of_def intro!: sum.cong)

lemma buffers_held: "i < MAX_SOCKETS_SUPPORTED \<Longrightarrow> ptrs_ok s \<Longrightarrow>
    buffers (set_sk i f s) qs zs fs + held_of (sk i s) = buffers s qs zs fs + held_of (f (sk i s))"
  by (simp add: buffers_def sum.remove [of "{..<MAX_SOCKETS_SUPPORTED}" i] sk_set_sk)

lemma nbs_update_fields [simp]:
  "sk_ptr i (s\<lparr>nbs := h\<rparr>) = sk_ptr i s" "obj p (s\<lparr>nbs := h\<rparr>) = obj p s" "sk i (s\<lparr>nbs := h\<rparr>) = sk i s"
  "ptrs_ok (s\<lparr>nbs := h\<rparr>) = ptrs_ok s" "rxfree_rep (s\<lparr>nbs := h\<rparr>) xs = queue_rep (h, rxFreeQueue s) xs"
  by (simp_all add: sk_ptr_def obj_def sk_def ptrs_ok_def rxfree_rep_def)

lemma mem_update_fields [simp]:
  "sk_ptr i (s\<lparr>mem := m\<rparr>) = sk_ptr i s" "obj p (s\<lparr>mem := m\<rparr>) = obj p s" "sk i (s\<lparr>mem := m\<rparr>) = sk i s"
  "ptrs_ok (s\<lparr>mem := m\<rparr>) = ptrs_ok s"
  by (simp_all add: sk_ptr_def obj_def sk_def ptrs_ok_def)

section \<open>Moving buffers between the places\<close>

text \<open>The packets change in their links only.\<close>

definition links_only :: "'e drv \<Rightarrow> 'e drv \<Rightarrow> bool" where
  "links_only s s' \<longleftrightarrow> mem s' = mem s \<and> natives s' = natives s \<and> (\<forall>y. \<exists>l. nbs s' y = (nbs s y)\<lparr>queueLink := l\<rparr>)"

lemma sock_enqueue_rep:
  assumes rep: "sock_rep P s qs zs fs" and i: "i < MAX_SOCKETS_SUPPORTED" and p: "p \<notin># P" "p \<noteq> NULL"
    and size: "size P < queue_cap"
  shows "sock_rep (add_mset p P) (sock_enqueue i p s) (qs(i := qs i @ [p])) zs fs"
    "links_only s (sock_enqueue i p s)"
    "\<And>j. j \<le> GLOBAL_SOCK_INDEX \<Longrightarrow> j \<noteq> i \<Longrightarrow> sk j (sock_enqueue i p s) = sk j s"
    "\<exists>q. sk i (sock_enqueue i p s) = on_cust (rxqueue_update (\<lambda>_. q)) (sk i s)"
proof -
  let ?q = "rxqueue (cust (sk i s))"
  obtain h q where e: "a_netbuf_enqueue (nbs s, ?q) p = (h, q)" by fastforce
  have s': "sock_enqueue i p s = set_sk i (on_cust (rxqueue_update (\<lambda>_. q))) (s\<lparr>nbs := h\<rparr>)"
    by (simp add: sock_enqueue_def e del: a_netbuf_enqueue.simps)
  have ptr: "ptrs_ok (s\<lparr>nbs := h\<rparr>)" using sock_repD(1) [OF rep] by simp
  note sk' = sk_set_sk [OF ptr, of i _ "on_cust (rxqueue_update (\<lambda>_. q))", simplified]
  note ri = sock_repD(2) [OF rep i]
  have new: "p \<notin> set (qs i)" "p \<notin> set zs" "p \<notin> set fs" "\<And>j. j < MAX_SOCKETS_SUPPORTED \<Longrightarrow> p \<notin> set (qs j)"
    using places [OF rep] p i by auto
  have "queue_rep (h, q) (qs i @ [p])"
    using queue_rep_enqueue [OF ri p(2) new(1)] place_sizes(1) [OF rep i] size e by simp
  moreover have loc: "\<And>y. y \<notin> set (qs i) \<Longrightarrow> y \<noteq> p \<Longrightarrow> h y = nbs s y"
    using enqueue_local [OF ri] e by (metis fst_conv)
  have keep: "queue_rep (h, q') xs = queue_rep (nbs s, q') xs" if "\<forall>x\<in>set xs. x \<noteq> p \<and> x \<notin> set (qs i)" for q' xs
    by (rule queue_rep_cong) (use that loc in auto)
  have "queue_rep (h, rxqueue (cust (sk j s))) (qs j)" if "j < MAX_SOCKETS_SUPPORTED" "j \<noteq> i" for j
    using keep [of "qs j"] new(4) [OF that(1)] disjoint_places(1) [OF rep that(1) i that(2)] sock_repD(2) [OF rep that(1)] by auto
  moreover have "queue_rep (h, zero_copy_free_queue (hw_env s)) zs" "queue_rep (h, rxFreeQueue s) fs"
    using keep [of zs] keep [of fs] new(2,3) disjoint_places(2,3) [OF rep i] sock_repD(3,5) [OF rep] by auto
  moreover have "buffers (sock_enqueue i p s) (qs(i := qs i @ [p])) zs fs = add_mset p P"
    using buffers_queue [OF i, of "sock_enqueue i p s" qs "qs i @ [p]" zs fs] sum_held_cong [of "sock_enqueue i p s" s]
      sock_repD(6) [OF rep] sk' i by (simp add: s')
  ultimately show "sock_rep (add_mset p P) (sock_enqueue i p s) (qs(i := qs i @ [p])) zs fs"
    using ptr p i sk' sock_repD(7) [OF rep] by (auto simp: sock_rep_def s' not_in_iff)
  show "links_only s (sock_enqueue i p s)"
    using enqueue_links [of "nbs s" ?q p] e by (simp add: links_only_def s')
  show "\<And>j. j \<le> GLOBAL_SOCK_INDEX \<Longrightarrow> j \<noteq> i \<Longrightarrow> sk j (sock_enqueue i p s) = sk j s"
    using sk' i by (simp add: s')
  show "\<exists>q. sk i (sock_enqueue i p s) = on_cust (rxqueue_update (\<lambda>_. q)) (sk i s)"
    by (auto simp: s')
qed

lemma sock_dequeue_empty: "sock_rep P s qs zs fs \<Longrightarrow> i < MAX_SOCKETS_SUPPORTED \<Longrightarrow> qs i = [] \<Longrightarrow> sock_dequeue i s = (NULL, s)"
  using queue_rep_dequeue_empty [of "(nbs s, rxqueue (cust (sk i s)))"] sock_repD(2) [of P s qs zs fs i]
  by (simp add: sock_dequeue_def set_sk_def set_obj_def on_env_def sk_def [symmetric] obj_def [symmetric] fun_upd_idem
      del: a_netbuf_dequeue.simps)

lemma sock_dequeue_rep:
  assumes rep: "sock_rep P s qs zs fs" and i: "i < MAX_SOCKETS_SUPPORTED" and x: "qs i = x # xs"
  obtains s' where "sock_dequeue i s = (x, s')" "sock_rep (P - {#x#}) s' (qs(i := xs)) zs fs" "x \<in># P" "x \<notin># P - {#x#}" "x \<noteq> NULL"
    "links_only s s'" "\<And>j. j \<le> GLOBAL_SOCK_INDEX \<Longrightarrow> j \<noteq> i \<Longrightarrow> sk j s' = sk j s"
    "\<exists>q. sk i s' = on_cust (rxqueue_update (\<lambda>_. q)) (sk i s)"
proof -
  let ?q = "rxqueue (cust (sk i s))"
  note ri = sock_repD(2) [OF rep i]
  obtain h q where e: "a_netbuf_dequeue (nbs s, ?q) = (x, h, q)" and q: "queue_rep (h, q) xs"
    using queue_rep_dequeue [OF ri [unfolded x]] by fastforce
  define s' where "s' = set_sk i (on_cust (rxqueue_update (\<lambda>_. q))) (s\<lparr>nbs := h\<rparr>)"
  have run: "sock_dequeue i s = (x, s')" by (simp add: sock_dequeue_def e s'_def del: a_netbuf_dequeue.simps)
  have ptr: "ptrs_ok (s\<lparr>nbs := h\<rparr>)" using sock_repD(1) [OF rep] by simp
  note sk' = sk_set_sk [OF ptr, of i _ "on_cust (rxqueue_update (\<lambda>_. q))", simplified]
  have loc: "\<And>y. y \<notin> set (qs i) \<Longrightarrow> h y = nbs s y"
    using dequeue_local [OF ri] e by (metis fst_conv snd_conv)
  have keep: "queue_rep (h, q') ys = queue_rep (nbs s, q') ys" if "\<forall>y\<in>set ys. y \<notin> set (qs i)" for q' ys
    by (rule queue_rep_cong) (use that loc in auto)
  have xP: "x \<in># P" using places(1) [OF rep i, of x] x by simp
  have xn: "x \<noteq> NULL" using queue_rep_facts [OF ri] x by auto
  have "queue_rep (h, rxqueue (cust (sk j s))) (qs j)" if "j < MAX_SOCKETS_SUPPORTED" "j \<noteq> i" for j
    using keep [of "qs j"] disjoint_places(1) [OF rep that(1) i that(2)] sock_repD(2) [OF rep that(1)] by auto
  moreover have "queue_rep (h, zero_copy_free_queue (hw_env s)) zs" "queue_rep (h, rxFreeQueue s) fs"
    using keep [of zs] keep [of fs] disjoint_places(2,3) [OF rep i] sock_repD(3,5) [OF rep] by auto
  moreover have "add_mset x (buffers s' (qs(i := xs)) zs fs) = P"
    using buffers_queue [OF i, of s' qs xs zs fs] sum_held_cong [of s' s] sock_repD(6) [OF rep] sk' i
    by (simp add: s'_def x)
  then have "buffers s' (qs(i := xs)) zs fs = P - {#x#}" by (metis add_mset_remove_trivial)
  moreover have once: "count (P - {#x#}) y \<le> 1" for y using sock_repD(7) [OF rep, of y] by simp
  ultimately have "sock_rep (P - {#x#}) s' (qs(i := xs)) zs fs"
    using ptr i sk' q by (simp add: sock_rep_def s'_def)
  moreover have "x \<notin># P - {#x#}" using sock_repD(7) [OF rep, of x] by (simp add: not_in_iff)
  moreover have "links_only s s'" using dequeue_links [of "nbs s" ?q] e by (simp add: links_only_def s'_def)
  moreover have "\<And>j. j \<le> GLOBAL_SOCK_INDEX \<Longrightarrow> j \<noteq> i \<Longrightarrow> sk j s' = sk j s" using sk' i by (simp add: s'_def)
  moreover have "\<exists>q. sk i s' = on_cust (rxqueue_update (\<lambda>_. q)) (sk i s)" by (auto simp: s'_def)
  ultimately show thesis using that run xP xn by blast
qed

lemma zc_enqueue_rep:
  assumes rep: "sock_rep P s qs zs fs" and p: "p \<notin># P" "p \<noteq> NULL" and size: "size P < queue_cap"
  shows "sock_rep (add_mset p P) (zc_enqueue p s) qs (zs @ [p]) fs" "links_only s (zc_enqueue p s)"
    "sk j (zc_enqueue p s) = sk j s"
proof -
  let ?q = "zero_copy_free_queue (hw_env s)"
  obtain h q where e: "a_netbuf_enqueue (nbs s, ?q) p = (h, q)" by fastforce
  have s': "zc_enqueue p s = on_env (zero_copy_free_queue_update (\<lambda>_. q)) (s\<lparr>nbs := h\<rparr>)"
    by (simp add: zc_enqueue_def e del: a_netbuf_enqueue.simps)
  note rz = sock_repD(3) [OF rep]
  have new: "p \<notin> set zs" "p \<notin> set fs" "\<And>j. j < MAX_SOCKETS_SUPPORTED \<Longrightarrow> p \<notin> set (qs j)"
    using places [OF rep] p by auto
  have loc: "\<And>y. y \<notin> set zs \<Longrightarrow> y \<noteq> p \<Longrightarrow> h y = nbs s y" using enqueue_local [OF rz] e by (metis fst_conv)
  have keep: "queue_rep (h, q') xs = queue_rep (nbs s, q') xs" if "\<forall>x\<in>set xs. x \<noteq> p \<and> x \<notin> set zs" for q' xs
    by (rule queue_rep_cong) (use that loc in auto)
  show sk': "sk j (zc_enqueue p s) = sk j s" for j by (simp add: s' sk_def obj_def sk_ptr_def)
  have "queue_rep (h, q) (zs @ [p])"
    using queue_rep_enqueue [OF rz p(2) new(1)] place_sizes(2) [OF rep] size e by simp
  moreover have "queue_rep (h, rxqueue (cust (sk j s))) (qs j)" if "j < MAX_SOCKETS_SUPPORTED" for j
    using keep [of "qs j"] new(3) [OF that] disjoint_places(2) [OF rep that] sock_repD(2) [OF rep that] by auto
  moreover have "queue_rep (h, rxFreeQueue s) fs"
    using keep [of fs] new(2) disjoint_places(4) [OF rep] sock_repD(5) [OF rep] by auto
  moreover have "buffers (zc_enqueue p s) qs (zs @ [p]) fs = add_mset p P"
    using sock_repD(6) [OF rep] by (simp add: buffers_def sk')
  moreover have "ptrs_ok (zc_enqueue p s)" using sock_repD(1) [OF rep] by (simp add: s' ptrs_ok_def sk_ptr_def)
  ultimately show "sock_rep (add_mset p P) (zc_enqueue p s) qs (zs @ [p]) fs"
    using sk' p sock_repD(7) [OF rep] by (auto simp: sock_rep_def not_in_iff s')
  show "links_only s (zc_enqueue p s)" using enqueue_links [of "nbs s" ?q p] e by (simp add: links_only_def s')
qed

lemma free_rx_rep:
  assumes rep: "sock_rep P s qs zs fs" and p: "p \<notin># P" "p \<noteq> NULL" and size: "size P < queue_cap"
    and pool: "rxPoolID (nbs s p) \<noteq> 0"
  shows "sock_rep (add_mset p P) (a_netbuf_free M U p s) qs zs (fs @ [p])" "links_only s (a_netbuf_free M U p s)"
    "hw_env (a_netbuf_free M U p s) = hw_env s"
proof -
  obtain h q where e: "a_netbuf_enqueue (nbs s, rxFreeQueue s) p = (h, q)" by fastforce
  have s': "a_netbuf_free M U p s = Driver_ReportRxBuffStatus True (s\<lparr>nbs := h, rxFreeQueue := q\<rparr>)"
    using pool by (simp add: a_netbuf_free_def a_netbuf_free_rx_pool_def rxfree_enqueue_def e del: a_netbuf_enqueue.simps)
  note rf = sock_repD(5) [OF rep]
  have new: "p \<notin> set zs" "p \<notin> set fs" "\<And>j. j < MAX_SOCKETS_SUPPORTED \<Longrightarrow> p \<notin> set (qs j)"
    using places [OF rep] p by auto
  have loc: "\<And>y. y \<notin> set fs \<Longrightarrow> y \<noteq> p \<Longrightarrow> h y = nbs s y" using enqueue_local [OF rf] e by (metis fst_conv)
  have keep: "queue_rep (h, q') xs = queue_rep (nbs s, q') xs" if "\<forall>x\<in>set xs. x \<noteq> p \<and> x \<notin> set fs" for q' xs
    by (rule queue_rep_cong) (use that loc in auto)
  show env: "hw_env (a_netbuf_free M U p s) = hw_env s"
    by (simp add: s' Driver_ReportRxBuffStatus_def Driver_WakeDriver_def Let_def)
  note sk' = drv_update_env [OF env]
  have "queue_rep (h, q) (fs @ [p])"
    using queue_rep_enqueue [OF rf p(2) new(2)] place_sizes(3) [OF rep] size e by simp
  then have "rxfree_rep (a_netbuf_free M U p s) (fs @ [p])"
    by (simp add: s' rxfree_rep_def Driver_ReportRxBuffStatus_def Driver_WakeDriver_def Let_def)
  moreover have "queue_rep (h, rxqueue (cust (sk j s))) (qs j)" if "j < MAX_SOCKETS_SUPPORTED" for j
    using keep [of "qs j"] new(3) [OF that] disjoint_places(3) [OF rep that] sock_repD(2) [OF rep that] by auto
  moreover have "queue_rep (h, zero_copy_free_queue (hw_env s)) zs"
    using keep [of zs] new(1) disjoint_places(4) [OF rep] sock_repD(3) [OF rep] by auto
  moreover have "buffers (a_netbuf_free M U p s) qs zs (fs @ [p]) = add_mset p P"
    using sock_repD(6) [OF rep] sk' by (simp add: buffers_def)
  moreover have "ptrs_ok (a_netbuf_free M U p s)" using sock_repD(1) [OF rep] sk' by (simp add: ptrs_ok_def)
  ultimately show "sock_rep (add_mset p P) (a_netbuf_free M U p s) qs zs (fs @ [p])"
    using sk' p sock_repD(7) [OF rep] by (auto simp: sock_rep_def not_in_iff env) (simp_all add: s')
  show "links_only s (a_netbuf_free M U p s)"
    using enqueue_links [of "nbs s" "rxFreeQueue s" p] e
    by (simp add: links_only_def s') (simp add: Driver_ReportRxBuffStatus_def Driver_WakeDriver_def Let_def)
qed

lemma zc_remove_rep:
  assumes rep: "sock_rep P s qs zs fs"
    and run: "a_netbuf_dequeue_adv (nbs s, zero_copy_free_queue (hw_env s)) pkt = Some (c, h, q)"
    and q: "queue_rep (h, q) zs'" and c: "mset zs = (if c = NULL then {#} else {#c#}) + mset zs'"
  defines "s' \<equiv> on_env (zero_copy_free_queue_update (\<lambda>_. q)) (s\<lparr>nbs := h\<rparr>)"
  shows "sock_rep (P - (if c = NULL then {#} else {#c#})) s' qs zs' fs" "links_only s s'" "sk j s' = sk j s"
proof -
  note local = dequeue_adv_local [OF sock_repD(3) [OF rep] run]
  have keep: "queue_rep (h, q') xs = queue_rep (nbs s, q') xs" if "\<forall>x\<in>set xs. x \<notin> set zs" for q' xs
    by (rule queue_rep_cong) (use that local in auto)
  show sk': "sk j s' = sk j s" for j by (simp add: s'_def sk_def obj_def sk_ptr_def)
  have "queue_rep (h, rxqueue (cust (sk j s))) (qs j)" if "j < MAX_SOCKETS_SUPPORTED" for j
    using keep [of "qs j"] disjoint_places(2) [OF rep that] sock_repD(2) [OF rep that] by auto
  moreover have "queue_rep (h, rxFreeQueue s) fs"
    using keep [of fs] disjoint_places(4) [OF rep] sock_repD(5) [OF rep] by auto
  moreover have "buffers s' qs zs' fs = P - (if c = NULL then {#} else {#c#})"
    using sock_repD(6) [OF rep, symmetric] by (simp add: buffers_def sk' c)
  moreover have "ptrs_ok s'" using sock_repD(1) [OF rep] by (simp add: s'_def ptrs_ok_def sk_ptr_def)
  moreover have "count (P - (if c = NULL then {#} else {#c#})) y \<le> 1" for y using sock_repD(7) [OF rep, of y] by simp
  ultimately show "sock_rep (P - (if c = NULL then {#} else {#c#})) s' qs zs' fs"
    using sk' q by (simp add: sock_rep_def s'_def)
  show "links_only s s'" using local by (simp add: links_only_def s'_def)
qed

lemma set_sk_rep:
  assumes rep: "sock_rep P s qs zs fs" and i: "i < MAX_SOCKETS_SUPPORTED"
    and q: "rxqueue (cust (f (sk i s))) = rxqueue (cust (sk i s))"
    and P: "P' + held_of (sk i s) = P + held_of (f (sk i s))" "\<And>x. count P' x \<le> 1"
  shows "sock_rep P' (set_sk i f s) qs zs fs"
proof -
  have "buffers (set_sk i f s) qs zs fs + held_of (sk i s) = P + held_of (f (sk i s))"
    using buffers_held [OF i sock_repD(1) [OF rep], of f qs zs fs] sock_repD(6) [OF rep] by simp
  then have "buffers (set_sk i f s) qs zs fs = P'" using P(1) by (metis add_right_cancel)
  moreover have "rxqueue (cust (sk j (set_sk i f s))) = rxqueue (cust (sk j s))" if "j < MAX_SOCKETS_SUPPORTED" for j
    using sk_set_sk [OF sock_repD(1) [OF rep], of i j f] i that q by simp
  ultimately show ?thesis using rep P(2) by (simp add: sock_rep_def)
qed

lemma nb_update_rep:
  "sock_rep P s qs zs fs \<Longrightarrow> queueLink nb = queueLink (nbs s p) \<Longrightarrow> sock_rep P (s\<lparr>nbs := (nbs s)(p := nb)\<rparr>) qs zs fs"
  by (auto simp: sock_rep_def rxfree_rep_def buffers_def
      queue_rep_cong [of _ "(nbs s)(p := nb)" "nbs s"])

lemma sock_rep_cong:
  assumes "hw_env s' = hw_env s" "nbs s' = nbs s" "rxFreeQueue s' = rxFreeQueue s"
  shows "sock_rep P s' qs zs fs = sock_rep P s qs zs fs"
  using drv_update_env [OF assms(1)] assms by (simp add: sock_rep_def rxfree_rep_def buffers_def ptrs_ok_def)

lemma set_error_rep [simp]: "sock_rep P (set_error e s) qs zs fs = sock_rep P s qs zs fs"
  and unblockSelect_rep [simp]: "sock_rep P (unblockSelect s) qs zs fs = sock_rep P s qs zs fs"
  by (simp_all add: sock_rep_def buffers_def)

lemma unblock_set_sk: "\<exists>f. unblock (sk_ptr i s) d s = set_sk i (on_cust f) s \<and> (\<forall>k. rxqueue (f k) = rxqueue k)"
  by (rule exI [of _ "\<lambda>k. if d = RX_DIRECTION then
       let k = k\<lparr>respAvailable := True\<rparr> in if rxBlock k then k\<lparr>sockRxWakeEvent := True\<rparr> else k
     else if d = TX_DIRECTION then
       let k = k\<lparr>txUnblocked := True\<rparr> in if txBlock k then k\<lparr>sockTxWakeEvent := True\<rparr> else k
     else k"]) (simp add: unblock_def set_sk_def Let_def)

lemma on_cust_rep:
  "sock_rep P s qs zs fs \<Longrightarrow> i < MAX_SOCKETS_SUPPORTED \<Longrightarrow> (\<And>k. rxqueue (f k) = rxqueue k) \<Longrightarrow>
   sock_rep P (set_sk i (on_cust f) s) qs zs fs"
  by (rule set_sk_rep) (auto simp: held_of_def dest: sock_repD(7))

section \<open>The invariant\<close>

text \<open>A packet that waits to be read is a single buffer of less than 64 kB; a context knows how much is left
  of a packet exactly if it holds one.\<close>

definition rx_packet :: "netbuf \<Rightarrow> bool" where
  "rx_packet nb \<longleftrightarrow> nb_wf nb \<and> num_frags nb = 0 \<and> nb_tail nb - nb_data nb < 0x10000"

definition waiting :: "'e net \<Rightarrow> (nat \<Rightarrow> ptr list) \<Rightarrow> ptr set" where
  "waiting s qs = (\<Union>i<MAX_SOCKETS_SUPPORTED. set (qs i) \<union> (if old_netbuf (sk i s) = NULL then {} else {old_netbuf (sk i s)}))"

definition sock_inv :: "ptr multiset \<Rightarrow> 'e net \<Rightarrow> (nat \<Rightarrow> ptr list) \<Rightarrow> ptr list \<Rightarrow> ptr list \<Rightarrow> bool" where
  "sock_inv P s qs zs fs \<longleftrightarrow> sock_rep P s qs zs fs \<and> (\<forall>p\<in>#P. rxPoolID (nbs s p) \<noteq> 0)
     \<and> (\<forall>i<MAX_SOCKETS_SUPPORTED. remaining_bytes (sk i s) = 0 \<longleftrightarrow> old_netbuf (sk i s) = NULL)
     \<and> (\<forall>p\<in>waiting s qs. rx_packet (nbs s p))"

lemma links_onlyD:
  assumes "links_only s s'"
  shows "rxPoolID (nbs s' p) = rxPoolID (nbs s p)" "rx_packet (nbs s' p) = rx_packet (nbs s p)"
    "packet_bytes m (nbs s' p) = packet_bytes m (nbs s p)" "nb_len p s' = nb_len p s" "mem s' = mem s"
    "nb_data (nbs s' p) = nb_data (nbs s p)" "a_netbuf_pull (nbs s' p) n = map_option (queueLink_update (\<lambda>_. queueLink (nbs s' p))) (a_netbuf_pull (nbs s p) n)"
proof -
  obtain l where l: "nbs s' p = (nbs s p)\<lparr>queueLink := l\<rparr>" using assms by (auto simp: links_only_def)
  then show "rxPoolID (nbs s' p) = rxPoolID (nbs s p)" "rx_packet (nbs s' p) = rx_packet (nbs s p)"
    "packet_bytes m (nbs s' p) = packet_bytes m (nbs s p)" "nb_data (nbs s' p) = nb_data (nbs s p)"
    by (simp_all add: rx_packet_def nb_wf_def packet_bytes_def)
  show "nb_len p s' = nb_len p s" "mem s' = mem s"
    using assms l by (simp_all add: links_only_def nb_len_def)
  show "a_netbuf_pull (nbs s' p) n = map_option (queueLink_update (\<lambda>_. queueLink (nbs s' p))) (a_netbuf_pull (nbs s p) n)"
    using l by (simp add: a_netbuf_pull_def A_ASSERT_def)
qed

lemma links_only_refl: "nbs s' = nbs s \<Longrightarrow> mem s' = mem s \<Longrightarrow> natives s' = natives s \<Longrightarrow> links_only s s'"
proof -
  have "\<exists>l. nbs s y = (nbs s y)\<lparr>queueLink := l\<rparr>" for y by (rule exI [of _ "queueLink (nbs s y)"]) simp
  then show "nbs s' = nbs s \<Longrightarrow> mem s' = mem s \<Longrightarrow> natives s' = natives s \<Longrightarrow> links_only s s'"
    by (simp add: links_only_def)
qed

lemma links_only_trans: "links_only s t \<Longrightarrow> links_only t u \<Longrightarrow> links_only s u"
proof -
  assume a: "links_only s t" and b: "links_only t u"
  have "\<exists>l. nbs u y = (nbs s y)\<lparr>queueLink := l\<rparr>" for y
  proof -
    obtain k where "nbs t y = (nbs s y)\<lparr>queueLink := k\<rparr>" using a by (auto simp: links_only_def)
    moreover obtain l where "nbs u y = (nbs t y)\<lparr>queueLink := l\<rparr>" using b unfolding links_only_def by blast
    ultimately show ?thesis by auto
  qed
  with a b show ?thesis by (simp add: links_only_def)
qed

end
