(* ===== verification/Sock_Flow.thy ===== *)
theory Sock_Flow
  imports Sock_Pool
begin

text \<open>
  The operations of the receive path against the places of the buffers, and what an application
  reads from a stream socket.
\<close>

section \<open>Delivering\<close>

text \<open>The socket that gets a packet, if one does: the one its header names, unless it waits for a command's
  answer or enough packets are buffered.\<close>

definition accepting :: "ptr \<Rightarrow> 'e net \<Rightarrow> nat option" where
  "accepting p s = (case find_socket_context (mem32 (mem s) (a_netbuf_to_data (nbs s p))) True s of None \<Rightarrow> None
     | Some i \<Rightarrow> if custom_sock_is_pending (sk i s) = 0
           \<and> get_total_pkts_buffered s < (if get_holding_buffer s \<ge> 2 then BSP_CONFIG_ATHEROS_PCB - 1 else BSP_CONFIG_ATHEROS_PCB)
         then Some i else None)"

lemma receive_Some: "p \<noteq> NULL \<Longrightarrow> accepting p s = Some i \<Longrightarrow>
    custom_receive_tcpip M U p s = (A_OK, unblock (sk_ptr i s) RX_DIRECTION (sock_enqueue i p (unblockSelect s)))"
  and receive_None: "p \<noteq> NULL \<Longrightarrow> accepting p s = None \<Longrightarrow> \<exists>s'. snd (custom_receive_tcpip M U p s) = a_netbuf_free M U p s'
    \<and> (s' = set_error A_SOCKCXT_NOT_FOUND s \<or> s' = set_error A_SOCK_UNAVAILABLE s \<or> s' = unblockSelect s)"
proof -
  have quiet: "get_holding_buffer (unblockSelect s) = get_holding_buffer s"
    "get_total_pkts_buffered (unblockSelect s) = get_total_pkts_buffered s"
    by (simp_all add: get_holding_buffer_def get_total_pkts_buffered_def cong: if_cong)
  show "p \<noteq> NULL \<Longrightarrow> accepting p s = Some i \<Longrightarrow>
      custom_receive_tcpip M U p s = (A_OK, unblock (sk_ptr i s) RX_DIRECTION (sock_enqueue i p (unblockSelect s)))"
    by (auto simp: custom_receive_tcpip_def accepting_def Let_def quiet split: option.splits if_splits)
  show "p \<noteq> NULL \<Longrightarrow> accepting p s = None \<Longrightarrow> \<exists>s'. snd (custom_receive_tcpip M U p s) = a_netbuf_free M U p s'
      \<and> (s' = set_error A_SOCKCXT_NOT_FOUND s \<or> s' = set_error A_SOCK_UNAVAILABLE s \<or> s' = unblockSelect s)"
    by (auto simp: custom_receive_tcpip_def accepting_def Let_def quiet split: option.splits if_splits)
qed

lemma accepting_index: "accepting p s = Some i \<Longrightarrow> i < MAX_SOCKETS_SUPPORTED"
  by (auto simp: accepting_def find_socket_Some split: option.splits if_splits)

text \<open>What stays of a context when its queue and its flags change.\<close>

definition same_socket :: "ATH_SOCKET_CONTEXT \<Rightarrow> ATH_SOCKET_CONTEXT \<Rightarrow> bool" where
  "same_socket c c' \<longleftrightarrow> handle c' = handle c \<and> domain c' = domain c \<and> sock_type c' = sock_type c
     \<and> remaining_bytes c' = remaining_bytes c \<and> old_netbuf c' = old_netbuf c"

lemma deliver_rep:
  fixes M :: "'e sockets mqx" and U
  assumes rep: "sock_rep P s qs zs fs" and p: "p \<notin># P" "p \<noteq> NULL" "rxPoolID (nbs s p) \<noteq> 0" and size: "size P < queue_cap"
  defines "s' \<equiv> snd (custom_receive_tcpip M U p s)"
  shows "links_only s s'" "j < MAX_SOCKETS_SUPPORTED \<Longrightarrow> same_socket (sk j s) (sk j s')"
    "case accepting p s of Some i \<Rightarrow> sock_rep (add_mset p P) s' (qs(i := qs i @ [p])) zs fs
       | None \<Rightarrow> sock_rep (add_mset p P) s' qs zs (fs @ [p])"
proof -
  have "links_only s s' \<and> (\<forall>j<MAX_SOCKETS_SUPPORTED. same_socket (sk j s) (sk j s')) \<and>
    (case accepting p s of Some i \<Rightarrow> sock_rep (add_mset p P) s' (qs(i := qs i @ [p])) zs fs
       | None \<Rightarrow> sock_rep (add_mset p P) s' qs zs (fs @ [p]))"
  proof (cases "accepting p s")
    case (Some i)
    note i = accepting_index [OF Some]
    let ?u = "unblockSelect s" and ?t = "sock_enqueue i p (unblockSelect s)"
    have rep: "sock_rep P ?u qs zs fs" using rep by simp
    note e = sock_enqueue_rep [OF rep i p(1,2) size]
    obtain f where f: "unblock (sk_ptr i ?t) RX_DIRECTION ?t = set_sk i (on_cust f) ?t" "\<And>k. rxqueue (f k) = rxqueue k"
      using unblock_set_sk by blast
    have "sk_ptr i ?t = sk_ptr i s" by (simp add: sock_enqueue_def split: prod.splits)
    then have s': "s' = set_sk i (on_cust f) ?t" using receive_Some [OF p(2) Some, of M U] f by (simp add: s'_def)
    have "links_only s s'" using e(2) by (simp add: s' links_only_def)
    moreover have "same_socket (sk j s) (sk j s')" if "j < MAX_SOCKETS_SUPPORTED" for j
      using e(3) [of j] e(4) sk_set_sk [OF sock_repD(1) [OF e(1)], of i j "on_cust f"] i that
      by (auto simp: s' same_socket_def)
    moreover have "sock_rep (add_mset p P) s' (qs(i := qs i @ [p])) zs fs"
      using on_cust_rep [OF e(1) i f(2)] s' by simp
    ultimately show ?thesis using Some by simp
  next
    case None
    obtain t where t: "s' = a_netbuf_free M U p t" "t = set_error A_SOCKCXT_NOT_FOUND s \<or> t = set_error A_SOCK_UNAVAILABLE s \<or> t = unblockSelect s"
      using receive_None [OF p(2) None, of M U] by (auto simp: s'_def)
    have "sock_rep P t qs zs fs" "nbs t = nbs s" "\<And>j. sk j t = sk j s" "links_only s t"
      using t(2) rep by (auto intro: links_only_refl)
    note fr = free_rx_rep [OF this(1) p(1,2) size, of M U, folded t(1)] and this(2-)
    then show ?thesis using p(3) None drv_update_env [of s' t] links_only_trans [of s t s']
      by (simp add: same_socket_def)
  qed
  then show "links_only s s'" "j < MAX_SOCKETS_SUPPORTED \<Longrightarrow> same_socket (sk j s) (sk j s')"
    "case accepting p s of Some i \<Rightarrow> sock_rep (add_mset p P) s' (qs(i := qs i @ [p])) zs fs
       | None \<Rightarrow> sock_rep (add_mset p P) s' qs zs (fs @ [p])" by blast+
qed

section \<open>Reading\<close>

text \<open>The number of bytes in front of the payload.\<close>

definition recv_hdr :: "ATH_SOCKET_CONTEXT \<Rightarrow> nat" where
  "recv_hdr c = (if domain c = ATH_AF_INET then 20 else 40)"

lemma recv_header_Some: "recv_header c d nam sl m = Some (n, m') \<Longrightarrow>
    unat n = recv_hdr c \<and> (sock_type c = SOCK_STREAM_TYPE \<longrightarrow> m' = m)"
  by (auto simp: recv_header_def recv_hdr_def Let_def split: if_splits)

text \<open>A packet at hand that the places \<open>P\<close> of the buffers include: a held part, or one out of all places \<open>Q\<close>.\<close>

definition at_hand :: "bool \<Rightarrow> ptr multiset \<Rightarrow> ptr multiset \<Rightarrow> ptr \<Rightarrow> ATH_SOCKET_CONTEXT \<Rightarrow> bool" where
  "at_hand part P Q p c \<longleftrightarrow> p \<noteq> NULL \<and> (\<forall>x. count P x \<le> 1) \<and>
     (if part then sock_type c = SOCK_STREAM_TYPE \<and> old_netbuf c = p \<and> Q = P \<and> p \<in># P
      else P = add_mset p Q \<and> p \<notin># Q \<and> (sock_type c = SOCK_STREAM_TYPE \<longrightarrow> old_netbuf c = NULL))"

lemma take_rep_drop:
  assumes rep: "sock_rep Q s qs zs fs" and i: "i < MAX_SOCKETS_SUPPORTED" and hand: "at_hand part P Q p (sk i s)"
  shows "sock_rep (P - {#p#}) (if sock_type (sk i s) = SOCK_STREAM_TYPE
    then set_sk i (\<lambda>c. c\<lparr>remaining_bytes := 0, old_netbuf := NULL\<rparr>) s else s) qs zs fs"
proof (cases "sock_type (sk i s) = SOCK_STREAM_TYPE")
  case True
  let ?f = "\<lambda>c. c\<lparr>remaining_bytes := 0, old_netbuf := NULL\<rparr>"
  have "sock_rep (P - {#p#}) (set_sk i ?f s) qs zs fs"
  proof (rule set_sk_rep [OF rep i])
    show "(P - {#p#}) + held_of (sk i s) = Q + held_of (?f (sk i s))"
      using hand True by (auto simp: at_hand_def held_of_def split: if_splits)
    show "count (P - {#p#}) x \<le> 1" for x using hand by (auto simp: at_hand_def intro: le_trans [OF diff_le_self])
  qed simp
  with True show ?thesis by simp
next
  case False
  with hand rep show ?thesis by (auto simp: at_hand_def split: if_splits)
qed

lemma at_handD: "at_hand part P Q p c \<Longrightarrow> p \<noteq> NULL \<and> p \<in># P \<and> p \<notin># P - {#p#}"
  by (auto simp: at_hand_def not_in_iff split: if_splits dest: spec [of _ p])

lemma take_rep_keep:
  assumes rep: "sock_rep Q s qs zs fs" and i: "i < MAX_SOCKETS_SUPPORTED" and hand: "at_hand part P Q p (sk i s)"
    and stream: "sock_type (sk i s) = SOCK_STREAM_TYPE"
  shows "sock_rep P (set_sk i (\<lambda>c. c\<lparr>remaining_bytes := k, old_netbuf := p\<rparr>) s) qs zs fs"
proof (rule set_sk_rep [OF rep i])
  show "P + held_of (sk i s) = Q + held_of ((sk i s)\<lparr>remaining_bytes := k, old_netbuf := p\<rparr>)"
    using hand stream by (auto simp: at_hand_def held_of_def split: if_splits)
  show "count P x \<le> 1" for x using hand by (simp add: at_hand_def)
qed simp

text \<open>What is left to read of a packet at hand.\<close>

definition unread :: "bool \<Rightarrow> memory \<Rightarrow> ATH_SOCKET_CONTEXT \<Rightarrow> netbuf \<Rightarrow> u8 list" where
  "unread part m c nb = drop (if part then 0 else recv_hdr c) (packet_bytes m nb)"

lemma left_nonzero:
  assumes "n < L" "L < (0x10000 :: u32)"
  shows "(ucast (L - n) :: u16) \<noteq> 0"
proof -
  have "L - n \<le> L" "L - n \<noteq> 0" using assms(1) word_sub_le [of n L] by auto
  then have "unat (L - n) < 0x10000" "0 < unat (L - n)"
    using assms(2) by (simp_all add: word_le_nat_alt word_less_nat_alt unat_gt_0)
  then have "unat (ucast (L - n) :: u16) \<noteq> 0" by (simp add: unsigned_ucast_eq take_bit_eq_mod)
  then show ?thesis by auto
qed

lemma pull_returns: "n \<le> nb_tail nb - nb_data nb \<Longrightarrow> a_netbuf_pull nb n = Some (nb\<lparr>nb_data := nb_data nb + n\<rparr>)"
  by (auto simp: a_netbuf_pull_def A_ASSERT_def)

lemma take_pulled:
  assumes "n \<le> nb_tail nb - nb_data nb" "rx_packet nb"
  shows "rx_packet (nb\<lparr>nb_data := nb_data nb + n\<rparr>)"
    "mem_bytes m (nb_data nb) (unat n) @ packet_bytes m (nb\<lparr>nb_data := nb_data nb + n\<rparr>) = packet_bytes m nb"
proof -
  note pull = pull_returns [OF assms(1)]
  show "rx_packet (nb\<lparr>nb_data := nb_data nb + n\<rparr>)"
    using assms a_netbuf_pull_wf [OF _ pull] word_sub_le [OF assms(1)] by (auto simp: rx_packet_def diff_diff_eq)
  show "mem_bytes m (nb_data nb) (unat n) @ packet_bytes m (nb\<lparr>nb_data := nb_data nb + n\<rparr>) = packet_bytes m nb"
    using packet_bytes_pull [OF pull, of m] mem_bytes_take [of "unat n" "unat (nb_tail nb - nb_data nb)" m "nb_data nb"] assms(1)
    by (simp add: packet_bytes_def word_le_nat_alt)
qed

lemma set_sk_merge: "set_sk i g ((set_sk i f s)\<lparr>nbs := h\<rparr>) = set_sk i (\<lambda>c. g (f c)) (s\<lparr>nbs := h\<rparr>)"
  by (simp add: set_sk_def set_obj_def on_env_def sk_ptr_def)

lemma recv_take_eq:
  assumes h: "recv_header (sk i s) (nb_data (nbs s p)) nam sl (mem s) = Some (hdr, m)"
    and nb: "(if part then Some (nbs s p) else a_netbuf_pull (nbs s p) hdr) = Some nb" "num_frags nb = 0"
  defines "s1 \<equiv> s\<lparr>mem := m, nbs := (nbs s)(p := nb)\<rparr>" and "L \<equiv> nb_tail nb - nb_data nb"
  shows "recv_take part i p n nam sl s = do {
      let s = (if sock_type (sk i s) = SOCK_STREAM_TYPE then
                if L > n then set_sk i (\<lambda>c. c\<lparr>remaining_bytes := ucast (L - n)\<rparr>) s1
                else set_sk i (\<lambda>c. c\<lparr>remaining_bytes := 0, old_netbuf := NULL\<rparr>) s1
              else s1);
      let len = (if L > n then n else L);
      s \<leftarrow> (if sock_type (sk i s) = SOCK_STREAM_TYPE \<and> remaining_bytes (sk i s) \<noteq> 0 then do {
             s \<leftarrow> on_nb p (\<lambda>nb. a_netbuf_pull nb len) s;
             Some (set_sk i (\<lambda>c. c\<lparr>old_netbuf := p\<rparr>) s)}
           else Some (zc_enqueue p s));
      Some (len, nb_data nb, s)}"
proof -
  have step: "(if \<not> part then on_nb p (\<lambda>nb. a_netbuf_pull nb hdr) (s\<lparr>mem := m\<rparr>) else Some (s\<lparr>mem := m\<rparr>)) = Some s1"
    using nb by (auto simp: on_nb_def s1_def)
  have len: "nb_len p s1 = L" using nb_len_single [of s1 p] nb(2) by (simp add: s1_def L_def)
  have sk1: "sk i s1 = sk i s" "sk_ptr i s1 = sk_ptr i s" by (simp_all add: s1_def sk_def obj_def sk_ptr_def)
  show ?thesis
    unfolding recv_take_def a_netbuf_to_data_def using step len sk1 by (simp add: h s1_def L_def Let_def)
qed

lemma recv_take_split:
  assumes "recv_take part i p n nam sl s = Some (len, d, s')" and p: "rx_packet (nbs s p)"
  obtains m nb s1 where "s1 = s\<lparr>mem := m, nbs := (nbs s)(p := nb)\<rparr>" "rx_packet nb" "rxPoolID nb = rxPoolID (nbs s p)"
    "queueLink nb = queueLink (nbs s p)" "sock_type (sk i s) = SOCK_STREAM_TYPE \<Longrightarrow> m = mem s"
    "packet_bytes (mem s) nb = unread part (mem s) (sk i s) (nbs s p)" "d = nb_data nb"
    "len = min n (nb_tail nb - nb_data nb)"
    "if sock_type (sk i s) = SOCK_STREAM_TYPE \<and> n < nb_tail nb - nb_data nb
     then s' = set_sk i (\<lambda>c. c\<lparr>remaining_bytes := ucast (nb_tail nb - nb_data nb - n), old_netbuf := p\<rparr>)
            (s1\<lparr>nbs := (nbs s1)(p := nb\<lparr>nb_data := nb_data nb + n\<rparr>)\<rparr>)
     else s' = zc_enqueue p (if sock_type (sk i s) = SOCK_STREAM_TYPE
            then set_sk i (\<lambda>c. c\<lparr>remaining_bytes := 0, old_netbuf := NULL\<rparr>) s1 else s1)"
proof -
  obtain hdr m where h: "recv_header (sk i s) (nb_data (nbs s p)) nam sl (mem s) = Some (hdr, m)"
    using assms(1) by (auto simp: recv_take_def bind_eq_Some_conv a_netbuf_to_data_def)
  note hdr = recv_header_Some [OF h]
  have "\<exists>nb. (if part then Some (nbs s p) else a_netbuf_pull (nbs s p) hdr) = Some nb"
    using assms(1) h by (cases part) (auto simp: recv_take_def a_netbuf_to_data_def bind_eq_Some_conv on_nb_def Let_def)
  then obtain nb where nb: "(if part then Some (nbs s p) else a_netbuf_pull (nbs s p) hdr) = Some nb" by blast
  define s1 where "s1 = s\<lparr>mem := m, nbs := (nbs s)(p := nb)\<rparr>"
  have nb': "nb_wf nb" "num_frags nb = 0" "nb_tail nb - nb_data nb < 0x10000" "rxPoolID nb = rxPoolID (nbs s p)"
      "queueLink nb = queueLink (nbs s p)"
    using nb p a_netbuf_pull_wf [of "nbs s p" hdr nb] word_sub_le [of hdr "nb_tail (nbs s p) - nb_data (nbs s p)"]
    by (auto simp: rx_packet_def a_netbuf_pull_def A_ASSERT_bind_Some diff_diff_eq not_less split: if_splits)
  have bytes: "packet_bytes (mem s) nb = unread part (mem s) (sk i s) (nbs s p)"
    using nb packet_bytes_pull [of "nbs s p" hdr nb "mem s"] hdr by (auto simp: unread_def split: if_splits)
  let ?L = "nb_tail nb - nb_data nb"
  have sk1: "sk i s1 = sk i s" by (simp add: s1_def)
  have rem: "n < ?L \<Longrightarrow> (ucast (?L - n) :: u16) \<noteq> 0" using left_nonzero nb'(3) by blast
  have pull: "n < ?L \<Longrightarrow> a_netbuf_pull nb n = Some (nb\<lparr>nb_data := nb_data nb + n\<rparr>)"
    by (intro pull_returns order_less_imp_le)
  have run: "do {
      let s = (if sock_type (sk i s) = SOCK_STREAM_TYPE then
                if ?L > n then set_sk i (\<lambda>c. c\<lparr>remaining_bytes := ucast (?L - n)\<rparr>) s1
                else set_sk i (\<lambda>c. c\<lparr>remaining_bytes := 0, old_netbuf := NULL\<rparr>) s1
              else s1);
      let len = (if ?L > n then n else ?L);
      s \<leftarrow> (if sock_type (sk i s) = SOCK_STREAM_TYPE \<and> remaining_bytes (sk i s) \<noteq> 0 then do {
             s \<leftarrow> on_nb p (\<lambda>nb. a_netbuf_pull nb len) s;
             Some (set_sk i (\<lambda>c. c\<lparr>old_netbuf := p\<rparr>) s)}
           else Some (zc_enqueue p s));
      Some (len, nb_data nb, s)} = Some (len, d, s')"
    unfolding assms(1) [symmetric] recv_take_eq [OF h nb nb'(2)] s1_def by simp
  show thesis
  proof (rule that [OF s1_def _ nb'(4,5) _ bytes])
    show "rx_packet nb" using nb' by (simp add: rx_packet_def)
    show "sock_type (sk i s) = SOCK_STREAM_TYPE \<Longrightarrow> m = mem s" using hdr by blast
    show "d = nb_data nb" "len = min n ?L" using run by (auto simp: Let_def bind_eq_Some_conv min_def not_less simp del: not_less dest: less_asym)
    show "if sock_type (sk i s) = SOCK_STREAM_TYPE \<and> n < ?L
     then s' = set_sk i (\<lambda>c. c\<lparr>remaining_bytes := ucast (?L - n), old_netbuf := p\<rparr>)
            (s1\<lparr>nbs := (nbs s1)(p := nb\<lparr>nb_data := nb_data nb + n\<rparr>)\<rparr>)
     else s' = zc_enqueue p (if sock_type (sk i s) = SOCK_STREAM_TYPE
            then set_sk i (\<lambda>c. c\<lparr>remaining_bytes := 0, old_netbuf := NULL\<rparr>) s1 else s1)"
    proof (cases "sock_type (sk i s) = SOCK_STREAM_TYPE \<and> n < ?L")
      case True
      with run rem pull show ?thesis
        by (auto simp: Let_def bind_eq_Some_conv on_nb_def set_sk_merge s1_def)
    next
      case False
      with run show ?thesis by (auto simp: Let_def sk1)
    qed
  qed
qed

lemma recv_take_effect:
  assumes rep: "sock_rep Q s qs zs fs" and i: "i < MAX_SOCKETS_SUPPORTED" and hand: "at_hand part P Q p (sk i s)"
    and size: "size P < queue_cap" and p: "rx_packet (nbs s p)"
    and run: "recv_take part i p n nam sl s = Some (len, d, s')"
  obtains zs' k old where "sock_rep P s' qs zs' fs" "\<And>y. y \<noteq> p \<Longrightarrow> \<exists>l. nbs s' y = (nbs s y)\<lparr>queueLink := l\<rparr>"
    "rxPoolID (nbs s' p) = rxPoolID (nbs s p)" "\<And>j. j \<le> GLOBAL_SOCK_INDEX \<Longrightarrow> j \<noteq> i \<Longrightarrow> sk j s' = sk j s"
    "sk i s' = (if sock_type (sk i s) = SOCK_STREAM_TYPE then (sk i s)\<lparr>remaining_bytes := k, old_netbuf := old\<rparr> else sk i s)"
    "k = 0 \<longleftrightarrow> old = NULL" "old = NULL \<or> old = p" "old = p \<Longrightarrow> rx_packet (nbs s' p)"
    "sock_type (sk i s) = SOCK_STREAM_TYPE \<Longrightarrow> mem s' = mem s"
    "sock_type (sk i s) = SOCK_STREAM_TYPE \<Longrightarrow>
       mem_bytes (mem s) d (unat len) @ (if old = NULL then [] else packet_bytes (mem s) (nbs s' p)) = unread part (mem s) (sk i s) (nbs s p)"
    "len \<le> n" "sock_type (sk i s) = SOCK_STREAM_TYPE \<Longrightarrow> len = n \<or> old = NULL"
proof -
  obtain m nb s1 where s1: "s1 = s\<lparr>mem := m, nbs := (nbs s)(p := nb)\<rparr>" and nb: "rx_packet nb" "rxPoolID nb = rxPoolID (nbs s p)"
    "queueLink nb = queueLink (nbs s p)" "sock_type (sk i s) = SOCK_STREAM_TYPE \<Longrightarrow> m = mem s"
    "packet_bytes (mem s) nb = unread part (mem s) (sk i s) (nbs s p)" and d: "d = nb_data nb" and len: "len = min n (nb_tail nb - nb_data nb)"
    and res: "if sock_type (sk i s) = SOCK_STREAM_TYPE \<and> n < nb_tail nb - nb_data nb
     then s' = set_sk i (\<lambda>c. c\<lparr>remaining_bytes := ucast (nb_tail nb - nb_data nb - n), old_netbuf := p\<rparr>)
            (s1\<lparr>nbs := (nbs s1)(p := nb\<lparr>nb_data := nb_data nb + n\<rparr>)\<rparr>)
     else s' = zc_enqueue p (if sock_type (sk i s) = SOCK_STREAM_TYPE
            then set_sk i (\<lambda>c. c\<lparr>remaining_bytes := 0, old_netbuf := NULL\<rparr>) s1 else s1)"
    using recv_take_split [OF run p] by metis
  have sk1: "sk j s1 = sk j s" for j by (simp add: s1 sk_def obj_def sk_ptr_def)
  have rep1: "sock_rep Q s1 qs zs fs"
    using nb_update_rep [of Q "s\<lparr>mem := m\<rparr>" qs zs fs nb p] rep nb(3) by (simp add: s1 sock_rep_cong [of "s\<lparr>mem := m\<rparr>" s])
  have others1: "\<exists>l. nbs s1 y = (nbs s y)\<lparr>queueLink := l\<rparr>" if "y \<noteq> p" for y
    using that by (auto simp: s1 intro: exI [of _ "queueLink (nbs s y)"])
  show thesis
  proof (cases "sock_type (sk i s) = SOCK_STREAM_TYPE \<and> n < nb_tail nb - nb_data nb")
    case True
    let ?nb = "nb\<lparr>nb_data := nb_data nb + n\<rparr>"
    let ?s2 = "s1\<lparr>nbs := (nbs s1)(p := ?nb)\<rparr>"
    let ?k = "ucast (nb_tail nb - nb_data nb - n) :: u16"
    have s': "s' = set_sk i (\<lambda>c. c\<lparr>remaining_bytes := ?k, old_netbuf := p\<rparr>) ?s2" using res True by simp
    have rep2: "sock_rep Q ?s2 qs zs fs" by (rule nb_update_rep [OF rep1]) (simp add: s1)
    have le: "n \<le> nb_tail nb - nb_data nb" using True by (intro order_less_imp_le) simp
    then have ln: "len = n" using len by (simp add: min_def)
    note pulled = take_pulled [OF le nb(1)]
    have k: "?k \<noteq> 0" using True nb(1) left_nonzero by (simp add: rx_packet_def)
    show thesis
    proof (rule that [where zs' = zs and k = ?k and old = p])
      show "sock_rep P s' qs zs fs"
        unfolding s' by (rule take_rep_keep [OF rep2 i]) (use hand True sk1 in simp_all)
      show "\<exists>l. nbs s' y = (nbs s y)\<lparr>queueLink := l\<rparr>" if "y \<noteq> p" for y using others1 [OF that] that by (simp add: s')
      show "sk j s' = sk j s" if "j \<le> GLOBAL_SOCK_INDEX" "j \<noteq> i" for j
        using sk_set_sk [OF sock_repD(1) [OF rep2], of i j] i that sk1 by (simp add: s')
      show "?k = 0 \<longleftrightarrow> p = NULL" using k hand by (simp add: at_hand_def)
      show "mem_bytes (mem s) d (unat len) @ (if p = NULL then [] else packet_bytes (mem s) (nbs s' p)) = unread part (mem s) (sk i s) (nbs s p)"
        using pulled(2) [of "mem s"] nb(5) hand by (simp add: s' d ln at_hand_def)
    qed (use True nb pulled sk1 ln in \<open>simp_all add: s' s1\<close>)
  next
    case False
    then have s': "s' = zc_enqueue p (if sock_type (sk i s) = SOCK_STREAM_TYPE
            then set_sk i (\<lambda>c. c\<lparr>remaining_bytes := 0, old_netbuf := NULL\<rparr>) s1 else s1)" (is "s' = zc_enqueue p ?t") using res by simp
    have t: "sock_rep (P - {#p#}) ?t qs zs fs" using take_rep_drop [OF rep1 i, of part P p] hand sk1 by simp
    note p3 = at_handD [OF hand]
    have "size (P - {#p#}) < queue_cap" using size p3 by (simp add: size_Diff_singleton_if)
    note zc = zc_enqueue_rep [OF t _ _ this, of p, folded s']
    have "links_only ?t s'" using zc p3 by simp
    then have "\<exists>l. nbs s' y = (nbs ?t y)\<lparr>queueLink := l\<rparr>" for y by (auto simp: links_only_def)
    moreover have "nbs ?t = nbs s1" by simp
    ultimately have links: "\<exists>l. nbs s' y = (nbs s1 y)\<lparr>queueLink := l\<rparr>" for y by metis
    show thesis
    proof (rule that [where zs' = "zs @ [p]" and k = 0 and old = NULL])
      show "sock_rep P s' qs (zs @ [p]) fs" using zc(1) p3 by simp
      show "\<exists>l. nbs s' y = (nbs s y)\<lparr>queueLink := l\<rparr>" if "y \<noteq> p" for y using others1 [OF that] links [of y] by auto
      show "rxPoolID (nbs s' p) = rxPoolID (nbs s p)" using links [of p] nb(2) by (auto simp: s1)
      show "sk j s' = sk j s" if "j \<le> GLOBAL_SOCK_INDEX" "j \<noteq> i" for j
        using zc(3) [of j] p3 sk_set_sk [OF sock_repD(1) [OF rep1], of i j] i that sk1 by simp
      show "sock_type (sk i s) = SOCK_STREAM_TYPE \<Longrightarrow> mem s' = mem s"
        using \<open>links_only ?t s'\<close> nb(4) by (simp add: links_only_def s1)
      show "len \<le> n" unfolding len by (rule min.cobounded1)
    qed (use zc(3) [of i] p3 sk1 nb len False in \<open>auto simp: d packet_bytes_def min_def not_less\<close>)
  qed
qed

section \<open>The application's view\<close>

text \<open>The bytes a stream socket will still deliver, its queue holding \<open>xs\<close>.\<close>

definition pending :: "'e net \<Rightarrow> nat \<Rightarrow> ptr list \<Rightarrow> u8 list" where
  "pending s i xs = (if old_netbuf (sk i s) = NULL then [] else packet_bytes (mem s) (nbs s (old_netbuf (sk i s))))
     @ concat (map (\<lambda>p. drop (recv_hdr (sk i s)) (packet_bytes (mem s) (nbs s p))) xs)"

text \<open>A packet that is fetched for reading, from the part a context holds or from its queue.\<close>

lemma recv_fetch:
  assumes inv: "sock_inv P s qs zs fs" and find: "find_socket_context h True s = Some i"
    and run: "Api_recvfrom h n nam sl s = Some (r, b, s')"
  obtains (none) "r = E_ERROR" "b = None" "s' = s" "qs i = []" "\<not> holds_part (sk i s)"
  | (packet) part p Q s0 xs d where "b = Some d" "recv_take part i p n nam sl s0 = Some (r, d, s')"
      "sock_rep Q s0 (qs(i := xs)) zs fs" "at_hand part P Q p (sk i s0)" "links_only s s0"
      "\<And>j. j < MAX_SOCKETS_SUPPORTED \<Longrightarrow> same_socket (sk j s) (sk j s0)" "rx_packet (nbs s p)"
      "\<And>j q. j < MAX_SOCKETS_SUPPORTED \<Longrightarrow> q \<in> set ((qs(i := xs)) j) \<Longrightarrow> q \<noteq> p \<and> q \<in> set (qs j)"
      "\<And>j. j < MAX_SOCKETS_SUPPORTED \<Longrightarrow> j \<noteq> i \<Longrightarrow> old_netbuf (sk j s) \<noteq> p"
      "if part then old_netbuf (sk i s) = p \<and> xs = qs i
       else qs i = p # xs \<and> old_netbuf (sk i s) \<noteq> p \<and> (sock_type (sk i s) = SOCK_STREAM_TYPE \<longrightarrow> old_netbuf (sk i s) = NULL)"
proof -
  have i: "i < MAX_SOCKETS_SUPPORTED" using find by (simp add: find_socket_Some)
  have rep: "sock_rep P s qs zs fs" using inv by (simp add: sock_inv_def)
  have once: "\<forall>x. count P x \<le> 1" using rep by (simp add: sock_rep_def)
  have wait: "\<And>p. p \<in> waiting s qs \<Longrightarrow> rx_packet (nbs s p)" using inv by (simp add: sock_inv_def)
  have rem: "remaining_bytes (sk i s) = 0 \<longleftrightarrow> old_netbuf (sk i s) = NULL" using inv i by (simp add: sock_inv_def)
  show thesis
  proof (cases "holds_part (sk i s)")
    case True
    then obtain d where d: "b = Some d" "recv_take True i (old_netbuf (sk i s)) n nam sl s = Some (r, d, s')"
      using run find by (auto simp: Api_recvfrom_def holds_part_def bind_eq_Some_conv)
    have "old_netbuf (sk i s) \<in> waiting s qs" using True i by (auto simp: waiting_def holds_part_def)
    note wo = wait [OF this]
    from packet [OF d, of P "qs i"] show thesis
      using rep True places(4) [OF rep i] once wo disjoint_places(5) [OF rep _ i] disjoint_places(6) [OF rep i]
      by (auto simp: at_hand_def holds_part_def same_socket_def links_only_refl)
  next
    case False
    show thesis
    proof (cases "qs i")
      case Nil
      with False run find sock_dequeue_empty [OF rep i Nil] show thesis by (intro none) (simp_all add: Api_recvfrom_def)
    next
      case (Cons x xs)
      obtain s0 where deq: "sock_dequeue i s = (x, s0)" and s0: "sock_rep (P - {#x#}) s0 (qs(i := xs)) zs fs"
        and x: "x \<in># P" "x \<notin># P - {#x#}" "x \<noteq> NULL" and links: "links_only s s0"
        and sk0: "\<And>j. j \<le> GLOBAL_SOCK_INDEX \<Longrightarrow> j \<noteq> i \<Longrightarrow> sk j s0 = sk j s"
          "\<exists>q. sk i s0 = on_cust (rxqueue_update (\<lambda>_. q)) (sk i s)"
        using sock_dequeue_rep [OF rep i Cons] by metis
      have same: "same_socket (sk j s) (sk j s0)" if "j < MAX_SOCKETS_SUPPORTED" for j
        using sk0 that by (cases "j = i") (auto simp: same_socket_def)
      obtain d where d: "b = Some d" "recv_take False i x n nam sl s0 = Some (r, d, s')"
        using run find False deq x(3) by (auto simp: Api_recvfrom_def bind_eq_Some_conv)
      have "x \<in> waiting s qs" using Cons i by (auto simp: waiting_def intro!: bexI [of _ i])
      note wx = wait [OF this]
      show thesis
      proof (rule packet [OF d s0 _ links same wx])
        show "at_hand False P (P - {#x#}) x (sk i s0)"
          using x once False rem same [OF i] by (auto simp: at_hand_def holds_part_def same_socket_def)
        show "q \<noteq> x \<and> q \<in> set (qs j)" if "j < MAX_SOCKETS_SUPPORTED" "q \<in> set ((qs(i := xs)) j)" for j q
          using places(1) [OF s0 that] x(2) that Cons by (auto split: if_splits)
        show "old_netbuf (sk j s) \<noteq> x" if "j < MAX_SOCKETS_SUPPORTED" "j \<noteq> i" for j
          using disjoint_places(5) [OF rep i that(1), of x] Cons by simp
      qed (use False rem Cons disjoint_places(5) [OF rep i i, of x] in \<open>auto simp: holds_part_def\<close>)
    qed
  qed
qed

lemma pending_cong:
  assumes "domain (sk j s') = domain (sk j s)" "old_netbuf (sk j s') = old_netbuf (sk j s)" "mem s' = mem s"
    "\<And>q. q \<in> set xs \<or> q = old_netbuf (sk j s) \<Longrightarrow> \<exists>l. nbs s' q = (nbs s q)\<lparr>queueLink := l\<rparr>"
  shows "pending s' j xs = pending s j xs"
proof -
  have "packet_bytes (mem s') (nbs s' q) = packet_bytes (mem s) (nbs s q)" if "q \<in> set xs \<or> q = old_netbuf (sk j s)" for q
    using assms(4) [OF that] assms(3) by (auto simp: packet_bytes_def)
  then show ?thesis using assms(1,2) by (simp add: pending_def recv_hdr_def cong: map_cong)
qed

text \<open>What a read that takes bytes from the packet \<open>p\<close> does to packets and contexts; \<open>old\<close> is what the context
  holds afterwards.\<close>

definition took :: "'e net \<Rightarrow> (nat \<Rightarrow> ptr list) \<Rightarrow> nat \<Rightarrow> bool \<Rightarrow> ptr \<Rightarrow> ptr \<Rightarrow> 'e net \<Rightarrow> (nat \<Rightarrow> ptr list) \<Rightarrow> bool" where
  "took s qs i part p old s' qs' \<longleftrightarrow>
     (\<forall>y. y \<noteq> p \<longrightarrow> (\<exists>l. nbs s' y = (nbs s y)\<lparr>queueLink := l\<rparr>)) \<and> rxPoolID (nbs s' p) = rxPoolID (nbs s p)
     \<and> (\<forall>j<MAX_SOCKETS_SUPPORTED. (j \<noteq> i \<or> sock_type (sk i s) \<noteq> SOCK_STREAM_TYPE) \<longrightarrow>
           same_socket (sk j s) (sk j s') \<and> old_netbuf (sk j s) \<noteq> p)
     \<and> domain (sk i s') = domain (sk i s)
     \<and> (sock_type (sk i s) = SOCK_STREAM_TYPE \<longrightarrow> old_netbuf (sk i s') = old \<and> (remaining_bytes (sk i s') = 0 \<longleftrightarrow> old = NULL))
     \<and> (old = NULL \<or> old = p \<and> rx_packet (nbs s' p))
     \<and> (\<forall>j<MAX_SOCKETS_SUPPORTED. \<forall>q\<in>set (qs' j). q \<noteq> p \<and> q \<in> set (qs j))"

lemma recv_took:
  assumes inv: "sock_inv P s qs zs fs" and size: "size P < queue_cap" and find: "find_socket_context h True s = Some i"
    and run: "Api_recvfrom h n nam sl s = Some (r, b, s')"
  obtains (none) "r = E_ERROR" "b = None" "s' = s" "qs i = []" "\<not> holds_part (sk i s)"
  | (packet) part p old xs zs' d where "b = Some d" "r \<le> n" "sock_rep P s' (qs(i := xs)) zs' fs" "took s qs i part p old s' (qs(i := xs))"
      "if part then old_netbuf (sk i s) = p \<and> p \<noteq> NULL \<and> xs = qs i
       else qs i = p # xs \<and> (sock_type (sk i s) = SOCK_STREAM_TYPE \<longrightarrow> old_netbuf (sk i s) = NULL)"
      "sock_type (sk i s) = SOCK_STREAM_TYPE \<Longrightarrow> mem s' = mem s \<and>
       mem_bytes (mem s) d (unat r) @ (if old = NULL then [] else packet_bytes (mem s) (nbs s' p)) = unread part (mem s) (sk i s) (nbs s p)"
  using inv find run
proof (cases rule: recv_fetch)
  case none
  then show thesis by (rule that(1))
next
  case (packet part p Q s0 xs d)
  have i: "i < MAX_SOCKETS_SUPPORTED" using find by (simp add: find_socket_Some)
  note same = packet(6) [unfolded same_socket_def] and lo = links_onlyD [OF packet(5)]
  have hdr: "recv_hdr (sk i s0) = recv_hdr (sk i s)" using same [OF i] by (simp add: recv_hdr_def)
  have "rx_packet (nbs s0 p)" using lo(2) packet(7) by simp
  then obtain zs' k old where rep': "sock_rep P s' (qs(i := xs)) zs' fs" and links: "\<And>y. y \<noteq> p \<Longrightarrow> \<exists>l. nbs s' y = (nbs s0 y)\<lparr>queueLink := l\<rparr>"
    and pid: "rxPoolID (nbs s' p) = rxPoolID (nbs s0 p)" and skj: "\<And>j. j \<le> GLOBAL_SOCK_INDEX \<Longrightarrow> j \<noteq> i \<Longrightarrow> sk j s' = sk j s0"
    and ski: "sk i s' = (if sock_type (sk i s0) = SOCK_STREAM_TYPE then (sk i s0)\<lparr>remaining_bytes := k, old_netbuf := old\<rparr> else sk i s0)"
    and k: "k = 0 \<longleftrightarrow> old = NULL" "old = NULL \<or> old = p" "old = p \<Longrightarrow> rx_packet (nbs s' p)"
    and memo: "sock_type (sk i s0) = SOCK_STREAM_TYPE \<Longrightarrow> mem s' = mem s0"
    and bytes: "sock_type (sk i s0) = SOCK_STREAM_TYPE \<Longrightarrow> mem_bytes (mem s0) d (unat r) @
        (if old = NULL then [] else packet_bytes (mem s0) (nbs s' p)) = unread part (mem s0) (sk i s0) (nbs s0 p)"
    and r: "r \<le> n" and more_left: "sock_type (sk i s0) = SOCK_STREAM_TYPE \<Longrightarrow> r = n \<or> old = NULL"
    by (rule recv_take_effect [OF packet(3) i packet(4) size _ packet(2)]) (rule that; assumption)
  have link: "\<exists>l. nbs s' y = (nbs s y)\<lparr>queueLink := l\<rparr>" if y: "y \<noteq> p" for y
  proof -
    obtain l where "nbs s' y = (nbs s0 y)\<lparr>queueLink := l\<rparr>" using links [OF y] by blast
    moreover obtain m where "nbs s0 y = (nbs s y)\<lparr>queueLink := m\<rparr>" using packet(5) unfolding links_only_def by blast
    ultimately show ?thesis by auto
  qed
  show thesis
  proof (rule that(2) [OF packet(1) r rep'])
    show "took s qs i part p old s' (qs(i := xs))"
      unfolding took_def
    proof (intro conjI allI impI ballI)
      fix j q assume j: "j < MAX_SOCKETS_SUPPORTED"
      show "q \<noteq> p" "q \<in> set (qs j)" if "q \<in> set ((qs(i := xs)) j)" using packet(8) [OF j that] by simp_all
      assume "j \<noteq> i \<or> sock_type (sk i s) \<noteq> SOCK_STREAM_TYPE"
      then show "same_socket (sk j s) (sk j s')" "old_netbuf (sk j s) \<noteq> p"
        using j skj [of j] ski same [OF j] same [OF i] packet(9) [OF j] packet(4,10)
        by (cases "j = i"; auto simp: same_socket_def at_hand_def split: if_splits)+
    qed (use link pid lo(1) k ski same [OF i] in auto)
    show "sock_type (sk i s) = SOCK_STREAM_TYPE \<Longrightarrow> mem s' = mem s \<and>
       mem_bytes (mem s) d (unat r) @ (if old = NULL then [] else packet_bytes (mem s) (nbs s' p)) = unread part (mem s) (sk i s) (nbs s p)"
      using memo bytes same [OF i] lo(3,5) hdr by (simp add: unread_def split del: if_split cong: if_cong)
  qed (use packet(4,10) in \<open>auto simp: at_hand_def split: if_splits\<close>)
qed

lemma tookD:
  assumes "took s qs i part p old s' qs'"
  shows "y \<noteq> p \<Longrightarrow> \<exists>l. nbs s' y = (nbs s y)\<lparr>queueLink := l\<rparr>" "rxPoolID (nbs s' y) = rxPoolID (nbs s y)"
    "y \<noteq> p \<Longrightarrow> rx_packet (nbs s' y) = rx_packet (nbs s y)"
    "j < MAX_SOCKETS_SUPPORTED \<Longrightarrow> j \<noteq> i \<or> sock_type (sk i s) \<noteq> SOCK_STREAM_TYPE \<Longrightarrow>
      same_socket (sk j s) (sk j s') \<and> old_netbuf (sk j s) \<noteq> p"
    "j < MAX_SOCKETS_SUPPORTED \<Longrightarrow> q \<in> set (qs' j) \<Longrightarrow> q \<noteq> p \<and> q \<in> set (qs j)"
    "sock_type (sk i s) = SOCK_STREAM_TYPE \<Longrightarrow> old_netbuf (sk i s') = old \<and> (remaining_bytes (sk i s') = 0 \<longleftrightarrow> old = NULL)"
    "old = NULL \<or> old = p \<and> rx_packet (nbs s' p)" "domain (sk i s') = domain (sk i s)"
proof -
  show link: "\<exists>l. nbs s' y = (nbs s y)\<lparr>queueLink := l\<rparr>" if "y \<noteq> p" for y using assms that by (simp add: took_def)
  have pid: "rxPoolID (nbs s' p) = rxPoolID (nbs s p)" using assms by (simp add: took_def)
  show "rxPoolID (nbs s' y) = rxPoolID (nbs s y)" using link [of y] pid by (cases "y = p") auto
  show "rx_packet (nbs s' y) = rx_packet (nbs s y)" if "y \<noteq> p"
    using link [OF that] by (auto simp: rx_packet_def nb_wf_def)
qed (use assms in \<open>simp_all add: took_def\<close>)

lemma took_inv:
  assumes inv: "sock_inv P s qs zs fs" and i: "i < MAX_SOCKETS_SUPPORTED" and rep: "sock_rep P s' qs' zs' fs"
    and took: "took s qs i part p old s' qs'"
  shows "sock_inv P s' qs' zs' fs"
  unfolding sock_inv_def
proof (intro conjI ballI allI impI)
  note D = tookD [OF took]
  have wait: "\<And>q. q \<in> waiting s qs \<Longrightarrow> rx_packet (nbs s q)" using inv by (simp add: sock_inv_def)
  show "sock_rep P s' qs' zs' fs" by (rule rep)
  show "rxPoolID (nbs s' q) \<noteq> 0" if "q \<in># P" for q using inv that D(2) by (simp add: sock_inv_def)
  show "remaining_bytes (sk j s') = 0 \<longleftrightarrow> old_netbuf (sk j s') = NULL" if "j < MAX_SOCKETS_SUPPORTED" for j
    using inv that D(4) [OF that] D(6)
    by (cases "j = i \<and> sock_type (sk i s) = SOCK_STREAM_TYPE") (auto simp: sock_inv_def same_socket_def)
  show "rx_packet (nbs s' q)" if q: "q \<in> waiting s' qs'" for q
  proof -
    consider (queue) j where "j < MAX_SOCKETS_SUPPORTED" "q \<in> set (qs' j)"
      | (held) j where "j < MAX_SOCKETS_SUPPORTED" "q = old_netbuf (sk j s')" "q \<noteq> NULL"
      using q by (auto simp: waiting_def split: if_splits)
    then show ?thesis
    proof cases
      case queue
      then have "q \<noteq> p" "q \<in> waiting s qs" using D(5) [OF queue] by (auto simp: waiting_def)
      then show ?thesis using D(3) wait by simp
    next
      case held
      show ?thesis
      proof (cases "j = i \<and> sock_type (sk i s) = SOCK_STREAM_TYPE")
        case True
        with held D(6,7) show ?thesis by auto
      next
        case False
        then have "q = old_netbuf (sk j s)" "q \<noteq> p" using D(4) [OF held(1)] held(2) by (auto simp: same_socket_def)
        moreover from this have "q \<in> waiting s qs" using held by (auto simp: waiting_def)
        ultimately show ?thesis using D(3) wait by simp
      qed
    qed
  qed
qed

lemma recv_inv:
  assumes "sock_inv P s qs zs fs" "size P < queue_cap" "Api_recvfrom h n nam sl s = Some (r, b, s')"
  shows "\<exists>qs' zs'. sock_inv P s' qs' zs' fs"
proof (cases "find_socket_context h True s")
  case None
  then show ?thesis using assms by (auto simp: Api_recvfrom_def)
next
  case (Some i)
  then have i: "i < MAX_SOCKETS_SUPPORTED" by (simp add: find_socket_Some)
  from assms(1,2) Some assms(3) show ?thesis
    by (cases rule: recv_took) (use assms(1) took_inv [OF assms(1) i] in blast)+
qed

text \<open>Reading returns if the socket has an address family and its packets carry the custom header.\<close>

lemma recv_take_returns:
  assumes p: "rx_packet (nbs s p)" and dom: "domain (sk i s) \<in> {ATH_AF_INET, ATH_AF_INET6}"
    and hdr: "part \<or> recv_hdr (sk i s) \<le> length (packet_bytes (mem s) (nbs s p))"
  shows "recv_take part i p n nam sl s \<noteq> None"
proof -
  obtain h m where h: "recv_header (sk i s) (nb_data (nbs s p)) nam sl (mem s) = Some (h, m)" "unat h = recv_hdr (sk i s)"
    using dom by (auto simp: recv_header_def recv_hdr_def Let_def)
  have "\<exists>nb. (if part then Some (nbs s p) else a_netbuf_pull (nbs s p) h) = Some nb \<and> num_frags nb = 0"
    using p hdr h(2) by (auto simp: rx_packet_def a_netbuf_pull_def A_ASSERT_def not_less word_le_nat_alt length_packet_bytes)
  then obtain nb where nb: "(if part then Some (nbs s p) else a_netbuf_pull (nbs s p) h) = Some nb" "num_frags nb = 0" by blast
  let ?L = "nb_tail nb - nb_data nb"
  have "(if n < ?L then n else ?L) \<le> ?L" by (cases "n < ?L") (simp_all only: if_True if_False order_less_imp_le order_refl)
  then obtain nb' where pull: "a_netbuf_pull nb (if n < ?L then n else ?L) = Some nb'" using pull_returns by blast
  have finish: "do {s \<leftarrow> (if c then do {s \<leftarrow> on_nb p (\<lambda>nb. a_netbuf_pull nb len) t; Some (f s)} else Some (g t)); Some (len, d, s)} \<noteq> None"
    if "nbs t p = nb" "a_netbuf_pull nb len = Some nb'" for t len c d and f g :: "'a net \<Rightarrow> 'a net"
    using that by (simp add: on_nb_def)
  show ?thesis
    unfolding recv_take_eq [OF h(1) nb] Let_def by (rule finish [OF _ pull]) simp
qed

lemma recv_returns:
  assumes inv: "sock_inv P s qs zs fs" and find: "find_socket_context h True s = Some i"
    and dom: "domain (sk i s) \<in> {ATH_AF_INET, ATH_AF_INET6}"
    and hdr: "\<forall>p\<in>set (qs i). recv_hdr (sk i s) \<le> length (packet_bytes (mem s) (nbs s p))"
  shows "Api_recvfrom h n nam sl s \<noteq> None"
proof -
  have i: "i < MAX_SOCKETS_SUPPORTED" using find by (simp add: find_socket_Some)
  have rep: "sock_rep P s qs zs fs" and wait: "\<And>p. p \<in> waiting s qs \<Longrightarrow> rx_packet (nbs s p)" using inv by (simp_all add: sock_inv_def)
  consider "holds_part (sk i s)" | "\<not> holds_part (sk i s)" "qs i = []" | x xs where "\<not> holds_part (sk i s)" "qs i = x # xs"
    by (cases "qs i") auto
  then show ?thesis
  proof cases
    case 1
    then have "old_netbuf (sk i s) \<in> waiting s qs" using i by (auto simp: waiting_def holds_part_def intro!: bexI [of _ i])
    then obtain t where "recv_take True i (old_netbuf (sk i s)) n nam sl s = Some t"
      using recv_take_returns [OF wait dom, of _ True n nam sl] by blast
    with 1 find show ?thesis by (cases t) (simp add: Api_recvfrom_def holds_part_def)
  next
    case 2
    then show ?thesis using find sock_dequeue_empty [OF rep i] by (simp add: Api_recvfrom_def)
  next
    case 3
    obtain s0 where deq: "sock_dequeue i s = (x, s0)" and links: "links_only s s0"
      and sk0: "\<exists>q. sk i s0 = on_cust (rxqueue_update (\<lambda>_. q)) (sk i s)" using sock_dequeue_rep [OF rep i 3(2)] by metis
    have "x \<in> waiting s qs" using 3 i by (auto simp: waiting_def intro!: bexI [of _ i])
    then have "recv_take False i x n nam sl s0 \<noteq> None"
      using wait links_onlyD [OF links] sk0 dom hdr 3(2) by (intro recv_take_returns) (auto simp: recv_hdr_def)
    then obtain t where "recv_take False i x n nam sl s0 = Some t" by blast
    then show ?thesis using find 3(1) deq by (cases t) (simp add: Api_recvfrom_def)
  qed
qed

lemma recv_stream:
  assumes inv: "sock_inv P s qs zs fs" "size P < queue_cap" and find: "find_socket_context h True s = Some i"
    and stream: "sock_type (sk i s) = SOCK_STREAM_TYPE" and run: "Api_recvfrom h n nam sl s = Some (r, b, s')"
  shows "\<exists>qs' zs'. sock_inv P s' qs' zs' fs \<and> mem s' = mem s
    \<and> (case b of None \<Rightarrow> r = E_ERROR \<and> pending s i (qs i) = []
         | Some d \<Rightarrow> r \<le> n \<and> mem_bytes (mem s) d (unat r) @ pending s' i (qs' i) = pending s i (qs i))
    \<and> (\<forall>j<MAX_SOCKETS_SUPPORTED. j \<noteq> i \<longrightarrow> pending s' j (qs' j) = pending s j (qs j))"
  using inv find run
proof (cases rule: recv_took)
  case none
  then have "old_netbuf (sk i s) = NULL" using inv find stream by (auto simp: sock_inv_def find_socket_Some holds_part_def)
  with none inv show ?thesis by (auto simp: pending_def)
next
  case (packet part p old xs zs' d)
  let ?qs = "qs(i := xs)"
  have i: "i < MAX_SOCKETS_SUPPORTED" using find by (simp add: find_socket_Some)
  note D = tookD [OF packet(4)] and bytes = packet(6) [OF stream]
  have other: "pending s' j (?qs j) = pending s j (qs j)" if "j < MAX_SOCKETS_SUPPORTED" "j \<noteq> i" for j
    using pending_cong [of j s' s "qs j"] D(1) D(4) [OF that(1)] D(5) [OF that(1)] bytes that by (auto simp: same_socket_def)
  have rest: "drop k (packet_bytes (mem s') (nbs s' q)) = drop k (packet_bytes (mem s) (nbs s q))" if "q \<in> set xs" for q k
    using D(1) [of q] D(5) [OF i, of q] that bytes by (auto simp: packet_bytes_def)
  have "pending s' i xs = (if old = NULL then [] else packet_bytes (mem s) (nbs s' p))
      @ concat (map (\<lambda>p. drop (recv_hdr (sk i s)) (packet_bytes (mem s) (nbs s p))) xs)"
    using D(6) [OF stream] D(7,8) bytes rest by (auto simp: pending_def recv_hdr_def cong: map_cong)
  then have "mem_bytes (mem s) d (unat r) @ pending s' i xs = unread part (mem s) (sk i s) (nbs s p)
      @ concat (map (\<lambda>p. drop (recv_hdr (sk i s)) (packet_bytes (mem s) (nbs s p))) xs)"
    unfolding conjunct2 [OF bytes, symmetric] by simp
  also have "\<dots> = pending s i (qs i)" using packet(5) stream by (cases part) (auto simp: pending_def unread_def)
  finally have "mem_bytes (mem s) d (unat r) @ pending s' i xs = pending s i (qs i)" .
  then show ?thesis
    using took_inv [OF inv(1) i packet(3,4)] packet(1,2) bytes other by (intro exI [of _ ?qs] exI [of _ zs']) auto
qed

lemma deliver_effect:
  fixes M :: "'e sockets mqx" and U
  assumes inv: "sock_inv P s qs zs fs" and p: "p \<notin># P" "p \<noteq> NULL" "rxPoolID (nbs s p) \<noteq> 0" "rx_packet (nbs s p)"
    and size: "size P < queue_cap"
  defines "s' \<equiv> snd (custom_receive_tcpip M U p s)"
    and "qs' \<equiv> (case accepting p s of Some i \<Rightarrow> qs(i := qs i @ [p]) | None \<Rightarrow> qs)"
    and "fs' \<equiv> (case accepting p s of Some i \<Rightarrow> fs | None \<Rightarrow> fs @ [p])"
  shows "sock_inv (add_mset p P) s' qs' zs fs'" "links_only s s'"
    "j < MAX_SOCKETS_SUPPORTED \<Longrightarrow> pending s' j xs = pending s j xs"
proof -
  have rep: "sock_rep P s qs zs fs" using inv by (simp add: sock_inv_def)
  note D = deliver_rep [OF rep p(1-3) size, where M = M and U = U, folded s'_def]
  note lo = links_onlyD [OF D(1)]
  have rep': "sock_rep (add_mset p P) s' qs' zs fs'" using D(3) by (auto simp: qs'_def fs'_def split: option.splits)
  have "waiting s' qs' \<subseteq> insert p (waiting s qs)"
    using D(2) by (fastforce simp: waiting_def qs'_def same_socket_def split: option.splits if_splits)
  then show "sock_inv (add_mset p P) s' qs' zs fs'"
    using inv rep' p lo(1,2) D(2) by (auto simp: sock_inv_def same_socket_def)
  show "links_only s s'" by (rule D(1))
  show "pending s' j xs = pending s j xs" if "j < MAX_SOCKETS_SUPPORTED"
    using D(1) D(2) [OF that] by (intro pending_cong) (auto simp: same_socket_def links_only_def)
qed

text \<open>C25. What a socket is sent, it will read. A packet the driver hands up is appended to what its socket has
  pending, without the custom header; if no socket takes it, it goes back to the free queue of the driver. No
  other socket notices.\<close>

theorem deliver_appends:
  fixes M :: "'e sockets mqx" and U
  assumes "sock_inv P s qs zs fs" "p \<notin># P" "p \<noteq> NULL" "rxPoolID (nbs s p) \<noteq> 0" "rx_packet (nbs s p)" "size P < queue_cap"
  defines "s' \<equiv> snd (custom_receive_tcpip M U p s)"
  shows "\<exists>qs' fs'. sock_inv (add_mset p P) s' qs' zs fs' \<and> fs' = (if accepting p s = None then fs @ [p] else fs)
    \<and> (\<forall>j<MAX_SOCKETS_SUPPORTED. pending s' j (qs' j) = pending s j (qs j) @
         (if accepting p s = Some j then drop (recv_hdr (sk j s)) (packet_bytes (mem s) (nbs s p)) else []))"
  using deliver_effect [OF assms(1-6), where M = M and U = U]
  by (cases "accepting p s") (fastforce simp: s'_def pending_def)+

section \<open>Giving a packet back\<close>

text \<open>The effect of moving packets between the zero-copy queue and the free queue on the invariant.\<close>

lemma links_inv:
  assumes "sock_inv P s qs zs fs" "links_only s s'" "sock_rep Q s' qs zs' fs'" "Q \<subseteq># P" "\<And>j. sk j s' = sk j s"
  shows "sock_inv Q s' qs zs' fs'"
  using assms(1,3,5) links_onlyD(1,2) [OF assms(2)] mset_subset_eqD [OF assms(4)]
  by (auto simp: sock_inv_def waiting_def)

lemma zero_copy_free_hit:
  assumes inv: "sock_inv P s qs (us @ c # vs) fs" and size: "size P < queue_cap"
    and us: "\<forall>x\<in>set us. nb_data (nbs s x) \<noteq> buffer" and c: "nb_data (nbs s c) = buffer"
  obtains s' where "zero_copy_free M U buffer s = Some s'" "sock_inv P s' qs (us @ vs) (fs @ [c])"
    "links_only s s'" "\<And>j. sk j s' = sk j s"
proof -
  have rep: "sock_rep P s qs (us @ c # vs) fs" using inv by (simp add: sock_inv_def)
  obtain h q where run: "a_netbuf_dequeue_adv (nbs s, zero_copy_free_queue (hw_env s)) buffer = Some (c, h, q)"
    and q: "queue_rep (h, q) (us @ vs)" using dequeue_adv_at [OF sock_repD(3) [OF rep] us c] by fastforce
  have cn: "c \<noteq> NULL" using queue_rep_facts [OF sock_repD(3) [OF rep]] by auto
  define t where "t = on_env (zero_copy_free_queue_update (\<lambda>_. q)) (s\<lparr>nbs := h\<rparr>)"
  have m: "mset (us @ c # vs) = (if c = NULL then {#} else {#c#}) + mset (us @ vs)" using cn by simp
  note t = zc_remove_rep [OF rep run q m, folded t_def]
  have cP: "c \<in># P" using places(2) [OF rep, of c] by simp
  then have "c \<notin># P - {#c#}" "rxPoolID (nbs t c) \<noteq> 0" "size (P - {#c#}) < queue_cap" "add_mset c (P - {#c#}) = P"
    using sock_repD(7) [OF rep, of c] inv links_onlyD(1) [OF t(2), of c] size
    by (auto simp: not_in_iff sock_inv_def size_Diff_singleton_if)
  with t(1) cn free_rx_rep [of "P - {#c#}" t qs "us @ vs" fs c M U]
  have fr: "sock_rep P (a_netbuf_free M U c t) qs (us @ vs) (fs @ [c])" "links_only t (a_netbuf_free M U c t)"
    "hw_env (a_netbuf_free M U c t) = hw_env t" by simp_all
  have lo: "links_only s (a_netbuf_free M U c t)" by (rule links_only_trans [OF t(2) fr(2)])
  moreover have sk: "sk j (a_netbuf_free M U c t) = sk j s" for j using drv_update_env [OF fr(3)] t(3) by simp
  ultimately have "sock_inv P (a_netbuf_free M U c t) qs (us @ vs) (fs @ [c])"
    using links_inv [OF inv lo fr(1)] by simp
  moreover have "zero_copy_free M U buffer s = Some (a_netbuf_free M U c t)"
    using run cn by (simp add: zero_copy_free_def t_def del: a_netbuf_dequeue_adv.simps)
  ultimately show thesis using that lo sk by blast
qed

lemma zero_copy_free_miss:
  assumes inv: "sock_inv P s qs zs fs" and zs: "\<forall>x\<in>set zs. nb_data (nbs s x) \<noteq> buffer"
  shows "zero_copy_free M U buffer s = Some s"
proof -
  have "queue_rep (nbs s, zero_copy_free_queue (hw_env s)) zs" using inv by (auto simp: sock_inv_def dest: sock_repD(3))
  from dequeue_adv_absent [OF this zs] show ?thesis
    by (simp add: zero_copy_free_def on_env_def del: a_netbuf_dequeue_adv.simps)
qed

lemma zero_copy_free_inv:
  assumes inv: "sock_inv P s qs zs fs" and size: "size P < queue_cap" and run: "zero_copy_free M U buffer s = Some s'"
  shows "\<exists>zs' fs'. sock_inv P s' qs zs' fs'"
proof (cases "\<forall>x\<in>set zs. nb_data (nbs s x) \<noteq> buffer")
  case True
  from zero_copy_free_miss [OF inv this] run inv show ?thesis by auto
next
  case False
  then obtain us c vs where "zs = us @ c # vs" "nb_data (nbs s c) = buffer" "\<forall>x\<in>set us. nb_data (nbs s x) \<noteq> buffer"
    using split_list_first_prop [of zs "\<lambda>x. nb_data (nbs s x) = buffer"] by auto
  with zero_copy_free_hit [of P s qs us c vs fs buffer M U] inv size run show ?thesis by fastforce
qed

text \<open>C5. A stream socket delivers its bytes in order, whatever the sizes of the packets and of the reads.
  A read of up to \<open>n\<close> bytes yields a pointer to the bytes that come first; what is then still pending is
  the rest; nothing else of the memory and no other socket changes. A read that yields nothing finds nothing pending.\<close>

theorem stream_read_in_order:
  assumes inv: "sock_inv P s qs zs fs" "size P < queue_cap" and find: "find_socket_context h True s = Some i"
    and stream: "sock_type (sk i s) = SOCK_STREAM_TYPE" "domain (sk i s) \<in> {ATH_AF_INET, ATH_AF_INET6}"
    and hdr: "\<forall>p\<in>set (qs i). recv_hdr (sk i s) \<le> length (packet_bytes (mem s) (nbs s p))"
  shows "\<exists>r b s' qs' zs'. Api_recvfrom h n nam sl s = Some (r, b, s') \<and> sock_inv P s' qs' zs' fs \<and> mem s' = mem s
    \<and> (case b of None \<Rightarrow> r = E_ERROR \<and> pending s i (qs i) = []
         | Some d \<Rightarrow> r \<le> n \<and> mem_bytes (mem s) d (unat r) @ pending s' i (qs' i) = pending s i (qs i))
    \<and> (\<forall>j<MAX_SOCKETS_SUPPORTED. j \<noteq> i \<longrightarrow> pending s' j (qs' j) = pending s j (qs j))"
proof -
  obtain r b s' where run: "Api_recvfrom h n nam sl s = Some (r, b, s')"
    using recv_returns [OF inv(1) find stream(2) hdr, of n nam sl] by auto
  with recv_stream [OF inv find stream(1) run] show ?thesis by blast
qed

end
