(* ===== verification/Sock_Reach.thy ===== *)
theory Sock_Reach
  imports Sock_Flow
begin

text \<open>
  The life of the receive buffers as a state machine: the driver takes a buffer from its free queue, the device
  fills it, the packet is delivered, the application reads it and gives it back, or the socket is purged. In every
  reachable state each buffer is in exactly one place.
\<close>

section \<open>Purging a queue\<close>

lemma free_set_sk:
  "rxPoolID (nbs s x) \<noteq> 0 \<Longrightarrow> a_netbuf_free M U x (set_sk i f s) = set_sk i f (a_netbuf_free M U x s)"
  by (simp add: a_netbuf_free_def a_netbuf_free_rx_pool_def rxfree_enqueue_def Driver_ReportRxBuffStatus_def
      Driver_WakeDriver_def set_sk_def set_obj_def on_env_def sk_ptr_def Let_def split: prod.splits)

text \<open>One round of \<open>purge_loop\<close>.\<close>

definition purge_one :: "'e sockets mqx \<Rightarrow> 'e sockets upper \<Rightarrow> nat \<Rightarrow> 'e net \<Rightarrow> 'e net" where
  "purge_one M U i s = (
     let temp = q_head (rxqueue (cust (sk i s)));
         s = set_sk i (on_cust (rxqueue_update (q_head_update (\<lambda>_. queueLink (nbs s temp))))) s;
         s = s\<lparr>nbs := set_link temp NULL (nbs s)\<rparr>;
         s = a_netbuf_free M U temp s
     in set_sk i (on_cust (rxqueue_update (q_count_update (\<lambda>n. n - 1)))) s)"

lemma purge_unfold: "purge_loop M U i s =
    (if q_count (rxqueue (cust (sk i s))) = 0 then Some s else purge_loop M U i (purge_one M U i s))"
  by (subst purge_loop.simps) (simp add: purge_one_def Let_def)

lemma purge_one_rep:
  fixes M :: "'e sockets mqx" and U
  assumes rep: "sock_rep P s qs zs fs" and i: "i < MAX_SOCKETS_SUPPORTED" and x: "qs i = x # xs" and size: "size P < queue_cap"
    and pool: "rxPoolID (nbs s x) \<noteq> 0"
  shows "sock_rep P (purge_one M U i s) (qs(i := xs)) zs (fs @ [x])" "links_only s (purge_one M U i s)"
    "\<And>j. j < MAX_SOCKETS_SUPPORTED \<Longrightarrow> same_socket (sk j s) (sk j (purge_one M U i s))"
proof -
  let ?q = "rxqueue (cust (sk i s))"
  note ri = sock_repD(2) [OF rep i]
  have head: "q_head ?q = x" using ri x by (simp add: queue_rep_def)
  define f where "f = on_cust (rxqueue_update (\<lambda>q. q_count_update (\<lambda>n. n - 1) (q\<lparr>q_head := queueLink (nbs s x)\<rparr>)))"
  define u where "u = s\<lparr>nbs := set_link x NULL (nbs s)\<rparr>"
  define t where "t = set_sk i f u"
  have xx: "x \<notin> set xs" "x \<noteq> NULL" using queue_rep_facts [OF ri] x by auto
  have xP: "x \<in># P" using places(1) [OF rep i, of x] x by simp
  have ptr: "ptrs_ok u" using sock_repD(1) [OF rep] by (simp add: u_def)
  note sk' = sk_set_sk [OF ptr, of i _ f, folded t_def]
  have sku: "sk j u = sk j s" for j by (simp add: u_def)
  have keep: "queue_rep (nbs u, q) ys = queue_rep (nbs s, q) ys" if "x \<notin> set ys" for q ys
    by (rule queue_rep_cong) (use that in \<open>auto simp: u_def set_link_def\<close>)
  have "queue_rep (nbs s, q_count_update (\<lambda>n. n - 1) (?q\<lparr>q_head := queueLink (nbs s x)\<rparr>)) xs"
    using ri x by (auto simp: queue_rep_def)
  then have qi: "queue_rep (nbs u, rxqueue (cust (f (sk i s)))) xs" using keep xx by (simp add: f_def)
  moreover have "queue_rep (nbs u, rxqueue (cust (sk j s))) (qs j)" if "j < MAX_SOCKETS_SUPPORTED" "j \<noteq> i" for j
    using keep [of "qs j"] disjoint_places(1) [OF rep i that(1), of x] sock_repD(2) [OF rep that(1)] x that(2) by auto
  moreover have "queue_rep (nbs u, zero_copy_free_queue (hw_env s)) zs" "queue_rep (nbs u, rxFreeQueue s) fs"
    using keep [of zs] keep [of fs] disjoint_places(2,3) [OF rep i, of x] sock_repD(3,5) [OF rep] x by auto
  moreover have "add_mset x (buffers t (qs(i := xs)) zs fs) = P"
    using buffers_queue [OF i, of t qs xs zs fs] sum_held_cong [of t s] sock_repD(6) [OF rep] sk' i x
    by (simp add: sku f_def)
  then have "buffers t (qs(i := xs)) zs fs = P - {#x#}" by (metis add_mset_remove_trivial)
  moreover have once: "count (P - {#x#}) y \<le> 1" for y using sock_repD(7) [OF rep, of y] by simp
  ultimately have rept: "sock_rep (P - {#x#}) t (qs(i := xs)) zs fs"
    using ptr i sk' sku by (simp add: sock_rep_def t_def u_def)
  let ?v = "(set_sk i (on_cust (rxqueue_update (q_head_update (\<lambda>_. queueLink (nbs s x))))) s)\<lparr>nbs := set_link x NULL (nbs s)\<rparr>"
  have "rxPoolID (nbs ?v x) \<noteq> 0" using pool by (simp add: set_link_def)
  from free_set_sk [OF this, where M = M and U = U and i = i and f = "on_cust (rxqueue_update (q_count_update (\<lambda>n. n - 1)))"]
  have one: "purge_one M U i s = a_netbuf_free M U x t"
    by (simp add: purge_one_def head Let_def set_sk_merge t_def u_def f_def comp_def)
  have lt: "links_only s t" using set_link_links [of x NULL "nbs s"] by (simp add: links_only_def t_def u_def)
  have "x \<notin># P - {#x#}" using sock_repD(7) [OF rep, of x] by (simp add: not_in_iff)
  moreover have "size (P - {#x#}) < queue_cap" using size xP by (simp add: size_Diff_singleton_if)
  moreover have "rxPoolID (nbs t x) \<noteq> 0" using links_onlyD(1) [OF lt] pool by simp
  ultimately have fr: "sock_rep (add_mset x (P - {#x#})) (purge_one M U i s) (qs(i := xs)) zs (fs @ [x])"
    "links_only t (purge_one M U i s)" "hw_env (purge_one M U i s) = hw_env t"
    using free_rx_rep [OF rept, of x M U] xx one by simp_all
  show "sock_rep P (purge_one M U i s) (qs(i := xs)) zs (fs @ [x])" using fr(1) xP by simp
  show "links_only s (purge_one M U i s)" by (rule links_only_trans [OF lt fr(2)])
  show "same_socket (sk j s) (sk j (purge_one M U i s))" if "j < MAX_SOCKETS_SUPPORTED" for j
    using drv_update_env [OF fr(3)] sk' [of j] that i sku by (auto simp: same_socket_def f_def)
qed

lemma waiting_mono:
  "(\<And>j. j < MAX_SOCKETS_SUPPORTED \<Longrightarrow> set (qs' j) \<subseteq> set (qs j) \<and> old_netbuf (sk j s') = old_netbuf (sk j s)) \<Longrightarrow>
   waiting s' qs' \<subseteq> waiting s qs"
  unfolding waiting_def by (rule UN_mono) auto

lemma purge_loop_effect:
  assumes "sock_inv P s qs zs fs" "i < MAX_SOCKETS_SUPPORTED" "size P < queue_cap"
  obtains s' where "purge_loop M U i s = Some s'" "sock_inv P s' (qs(i := [])) zs (fs @ qs i)" "links_only s s'"
    "\<And>j. j < MAX_SOCKETS_SUPPORTED \<Longrightarrow> same_socket (sk j s) (sk j s')"
proof -
  have "\<exists>s'. purge_loop M U i s = Some s' \<and> sock_inv P s' (qs(i := [])) zs (fs @ qs i) \<and> links_only s s'
    \<and> (\<forall>j<MAX_SOCKETS_SUPPORTED. same_socket (sk j s) (sk j s'))"
    using assms(1)
  proof (induction "qs i" arbitrary: s qs fs)
    case Nil
    note e = Nil.hyps [symmetric]
    have "q_count (rxqueue (cust (sk i s))) = 0"
      using queue_rep_count_0 [OF sock_repD(2) [of P s qs zs fs i]] assms(2) e Nil.prems by (simp add: sock_inv_def)
    then have "purge_loop M U i s = Some s" by (simp add: purge_unfold)
    then show ?case using Nil.prems e by (simp add: same_socket_def links_only_refl fun_upd_idem)
  next
    case (Cons x xs)
    note x = Cons.hyps(2) [symmetric]
    have rep: "sock_rep P s qs zs fs" using Cons.prems by (simp add: sock_inv_def)
    have pool: "rxPoolID (nbs s x) \<noteq> 0" using places(1) [OF rep assms(2), of x] x Cons.prems by (simp add: sock_inv_def)
    have more_packets: "q_count (rxqueue (cust (sk i s))) \<noteq> 0" using queue_rep_count_0 [OF sock_repD(2) [OF rep assms(2)]] x by simp
    let ?t = "purge_one M U i s"
    note one = purge_one_rep [OF rep assms(2) x assms(3) pool, where M = M and U = U]
    have "waiting ?t (qs(i := xs)) \<subseteq> waiting s qs"
      by (rule waiting_mono) (use one(3) x in \<open>auto simp: same_socket_def\<close>)
    then have "sock_inv P ?t (qs(i := xs)) zs (fs @ [x])"
      using Cons.prems one(1,3) links_onlyD(1,2) [OF one(2)] by (simp add: sock_inv_def same_socket_def subset_iff)
    moreover have "xs = (qs(i := xs)) i" by simp
    ultimately obtain s' where s': "purge_loop M U i ?t = Some s'"
      "sock_inv P s' ((qs(i := xs))(i := [])) zs ((fs @ [x]) @ (qs(i := xs)) i)" "links_only ?t s'"
      "\<forall>j<MAX_SOCKETS_SUPPORTED. same_socket (sk j ?t) (sk j s')" using Cons.hyps(1) by blast
    have "purge_loop M U i s = Some s'" using more_packets s'(1) purge_unfold [of M U i s] by simp
    moreover have "sock_inv P s' (qs(i := [])) zs (fs @ qs i)" using s'(2) x by simp
    moreover have "links_only s s'" using links_only_trans [OF one(2) s'(3)] .
    moreover have "\<forall>j<MAX_SOCKETS_SUPPORTED. same_socket (sk j s) (sk j s')" using one(3) s'(4) by (simp add: same_socket_def)
    ultimately show ?case by blast
  qed
  then show thesis using that by blast
qed

lemma purge_queue_inv:
  assumes "sock_inv P s qs zs fs" "i < MAX_SOCKETS_SUPPORTED" "size P < queue_cap"
  obtains s' where "a_netbuf_purge_queue M U i s = Some s'" "sock_inv P s' (qs(i := [])) zs (fs @ qs i)" "links_only s s'"
    "\<And>j. j < MAX_SOCKETS_SUPPORTED \<Longrightarrow> same_socket (sk j s) (sk j s')"
proof -
  obtain t where t: "purge_loop M U i s = Some t" "sock_inv P t (qs(i := [])) zs (fs @ qs i)" "links_only s t"
    "\<And>j. j < MAX_SOCKETS_SUPPORTED \<Longrightarrow> same_socket (sk j s) (sk j t)"
    by (rule purge_loop_effect [OF assms]) (rule that; assumption)
  let ?f = "on_cust (rxqueue_update (\<lambda>q. q\<lparr>q_head := NULL, q_tail := NULL\<rparr>))"
  define s' where "s' = set_sk i ?f t"
  have rep: "sock_rep P t (qs(i := [])) zs (fs @ qs i)" using t(2) by (simp add: sock_inv_def)
  note sk' = sk_set_sk [OF sock_repD(1) [OF rep], of i _ ?f, folded s'_def]
  have same: "same_socket (sk j t) (sk j s')" if "j < MAX_SOCKETS_SUPPORTED" for j
    using sk' [of j] assms(2) that by (auto simp: same_socket_def)
  have "queue_rep (nbs t, rxqueue (cust (sk i t))) []" using sock_repD(2) [OF rep assms(2)] by simp
  then have "queue_rep (nbs t, (rxqueue (cust (sk i t)))\<lparr>q_head := NULL, q_tail := NULL\<rparr>) []" by (simp add: queue_rep_def)
  moreover have "buffers s' (qs(i := [])) zs (fs @ qs i) = P"
    using sock_repD(6) [OF rep] sum_held_cong [of s' t] same by (simp add: same_socket_def)
  moreover have "queue_rep (nbs t, rxqueue (cust (sk j t))) (qs j)" if "j < MAX_SOCKETS_SUPPORTED" "j \<noteq> i" for j
    using sock_repD(2) [OF rep that(1)] that(2) by simp
  ultimately have "sock_rep P s' (qs(i := [])) zs (fs @ qs i)"
    using rep sk' assms(2) by (simp add: sock_rep_def s'_def)
  moreover have "waiting s' (qs(i := [])) \<subseteq> waiting t (qs(i := []))"
    by (rule waiting_mono) (use same in \<open>auto simp: same_socket_def\<close>)
  moreover have lo: "links_only t s'" by (rule links_only_refl) (simp_all add: s'_def)
  ultimately have "sock_inv P s' (qs(i := [])) zs (fs @ qs i)"
    using t(2) same by (simp add: sock_inv_def same_socket_def subset_iff s'_def)
  moreover have "a_netbuf_purge_queue M U i s = Some s'" using t(1) by (simp add: a_netbuf_purge_queue_def s'_def)
  moreover have "same_socket (sk j s) (sk j s')" if "j < MAX_SOCKETS_SUPPORTED" for j
    using t(4) [OF that] same [OF that] by (simp add: same_socket_def)
  ultimately show thesis using that links_only_trans [OF t(3) lo] by blast
qed

section \<open>Buffers in the driver's hands\<close>

lemma take_free_rep:
  assumes rep: "sock_rep P s qs zs fs" and run: "rxfree_dequeue s = (p, s')" and p: "p \<noteq> NULL"
  obtains fs' where "fs = p # fs'" "sock_rep (P - {#p#}) s' qs zs fs'" "links_only s s'" "hw_env s' = hw_env s"
    "p \<in># P" "p \<notin># P - {#p#}"
proof (cases fs)
  case Nil
  have "a_netbuf_dequeue (nbs s, rxFreeQueue s) = (NULL, nbs s, rxFreeQueue s)"
    using queue_rep_dequeue_empty [OF sock_repD(5) [OF rep, unfolded Nil]] .
  with run p show thesis by (simp add: rxfree_dequeue_def del: a_netbuf_dequeue.simps)
next
  case (Cons x fs')
  note rf = sock_repD(5) [OF rep]
  obtain h q where e: "a_netbuf_dequeue (nbs s, rxFreeQueue s) = (x, h, q)" and q: "queue_rep (h, q) fs'"
    using queue_rep_dequeue [OF rf [unfolded Cons]] by fastforce
  have p: "p = x" and s': "s' = s\<lparr>nbs := h, rxFreeQueue := q\<rparr>"
    using run e by (simp_all add: rxfree_dequeue_def del: a_netbuf_dequeue.simps)
  have loc: "\<And>y. y \<notin> set fs \<Longrightarrow> h y = nbs s y" using dequeue_local [OF rf] e by (metis fst_conv snd_conv)
  have keep: "queue_rep (h, q') ys = queue_rep (nbs s, q') ys" if "\<forall>y\<in>set ys. y \<notin> set fs" for q' ys
    by (rule queue_rep_cong) (use that loc in auto)
  have env: "hw_env s' = hw_env s" by (simp add: s')
  note sk' = drv_update_env [OF env]
  have "queue_rep (h, rxqueue (cust (sk j s))) (qs j)" if "j < MAX_SOCKETS_SUPPORTED" for j
    using keep [of "qs j"] disjoint_places(3) [OF rep that] sock_repD(2) [OF rep that] by auto
  moreover have "queue_rep (h, zero_copy_free_queue (hw_env s)) zs"
    using keep [of zs] disjoint_places(4) [OF rep] sock_repD(3) [OF rep] by auto
  moreover have "buffers s' qs zs fs' = P - {#p#}"
    using sock_repD(6) [OF rep, symmetric] sk' by (simp add: buffers_def Cons p)
  moreover have "count (P - {#p#}) y \<le> 1" for y using sock_repD(7) [OF rep, of y] by simp
  ultimately have "sock_rep (P - {#p#}) s' qs zs fs'"
    using sk' env sock_repD(1) [OF rep] q by (simp add: sock_rep_def rxfree_rep_def ptrs_ok_def) (simp add: s')
  moreover have "links_only s s'" using dequeue_links [of "nbs s" "rxFreeQueue s"] e by (simp add: links_only_def s')
  moreover have "p \<in># P" using places(3) [OF rep, of p] Cons p by simp
  moreover have "p \<notin># P - {#p#}" using sock_repD(7) [OF rep, of p] by (simp add: not_in_iff)
  ultimately show thesis using that Cons p env by simp
qed

lemma flight_update_inv:
  assumes inv: "sock_inv P s qs zs fs" and h: "\<And>y. y \<notin># F \<Longrightarrow> h y = nbs s y" and F: "\<And>y. y \<in># F \<Longrightarrow> y \<notin># P"
  shows "sock_inv P (s\<lparr>mem := m, nbs := h\<rparr>) qs zs fs"
proof -
  have rep: "sock_rep P s qs zs fs" using inv by (simp add: sock_inv_def)
  have keep: "queue_rep (h, q) xs = queue_rep (nbs s, q) xs" if "\<And>x. x \<in> set xs \<Longrightarrow> x \<in># P" for q xs
    by (rule queue_rep_cong) (use that h F in metis)
  have "sock_rep P (s\<lparr>mem := m, nbs := h\<rparr>) qs zs fs"
    using rep keep places [OF rep] by (simp add: sock_rep_def rxfree_rep_def buffers_def)
  moreover have same: "h x = nbs s x" if "x \<in># P" for x using that h F by blast
  moreover have "x \<in># P" if "x \<in> waiting s qs" for x
    using that places(1,4) [OF rep] by (auto simp: waiting_def split: if_splits)
  moreover have "waiting (s\<lparr>mem := m, nbs := h\<rparr>) qs = waiting s qs" by (simp add: waiting_def cong: if_cong)
  ultimately show ?thesis using inv by (simp add: sock_inv_def)
qed

section \<open>The state machine\<close>

text \<open>The steps on \<open>(F, s)\<close>: \<open>F\<close> are the buffers in the driver's hands. It takes a buffer from the free queue (\<open>take\<close>), the
  device fills those it has (\<open>fill\<close>), a buffer is dropped (\<open>drop\<close>) or delivered (\<open>deliver\<close>); the application
  reads from a socket (\<open>read\<close>), gives a buffer back (\<open>give_back\<close>), and a socket is purged (\<open>purge\<close>).\<close>

inductive sock_step :: "'e sockets mqx \<Rightarrow> 'e sockets upper \<Rightarrow> ptr multiset \<times> 'e net \<Rightarrow> ptr multiset \<times> 'e net \<Rightarrow> bool"
  for M U where
  take: "rxfree_dequeue s = (p, s') \<Longrightarrow> p \<noteq> NULL \<Longrightarrow> sock_step M U (F, s) (add_mset p F, s')"
| fill: "(\<And>y. y \<notin># F \<Longrightarrow> h y = nbs s y) \<Longrightarrow> (\<And>y. rxPoolID (h y) = rxPoolID (nbs s y)) \<Longrightarrow>
    sock_step M U (F, s) (F, s\<lparr>mem := m, nbs := h\<rparr>)"
| drop: "p \<in># F \<Longrightarrow> sock_step M U (F, s) (F - {#p#}, a_netbuf_free M U p s)"
| deliver: "p \<in># F \<Longrightarrow> rx_packet (nbs s p) \<Longrightarrow> sock_step M U (F, s) (F - {#p#}, snd (custom_receive_tcpip M U p s))"
| read: "Api_recvfrom h n nam sl s = Some (r, b, s') \<Longrightarrow> sock_step M U (F, s) (F, s')"
| give_back: "zero_copy_free M U buffer s = Some s' \<Longrightarrow> sock_step M U (F, s) (F, s')"
| purge: "i < MAX_SOCKETS_SUPPORTED \<Longrightarrow> a_netbuf_purge_queue M U i s = Some s' \<Longrightarrow> sock_step M U (F, s) (F, s')"

text \<open>Every buffer of \<open>T\<close> is in one place: the driver has it, or the socket layer in one of its places.\<close>

definition net_ok :: "ptr multiset \<Rightarrow> ptr multiset \<times> 'e net \<Rightarrow> bool" where
  "net_ok T = (\<lambda>(F, s). (\<exists>P qs zs fs. sock_inv P s qs zs fs \<and> P + F = T)
     \<and> (\<forall>x. count T x \<le> 1) \<and> size T < queue_cap \<and> (\<forall>p\<in>#F. p \<noteq> NULL \<and> rxPoolID (nbs s p) \<noteq> 0))"

lemma net_okD:
  assumes "net_ok T (F, s)"
  obtains P qs zs fs where "sock_inv P s qs zs fs" "P + F = T" "size P < queue_cap" "\<And>x. x \<in># F \<Longrightarrow> x \<notin># P"
    "\<And>x. count F x \<le> 1" "\<And>x. x \<in># F \<Longrightarrow> x \<noteq> NULL \<and> rxPoolID (nbs s x) \<noteq> 0" "size T < queue_cap" "\<And>x. count T x \<le> 1"
proof -
  obtain P qs zs fs where i: "sock_inv P s qs zs fs" "P + F = T" using assms by (auto simp: net_ok_def)
  moreover have once: "\<forall>x. count T x \<le> 1" using assms by (simp add: net_ok_def)
  moreover have "count F x \<le> 1" for x using spec [OF once, of x] unfolding i(2) [symmetric] by simp
  moreover have "x \<notin># P" if "x \<in># F" for x using no_dup [of F P T x] i(2) once that by (simp add: add.commute)
  ultimately show thesis using that assms by (auto simp: net_ok_def)
qed

lemma net_okI:
  "sock_inv P s qs zs fs \<Longrightarrow> P + F = T \<Longrightarrow> (\<And>x. count T x \<le> 1) \<Longrightarrow> size T < queue_cap \<Longrightarrow>
   (\<And>p. p \<in># F \<Longrightarrow> p \<noteq> NULL \<and> rxPoolID (nbs s p) \<noteq> 0) \<Longrightarrow> net_ok T (F, s)"
  by (auto simp: net_ok_def)

lemma net_ok_same_flight:
  assumes "net_ok T (F, s)" "sock_inv P' s' qs zs fs" "P' + F = T" "\<And>x. x \<in># F \<Longrightarrow> rxPoolID (nbs s' x) = rxPoolID (nbs s x)"
  shows "net_ok T (F, s')"
  using assms by (auto simp: net_ok_def)

lemma recv_pools:
  assumes inv: "sock_inv P s qs zs fs" "size P < queue_cap" and run: "Api_recvfrom h n nam sl s = Some (r, b, s')"
  shows "rxPoolID (nbs s' x) = rxPoolID (nbs s x)"
proof (cases "find_socket_context h True s")
  case None
  with run show ?thesis by (simp add: Api_recvfrom_def)
next
  case (Some i)
  from inv Some run show ?thesis by (cases rule: recv_took) (auto dest: tookD(2))
qed

lemma zero_copy_free_pools:
  assumes inv: "sock_inv P s qs zs fs" "size P < queue_cap" and run: "zero_copy_free M U buffer s = Some s'"
  shows "rxPoolID (nbs s' x) = rxPoolID (nbs s x)"
proof (cases "\<forall>x\<in>set zs. nb_data (nbs s x) \<noteq> buffer")
  case True
  from zero_copy_free_miss [OF inv(1) this] run show ?thesis by auto
next
  case False
  then obtain us c vs where zs: "zs = us @ c # vs" "nb_data (nbs s c) = buffer" "\<forall>x\<in>set us. nb_data (nbs s x) \<noteq> buffer"
    using split_list_first_prop [of zs "\<lambda>x. nb_data (nbs s x) = buffer"] by auto
  obtain t where "zero_copy_free M U buffer s = Some t" "links_only s t"
    by (rule zero_copy_free_hit [OF inv(1) [unfolded zs(1)] inv(2) zs(3,2)])
  then show ?thesis using run links_onlyD(1) [of s s' x] by simp
qed

lemma deliver_inv:
  assumes inv: "sock_inv P s qs zs fs" and p: "p \<notin># P" "p \<noteq> NULL" "rxPoolID (nbs s p) \<noteq> 0" "rx_packet (nbs s p)" and size: "size P < queue_cap"
  shows "\<exists>qs' fs'. sock_inv (add_mset p P) (snd (custom_receive_tcpip M U p s)) qs' zs fs'"
proof -
  have rep: "sock_rep P s qs zs fs" using inv by (simp add: sock_inv_def)
  note d = deliver_rep [OF rep p(1-3) size, where M = M and U = U]
  let ?s = "snd (custom_receive_tcpip M U p s)"
  have old: "old_netbuf (sk j ?s) = old_netbuf (sk j s)" "remaining_bytes (sk j ?s) = remaining_bytes (sk j s)"
    if "j < MAX_SOCKETS_SUPPORTED" for j using d(2) [OF that] by (simp_all add: same_socket_def)
  have rest: "sock_inv (add_mset p P) ?s qs' zs fs'" if "sock_rep (add_mset p P) ?s qs' zs fs'" "waiting s qs' \<subseteq> insert p (waiting s qs)" for qs' fs'
  proof -
    have "waiting ?s qs' \<subseteq> waiting s qs'" by (rule waiting_mono) (use old in simp)
    then have "rx_packet (nbs ?s q)" if "q \<in> waiting ?s qs'" for q
      using that \<open>waiting s qs' \<subseteq> _\<close> inv p(4) links_onlyD(2) [OF d(1), of q] by (auto simp: sock_inv_def)
    then show ?thesis using that(1) inv p(3) old links_onlyD(1) [OF d(1)] by (simp add: sock_inv_def)
  qed
  show ?thesis
  proof (cases "accepting p s")
    case None
    with d(3) rest [of qs "fs @ [p]"] show ?thesis by auto
  next
    case (Some i)
    have "waiting s (qs(i := qs i @ [p])) \<subseteq> insert p (waiting s qs)"
      by (auto simp: waiting_def split: if_splits)
    with Some d(3) rest [of "qs(i := qs i @ [p])" fs] show ?thesis by auto
  qed
qed

lemma sock_step_ok:
  assumes "sock_step M U FS FS'" "net_ok T FS"
  shows "net_ok T FS'"
  using assms
proof (cases rule: sock_step.cases)
  case (take s p s' F)
  from assms(2) [unfolded take(1)] show ?thesis
  proof (rule net_okD)
    fix P qs zs fs
    assume inv: "sock_inv P s qs zs fs" and T: "P + F = T" "size T < queue_cap" "\<And>x. count T x \<le> 1"
      and F: "\<And>x. x \<in># F \<Longrightarrow> x \<noteq> NULL \<and> rxPoolID (nbs s x) \<noteq> 0"
    have rep: "sock_rep P s qs zs fs" using inv by (simp add: sock_inv_def)
    from take_free_rep [OF rep take(3,4)] obtain fs' where t: "sock_rep (P - {#p#}) s' qs zs fs'" "links_only s s'"
      "hw_env s' = hw_env s" "p \<in># P" by blast
    have "sock_inv (P - {#p#}) s' qs zs fs'"
      by (rule links_inv [OF inv t(2,1)]) (use drv_update_env [OF t(3)] in simp_all)
    moreover have "rxPoolID (nbs s p) \<noteq> 0" using inv t(4) by (simp add: sock_inv_def)
    ultimately show ?thesis unfolding take(2)
      by (rule_tac net_okI) (use T F t(4) take(4) links_onlyD(1) [OF t(2)] in auto)
  qed
next
  case (fill F h s m)
  from assms(2) [unfolded fill(1)] show ?thesis
  proof (rule net_okD)
    fix P qs zs fs
    assume inv: "sock_inv P s qs zs fs" and F: "\<And>x. x \<in># F \<Longrightarrow> x \<notin># P" and T: "P + F = T"
    have "sock_inv P (s\<lparr>mem := m, nbs := h\<rparr>) qs zs fs" by (rule flight_update_inv [OF inv fill(3) F])
    from net_ok_same_flight [OF assms(2) [unfolded fill(1)] this T] show ?thesis unfolding fill(2) by (simp add: fill(4))
  qed
next
  case (drop p F s)
  from assms(2) [unfolded drop(1)] show ?thesis
  proof (rule net_okD)
    fix P qs zs fs
    assume inv: "sock_inv P s qs zs fs" and P: "size P < queue_cap" "\<And>x. x \<in># F \<Longrightarrow> x \<notin># P"
      and T: "P + F = T" "size T < queue_cap" "\<And>x. count T x \<le> 1"
      and F: "\<And>x. x \<in># F \<Longrightarrow> x \<noteq> NULL \<and> rxPoolID (nbs s x) \<noteq> 0"
    note p = P(2) [OF drop(3)] F [OF drop(3)]
    have rep: "sock_rep P s qs zs fs" using inv by (simp add: sock_inv_def)
    have fr: "sock_rep (add_mset p P) (a_netbuf_free M U p s) qs zs (fs @ [p])" "links_only s (a_netbuf_free M U p s)"
      "hw_env (a_netbuf_free M U p s) = hw_env s" using free_rx_rep [OF rep _ _ P(1), of p M U] p by simp_all
    have "waiting (a_netbuf_free M U p s) qs \<subseteq> waiting s qs"
      by (rule waiting_mono) (use drv_update_env [OF fr(3)] in simp)
    then have "sock_inv (add_mset p P) (a_netbuf_free M U p s) qs zs (fs @ [p])"
      using fr(1) inv p drv_update_env [OF fr(3)] links_onlyD(1,2) [OF fr(2)] by (simp add: sock_inv_def subset_iff)
    then show ?thesis unfolding drop(2)
      by (rule net_okI) (use T F drop(3) links_onlyD(1) [OF fr(2)] in \<open>auto dest: in_diffD\<close>)
  qed
next
  case (deliver p F s)
  from assms(2) [unfolded deliver(1)] show ?thesis
  proof (rule net_okD)
    fix P qs zs fs
    assume inv: "sock_inv P s qs zs fs" and P: "size P < queue_cap" "\<And>x. x \<in># F \<Longrightarrow> x \<notin># P"
      and T: "P + F = T" "size T < queue_cap" "\<And>x. count T x \<le> 1"
      and F: "\<And>x. x \<in># F \<Longrightarrow> x \<noteq> NULL \<and> rxPoolID (nbs s x) \<noteq> 0"
    note p = P(2) [OF deliver(3)] F [OF deliver(3)]
    have rep: "sock_rep P s qs zs fs" using inv by (simp add: sock_inv_def)
    have lo: "links_only s (snd (custom_receive_tcpip M U p s))" using deliver_rep(1) [OF rep _ _ _ P(1)] p by blast
    obtain qs' fs' where "sock_inv (add_mset p P) (snd (custom_receive_tcpip M U p s)) qs' zs fs'"
      using deliver_inv [OF inv _ _ _ deliver(4) P(1)] p by blast
    then show ?thesis unfolding deliver(2)
      by (rule net_okI) (use T F deliver(3) links_onlyD(1) [OF lo] in \<open>auto dest: in_diffD\<close>)
  qed
next
  case (read h n nam sl s r b s' F)
  from assms(2) [unfolded read(1)] show ?thesis
    unfolding read(2) by (rule net_okD) (metis net_ok_same_flight [OF assms(2) [unfolded read(1)]] recv_inv recv_pools read(3))
next
  case (give_back buffer s s' F)
  from assms(2) [unfolded give_back(1)] show ?thesis
    unfolding give_back(2)
    by (rule net_okD) (metis net_ok_same_flight [OF assms(2) [unfolded give_back(1)]] zero_copy_free_inv zero_copy_free_pools give_back(3))
next
  case (purge i s s' F)
  from assms(2) [unfolded purge(1)] show ?thesis
  proof (rule net_okD)
    fix P qs zs fs
    assume inv: "sock_inv P s qs zs fs" "size P < queue_cap" and T: "P + F = T"
    obtain t where "a_netbuf_purge_queue M U i s = Some t" "sock_inv P t (qs(i := [])) zs (fs @ qs i)" "links_only s t"
      by (rule purge_queue_inv [OF inv(1) purge(3) inv(2)])
    then have "sock_inv P s' (qs(i := [])) zs (fs @ qs i)" "links_only s s'" using purge(4) by simp_all
    note new = this
    show ?thesis unfolding purge(2)
      by (rule net_ok_same_flight [OF assms(2) [unfolded purge(1)] new(1) T]) (rule links_onlyD(1) [OF new(2)])
  qed
qed

text \<open>C3. No receive buffer is lost or in two places. From a state in which every buffer of \<open>T\<close> is in exactly one
  place - the driver has it, a socket's queue holds it, a stream socket holds a part of it, the application has it
  (the zero-copy queue), or it is free - every sequence of the steps above, in any order, leads to such a state.\<close>

theorem buffers_conserved:
  assumes "net_ok T FS" "(sock_step M U)\<^sup>*\<^sup>* FS FS'"
  shows "net_ok T FS'"
  using assms(2,1) by (induction rule: rtranclp_induct) (auto intro: sock_step_ok)

section \<open>A concrete state\<close>

text \<open>Socket 0 is a stream with handle 7 and has the packet \<open>0x500\<close> in its queue; the driver has \<open>0x600\<close>, for the same socket.\<close>

definition demo_packet :: "ptr \<Rightarrow> netbuf" where
  "demo_packet d = netbuf_zero\<lparr>nb_head := d, nb_data := d, nb_tail := d + 24, nb_end := d + 0x100, rxPoolID := 1\<rparr>"

definition demo_sockets :: "unit sockets" where
  "demo_sockets = \<lparr>os_env = (), ath_sock_context = (\<lambda>i. of_nat i + 1),
     sock_objs = (\<lambda>_. sock_zero)(1 := sock_zero\<lparr>handle := 7, domain := ATH_AF_INET, sock_type := SOCK_STREAM_TYPE,
        cust := cust_zero\<lparr>rxqueue := \<lparr>q_head = 0x500, q_tail = 0x500, q_count = 1\<rparr>\<rparr>\<rparr>),
     zero_copy_free_queue = queue_zero, sockSelectWakeEvent = False, last_driver_error = A_OK\<rparr>"

definition demo_net :: "unit net" where
  "demo_net = (drv_zero demo_sockets)\<lparr>
     mem := (\<lambda>a. if a = 0x2000 then 7 else if 0x1000 \<le> a \<and> a < 0x2000 then ucast a else 0),
     nbs := (\<lambda>_. netbuf_zero)(0x500 := demo_packet 0x1000, 0x600 := demo_packet 0x2000)\<rparr>"

definition quiet_mqx :: "'e mqx" where
  "quiet_mqx = \<lparr>mem_alloc_system_zero = (\<lambda>n m e. (if n = sizeof_A_NETBUF then 0x700 else 0x3000, m, e)),
     mem_free = (\<lambda>_ e. e), get_size = (\<lambda>_ _. 0), time_delay = (\<lambda>_ e. e), spi_set_mode = (\<lambda>e. (True, e)),
     spi_read_write = (\<lambda>_ bs e. (True, bs, e)), spi_fread = (\<lambda>n e. ([], e)), spi_fwrite = (\<lambda>bs e. (0, e)),
     spi_fflush = (\<lambda>e. e), gpio_irq = (\<lambda>_ e. e), gpio_power = (\<lambda>_ e. (True, e)), uninit_u32 = (\<lambda>_. 0)\<rparr>"

definition demo_queues :: "nat \<Rightarrow> ptr list" where
  "demo_queues = (\<lambda>_. [])(0 := [0x500])"

lemma demo_fields:
  "sk_ptr i demo_net = of_nat i + 1" "nbs demo_net 0x500 = demo_packet 0x1000" "nbs demo_net 0x600 = demo_packet 0x2000"
  "hw_env demo_net = demo_sockets" "rxFreeQueue demo_net = queue_zero"
  by (simp_all add: sk_ptr_def demo_net_def demo_sockets_def drv_zero_def)

lemma demo_ptrs: "i \<le> GLOBAL_SOCK_INDEX \<Longrightarrow> j \<le> GLOBAL_SOCK_INDEX \<Longrightarrow> (of_nat i + 1 :: ptr) = of_nat j + 1 \<Longrightarrow> i = j"
proof -
  assume i: "i \<le> GLOBAL_SOCK_INDEX" and j: "j \<le> GLOBAL_SOCK_INDEX" and "(of_nat i + 1 :: ptr) = of_nat j + 1"
  then have "unat (of_nat i :: ptr) = unat (of_nat j :: ptr)" by simp
  with i j show "i = j" by (simp add: unat_of_nat take_bit_nat_eq_self)
qed

lemma demo_sk: "i \<le> GLOBAL_SOCK_INDEX \<Longrightarrow> sk i demo_net = (if i = 0 then sock_objs demo_sockets 1 else sock_zero)"
  using demo_ptrs [of i 0] by (cases "i = 0") (auto simp: sk_def obj_def demo_fields demo_sockets_def)

lemma demo_packet_ok: "d < 0xFFFF0000 \<Longrightarrow> rx_packet (demo_packet d)"
  by (simp add: rx_packet_def demo_packet_def netbuf_zero_def nb_wf_def) (unat_arith; simp)

lemma demo_inv: "sock_inv {#0x500#} demo_net demo_queues [] []"
proof -
  have "held_of (sk i demo_net) + mset (demo_queues i) = (if i = 0 then {#0x500#} else {#})" if "i < MAX_SOCKETS_SUPPORTED" for i
    using that by (simp add: demo_sk held_of_def demo_queues_def demo_sockets_def sock_zero_def)
  then have "buffers demo_net demo_queues [] [] = (\<Sum>i<MAX_SOCKETS_SUPPORTED. if i = 0 then {#0x500#} else {#})"
    by (simp add: buffers_def)
  also have "\<dots> = {#0x500#}" by (subst sum.delta) simp_all
  finally have b: "buffers demo_net demo_queues [] [] = {#0x500#}" .
  have "queue_rep (nbs demo_net, rxqueue (cust (sk i demo_net))) (demo_queues i)" if "i < MAX_SOCKETS_SUPPORTED" for i
    using that by (simp add: demo_sk demo_queues_def demo_sockets_def sock_zero_def cust_zero_def queue_zero_def queue_rep_def
        queue_cap_def demo_fields demo_packet_def netbuf_zero_def)
  then have rep: "sock_rep {#0x500#} demo_net demo_queues [] []"
    using b by (simp add: sock_rep_def ptrs_ok_def inj_on_def demo_fields demo_ptrs rxfree_rep_def)
      (simp add: demo_sockets_def queue_zero_def queue_rep_def queue_cap_def)
  have idle: "remaining_bytes (sk i demo_net) = 0" "old_netbuf (sk i demo_net) = NULL" if "i < MAX_SOCKETS_SUPPORTED" for i
    using that by (simp_all add: demo_sk demo_sockets_def sock_zero_def)
  have "waiting demo_net demo_queues \<subseteq> {0x500}" using idle by (auto simp: waiting_def demo_queues_def)
  then have "rx_packet (nbs demo_net p)" if "p \<in> waiting demo_net demo_queues" for p
    using that demo_packet_ok [of "0x1000"] by (auto simp: demo_fields)
  then show ?thesis using rep idle by (simp add: sock_inv_def demo_fields) (simp add: demo_packet_def)
qed

lemma demo_pending: "pending demo_net 0 [0x500] = [0x14, 0x15, 0x16, 0x17]"
  by (simp add: pending_def demo_sk demo_sockets_def sock_zero_def recv_hdr_def demo_fields packet_bytes_def demo_packet_def
      mem_bytes_def upt_rec) (simp add: demo_net_def)

lemma demo_size: "size {#0x500 :: ptr#} < queue_cap" "size {#0x500, 0x600 :: ptr#} < queue_cap"
  by (simp_all add: queue_cap_def)

lemma demo_find: "find_socket_context 7 True demo_net = Some 0"
  by (simp add: find_socket_Some demo_sk demo_sockets_def)

theorem stream_read_in_order_witness:
  "\<exists>r d s' left. Api_recvfrom 7 3 NULL NULL demo_net = Some (r, Some d, s') \<and> r \<le> 3
    \<and> mem_bytes (mem demo_net) d (unat r) @ left = [0x14, 0x15, 0x16, 0x17]"
proof -
  have "sock_type (sk 0 demo_net) = SOCK_STREAM_TYPE" "domain (sk 0 demo_net) \<in> {ATH_AF_INET, ATH_AF_INET6}"
    "\<forall>p\<in>set (demo_queues 0). recv_hdr (sk 0 demo_net) \<le> length (packet_bytes (mem demo_net) (nbs demo_net p))"
    by (simp_all add: demo_sk demo_sockets_def demo_queues_def recv_hdr_def demo_fields length_packet_bytes demo_packet_def)
  from stream_read_in_order [OF demo_inv demo_size(1) demo_find this, of 3 NULL NULL]
  show ?thesis by (fastforce simp: demo_queues_def demo_pending split: option.splits)
qed

lemma demo_accepting: "accepting 0x600 demo_net = Some 0"
proof -
  have "mem32 (mem demo_net) 0x2000 = 7" by (simp add: mem32_def demo_net_def le32_def)
  moreover have "get_total_pkts_buffered demo_net = 1" "get_holding_buffer demo_net = 0"
    by (simp_all add: get_total_pkts_buffered_def get_holding_buffer_def upt_rec demo_sk demo_sockets_def sock_zero_def cust_zero_def
        queue_zero_def)
  moreover have "custom_sock_is_pending (sk 0 demo_net) = 0"
    by (simp add: custom_sock_is_pending_def demo_sk demo_sockets_def sock_zero_def upt_rec)
  ultimately show ?thesis
    by (simp add: accepting_def a_netbuf_to_data_def demo_fields demo_packet_def demo_find)
qed

theorem deliver_appends_witness:
  "\<exists>qs'. pending (snd (custom_receive_tcpip quiet_mqx demo_upper 0x600 demo_net)) 0 (qs' 0) = [0x14, 0x15, 0x16, 0x17, 0, 0, 0, 0]"
proof -
  have "rx_packet (nbs demo_net 0x600)" "rxPoolID (nbs demo_net 0x600) \<noteq> 0"
    using demo_packet_ok [of "0x2000"] by (simp_all add: demo_fields) (simp add: demo_packet_def)
  from deliver_appends [OF demo_inv _ _ this(2,1) demo_size(1), where M = quiet_mqx and U = demo_upper]
  obtain qs' where "pending (snd (custom_receive_tcpip quiet_mqx demo_upper 0x600 demo_net)) 0 (qs' 0) = pending demo_net 0 (demo_queues 0) @
      drop (recv_hdr (sk 0 demo_net)) (packet_bytes (mem demo_net) (nbs demo_net 0x600))"
    by (auto simp: demo_accepting dest: spec [of _ 0])
  moreover have "drop (recv_hdr (sk 0 demo_net)) (packet_bytes (mem demo_net) (nbs demo_net 0x600)) = [0, 0, 0, 0]"
    by (simp add: demo_sk demo_sockets_def recv_hdr_def demo_fields packet_bytes_def demo_packet_def mem_bytes_def upt_rec)
      (simp add: demo_net_def)
  ultimately show ?thesis by (auto simp: demo_queues_def demo_pending)
qed

text \<open>The driver delivers \<open>0x600\<close>, and socket 0 is purged.\<close>

theorem buffers_conserved_witness:
  "\<exists>s'. (sock_step quiet_mqx demo_upper)\<^sup>*\<^sup>* ({#0x600#}, demo_net) ({#}, s') \<and> net_ok {#0x500, 0x600#} ({#}, s')"
proof -
  have p: "rx_packet (nbs demo_net 0x600)" "rxPoolID (nbs demo_net 0x600) \<noteq> 0"
    using demo_packet_ok [of "0x2000"] by (simp_all add: demo_fields) (simp add: demo_packet_def)
  let ?t = "snd (custom_receive_tcpip quiet_mqx demo_upper 0x600 demo_net)"
  have "sock_step quiet_mqx demo_upper ({#0x600#}, demo_net) ({#}, ?t)"
    using sock_step.deliver [of "0x600" "{#0x600#}" demo_net quiet_mqx demo_upper] p by simp
  moreover obtain qs' fs' where "sock_inv {#0x600, 0x500#} ?t qs' [] fs'"
    using deliver_inv [OF demo_inv _ _ p(2,1) demo_size(1)] by fastforce
  then obtain s' where "a_netbuf_purge_queue quiet_mqx demo_upper 0 ?t = Some s'"
    by (rule purge_queue_inv [where i = 0 and M = quiet_mqx and U = demo_upper]) (use demo_size(2) in \<open>simp_all add: add_mset_commute\<close>)
  then have "sock_step quiet_mqx demo_upper ({#}, ?t) ({#}, s')" by (intro sock_step.purge [where i = 0]) simp_all
  ultimately have steps: "(sock_step quiet_mqx demo_upper)\<^sup>*\<^sup>* ({#0x600#}, demo_net) ({#}, s')" by auto
  moreover have "net_ok {#0x500, 0x600#} ({#0x600#}, demo_net)"
    by (rule net_okI [OF demo_inv]) (use p demo_size in auto)
  ultimately show ?thesis using buffers_conserved by blast
qed

end
