(* ===== verification/Sock_Event.thy ===== *)
theory Sock_Event
  imports Sock_Reach
begin

text \<open>
  The target's answers to socket commands: \<open>Api_SockResponseEventRx\<close> of
  \<^verbatim>\<open>common_src/stack_common/api_stack_offload.c\<close>. An event names the command it answers; the context it
  is for is the global one or is found by the handle in the event. If the context waits for this command the
  result is stored and the waiting task is woken; some answers carry data, and then the context keeps the packet.

  The \<open>switch\<close> has some fifty cases that differ in which context they look at and in whether the packet
  is kept: they are two lists of commands and one function. \<open>SOCK_DNC_ENABLE\<close> has no \<open>break\<close> and runs the next
  case too, which does the same again.
\<close>

section \<open>Commands\<close>

abbreviation (input) SOCK_OPEN :: u32 where "SOCK_OPEN \<equiv> 0"
abbreviation (input) SOCK_CLOSE :: u32 where "SOCK_CLOSE \<equiv> 1"
abbreviation (input) SOCK_CONNECT :: u32 where "SOCK_CONNECT \<equiv> 2"
abbreviation (input) SOCK_BIND :: u32 where "SOCK_BIND \<equiv> 3"
abbreviation (input) SOCK_LISTEN :: u32 where "SOCK_LISTEN \<equiv> 4"
abbreviation (input) SOCK_ACCEPT :: u32 where "SOCK_ACCEPT \<equiv> 5"
abbreviation (input) SOCK_SETSOCKOPT :: u32 where "SOCK_SETSOCKOPT \<equiv> 7"
abbreviation (input) SOCK_GETSOCKOPT :: u32 where "SOCK_GETSOCKOPT \<equiv> 8"
abbreviation (input) SOCK_ERRNO :: u32 where "SOCK_ERRNO \<equiv> 9"
abbreviation (input) SOCK_IPCONFIG :: u32 where "SOCK_IPCONFIG \<equiv> 10"
abbreviation (input) SOCK_PING :: u32 where "SOCK_PING \<equiv> 11"
abbreviation (input) SOCK_STACK_INIT :: u32 where "SOCK_STACK_INIT \<equiv> 12"
abbreviation (input) SOCK_STACK_MISC :: u32 where "SOCK_STACK_MISC \<equiv> 13"
abbreviation (input) SOCK_PING6 :: u32 where "SOCK_PING6 \<equiv> 14"
abbreviation (input) SOCK_IP6CONFIG :: u32 where "SOCK_IP6CONFIG \<equiv> 15"
abbreviation (input) SOCK_IPCONFIG_DHCP_POOL :: u32 where "SOCK_IPCONFIG_DHCP_POOL \<equiv> 16"
abbreviation (input) SOCK_IP6CONFIG_ROUTER_PREFIX :: u32 where "SOCK_IP6CONFIG_ROUTER_PREFIX \<equiv> 17"
abbreviation (input) SOCK_IP_SET_TCP_EXP_BACKOFF_RETRY :: u32 where "SOCK_IP_SET_TCP_EXP_BACKOFF_RETRY \<equiv> 18"
abbreviation (input) SOCK_IP_SET_IP6_STATUS :: u32 where "SOCK_IP_SET_IP6_STATUS \<equiv> 19"
abbreviation (input) SOCK_IP_DHCP_RELEASE :: u32 where "SOCK_IP_DHCP_RELEASE \<equiv> 20"
abbreviation (input) SOCK_IP_SET_TCP_RX_BUF :: u32 where "SOCK_IP_SET_TCP_RX_BUF \<equiv> 21"
abbreviation (input) SOCK_HTTP_SERVER :: u32 where "SOCK_HTTP_SERVER \<equiv> 22"
abbreviation (input) SOCK_HTTP_SERVER_CMD :: u32 where "SOCK_HTTP_SERVER_CMD \<equiv> 23"
abbreviation (input) SOCK_DNC_CMD :: u32 where "SOCK_DNC_CMD \<equiv> 24"
abbreviation (input) SOCK_DNC_ENABLE :: u32 where "SOCK_DNC_ENABLE \<equiv> 25"
abbreviation (input) SOCK_DNS_SRVR_CFG_ADDR :: u32 where "SOCK_DNS_SRVR_CFG_ADDR \<equiv> 26"
abbreviation (input) SOCK_HTTPC :: u32 where "SOCK_HTTPC \<equiv> 27"
abbreviation (input) SOCK_DNS_LOCAL_DOMAIN :: u32 where "SOCK_DNS_LOCAL_DOMAIN \<equiv> 28"
abbreviation (input) SOCK_IP_HOST_NAME :: u32 where "SOCK_IP_HOST_NAME \<equiv> 29"
abbreviation (input) SOCK_IP_DNS :: u32 where "SOCK_IP_DNS \<equiv> 30"
abbreviation (input) SOCK_IP_SNTP_SRVR_ADDR :: u32 where "SOCK_IP_SNTP_SRVR_ADDR \<equiv> 31"
abbreviation (input) SOCK_IP_SNTP_GET_TIME :: u32 where "SOCK_IP_SNTP_GET_TIME \<equiv> 32"
abbreviation (input) SOCK_IP_SNTP_GET_TIME_OF_DAY :: u32 where "SOCK_IP_SNTP_GET_TIME_OF_DAY \<equiv> 33"
abbreviation (input) SOCK_IP_SNTP_CONFIG_TIMEZONE_DSE :: u32 where "SOCK_IP_SNTP_CONFIG_TIMEZONE_DSE \<equiv> 34"
abbreviation (input) SOCK_IP_SNTP_QUERY_SNTP_ADDRESS :: u32 where "SOCK_IP_SNTP_QUERY_SNTP_ADDRESS \<equiv> 35"
abbreviation (input) SOCK_IP_SNTP_CLIENT_ENABLE :: u32 where "SOCK_IP_SNTP_CLIENT_ENABLE \<equiv> 36"
abbreviation (input) SOCK_IPV4_ROUTE :: u32 where "SOCK_IPV4_ROUTE \<equiv> 37"
abbreviation (input) SOCK_IPV6_ROUTE :: u32 where "SOCK_IPV6_ROUTE \<equiv> 38"
abbreviation (input) SOCK_IP_BRIDGEMODE :: u32 where "SOCK_IP_BRIDGEMODE \<equiv> 39"
abbreviation (input) SOCK_DNS_SERVER_STATUS :: u32 where "SOCK_DNS_SERVER_STATUS \<equiv> 40"
abbreviation (input) SOCK_SSL_CTX_NEW :: u32 where "SOCK_SSL_CTX_NEW \<equiv> 41"
abbreviation (input) SOCK_SSL_CTX_FREE :: u32 where "SOCK_SSL_CTX_FREE \<equiv> 42"
abbreviation (input) SOCK_SSL_NEW :: u32 where "SOCK_SSL_NEW \<equiv> 43"
abbreviation (input) SOCK_SSL_SET_FD :: u32 where "SOCK_SSL_SET_FD \<equiv> 44"
abbreviation (input) SOCK_SSL_ACCEPT :: u32 where "SOCK_SSL_ACCEPT \<equiv> 45"
abbreviation (input) SOCK_SSL_CONNECT :: u32 where "SOCK_SSL_CONNECT \<equiv> 46"
abbreviation (input) SOCK_SSL_SHUTDOWN :: u32 where "SOCK_SSL_SHUTDOWN \<equiv> 47"
abbreviation (input) SOCK_SSL_ADD_CERT :: u32 where "SOCK_SSL_ADD_CERT \<equiv> 48"
abbreviation (input) SOCK_SSL_STORE_CERT :: u32 where "SOCK_SSL_STORE_CERT \<equiv> 49"
abbreviation (input) SOCK_SSL_LOAD_CERT :: u32 where "SOCK_SSL_LOAD_CERT \<equiv> 50"
abbreviation (input) SOCK_SSL_CONFIGURE :: u32 where "SOCK_SSL_CONFIGURE \<equiv> 51"
abbreviation (input) SOCK_SSL_LIST_CERT :: u32 where "SOCK_SSL_LIST_CERT \<equiv> 52"
abbreviation (input) SOCK_OTA_UPGRADE :: u32 where "SOCK_OTA_UPGRADE \<equiv> 54"
abbreviation (input) SOCK_OTA_READ :: u32 where "SOCK_OTA_READ \<equiv> 55"
abbreviation (input) SOCK_OTA_DONE :: u32 where "SOCK_OTA_DONE \<equiv> 56"
abbreviation (input) SOCK_SET_DHCP_HOSTNAME :: u32 where "SOCK_SET_DHCP_HOSTNAME \<equiv> 57"
abbreviation (input) SOCK_TCP_CONN_TIMEOUT :: u32 where "SOCK_TCP_CONN_TIMEOUT \<equiv> 58"
abbreviation (input) SOCK_HTTP_POST_EVENT :: u32 where "SOCK_HTTP_POST_EVENT \<equiv> 59"
abbreviation (input) SOCK_OTA_SESSION_START :: u32 where "SOCK_OTA_SESSION_START \<equiv> 60"
abbreviation (input) SOCK_OTA_PARTITION_GET_SIZE :: u32 where "SOCK_OTA_PARTITION_GET_SIZE \<equiv> 61"
abbreviation (input) SOCK_OTA_PARTITION_ERASE :: u32 where "SOCK_OTA_PARTITION_ERASE \<equiv> 62"
abbreviation (input) SOCK_OTA_PARSE_IMAGE_HDR :: u32 where "SOCK_OTA_PARSE_IMAGE_HDR \<equiv> 63"
abbreviation (input) SOCK_OTA_PARTITION_VERIFY_CHECKSUM :: u32 where "SOCK_OTA_PARTITION_VERIFY_CHECKSUM \<equiv> 64"
abbreviation (input) SOCK_OTA_PARTITION_WRITE_DATA :: u32 where "SOCK_OTA_PARTITION_WRITE_DATA \<equiv> 65"
abbreviation (input) SOCK_DHCPS_SUCCESS_CALLBACK :: u32 where "SOCK_DHCPS_SUCCESS_CALLBACK \<equiv> 66"
abbreviation (input) SOCK_DHCPC_SUCCESS_CALLBACK :: u32 where "SOCK_DHCPC_SUCCESS_CALLBACK \<equiv> 67"

text \<open>Commands answered on the global context with the result alone, those whose answer carries data, and those
  that look for a socket by its SSL connection first.\<close>

definition result_cmds :: "u32 list" where
  "result_cmds = [SOCK_PING, SOCK_PING6, SOCK_HTTP_SERVER, SOCK_DNC_ENABLE, SOCK_DNS_SRVR_CFG_ADDR, SOCK_IP_HOST_NAME,
     SOCK_IP_DNS, SOCK_SSL_CTX_NEW, SOCK_SSL_CTX_FREE, SOCK_SSL_NEW, SOCK_SSL_ADD_CERT, SOCK_SSL_STORE_CERT, SOCK_SSL_LOAD_CERT]"

definition data_cmds :: "u32 list" where
  "data_cmds = [SOCK_IPCONFIG, SOCK_IP6CONFIG, SOCK_HTTP_SERVER_CMD, SOCK_HTTPC, SOCK_DNC_CMD, SOCK_IP_SNTP_GET_TIME,
     SOCK_IP_SNTP_GET_TIME_OF_DAY, SOCK_IP_SNTP_QUERY_SNTP_ADDRESS, SOCK_IPV4_ROUTE, SOCK_IPV6_ROUTE, SOCK_SSL_LIST_CERT,
     SOCK_OTA_UPGRADE, SOCK_OTA_READ, SOCK_OTA_DONE, SOCK_OTA_SESSION_START, SOCK_OTA_PARTITION_GET_SIZE,
     SOCK_OTA_PARTITION_ERASE, SOCK_OTA_PARTITION_VERIFY_CHECKSUM, SOCK_OTA_PARSE_IMAGE_HDR, SOCK_OTA_PARTITION_WRITE_DATA]"

definition ssl_cmds :: "u32 list" where
  "ssl_cmds = [SOCK_SSL_SET_FD, SOCK_SSL_ACCEPT, SOCK_SSL_CONNECT, SOCK_SSL_CONFIGURE, SOCK_SSL_SHUTDOWN]"

section \<open>Callbacks of the application\<close>

text \<open>The functions the application may have registered.\<close>

record 'e sock_app =
  httpPostCb :: "(ptr \<Rightarrow> 'e net \<Rightarrow> 'e net) option"
  otaCB :: "(u32 \<Rightarrow> u32 \<Rightarrow> u32 \<Rightarrow> 'e net \<Rightarrow> 'e net) option"
  dhcps_success_callback :: "(ptr \<Rightarrow> u32 \<Rightarrow> 'e net \<Rightarrow> 'e net) option"
  dhcpc_success_callback :: "(u32 \<Rightarrow> u32 \<Rightarrow> u32 \<Rightarrow> 'e net \<Rightarrow> 'e net) option"

definition Custom_Api_Http_Post_Event :: "'e sock_app \<Rightarrow> ptr \<Rightarrow> 'e net \<Rightarrow> 'e net" where
  "Custom_Api_Http_Post_Event AP datap s = (case httpPostCb AP of None \<Rightarrow> s | Some cb \<Rightarrow> cb datap s)"

definition Custom_Api_Ota_Resp_Result :: "'e sock_app \<Rightarrow> u32 \<Rightarrow> u32 \<Rightarrow> u32 \<Rightarrow> 'e net \<Rightarrow> 'e net" where
  "Custom_Api_Ota_Resp_Result AP cmd resp_code result s = (case otaCB AP of None \<Rightarrow> s | Some cb \<Rightarrow> cb cmd resp_code result s)"

definition Custom_Api_Dhcps_Success_Callback_Event :: "'e sock_app \<Rightarrow> ptr \<Rightarrow> 'e net \<Rightarrow> 'e net" where
  "Custom_Api_Dhcps_Success_Callback_Event AP datap s = (case dhcps_success_callback AP of None \<Rightarrow> s
     | Some cb \<Rightarrow> cb (datap + 4) (mem32 (mem s) (datap + 20)) s)"

definition Custom_Api_Dhcpc_Success_Callback_Event :: "'e sock_app \<Rightarrow> ptr \<Rightarrow> 'e net \<Rightarrow> 'e net" where
  "Custom_Api_Dhcpc_Success_Callback_Event AP datap s = (case dhcpc_success_callback AP of None \<Rightarrow> s
     | Some cb \<Rightarrow> cb (mem32 (mem s) (datap + 4)) (mem32 (mem s) (datap + 8)) (mem32 (mem s) (datap + 12)) s)"

section \<open>The event\<close>

text \<open>What a case of the \<open>switch\<close> sets: the index, whether to unblock a task, whether to free the packet, the status.\<close>

type_synonym outcome = "nat \<times> bool \<times> bool \<times> A_STATUS"

text \<open>The answer for a context that waits for it: the result, and the packet with its data if \<open>keep\<close>.\<close>

definition sock_answer :: "bool \<Rightarrow> nat \<Rightarrow> u32 \<Rightarrow> ptr \<Rightarrow> ptr \<Rightarrow> 'e net \<Rightarrow> outcome \<times> 'e net" where
  "sock_answer keep index resp_type datap pReq s = (
     if SOCK_EV_MASK_TEST resp_type (sk index s) then
       ((index, True, \<not> keep, A_OK), set_sk index (\<lambda>c.
          let c = c\<lparr>sock_result := mem32 (mem s) (datap + 8)\<rparr>
          in if keep then c\<lparr>sock_pReq := pReq, sock_data := datap + 12\<rparr> else c) s)
     else ((index, False, True, A_OK), s))"

definition on_socket :: "u32 \<Rightarrow> 'e net \<Rightarrow> (nat \<Rightarrow> outcome \<times> 'e net) \<Rightarrow> outcome \<times> 'e net" where
  "on_socket h s f = (case find_socket_context h True s of
       None \<Rightarrow> ((0, False, True, A_ERROR), set_error A_SOCKCXT_NOT_FOUND s)
     | Some index \<Rightarrow> f index)"

definition close_event :: "'e sockets mqx \<Rightarrow> nat \<Rightarrow> u32 \<Rightarrow> 'e net \<Rightarrow> outcome \<times> 'e net" where
  "close_event M index err s = (
     if SOCK_EV_MASK_TEST SOCK_CLOSE (sk index s) then
       ((index, True, True, A_OK), set_sk index (\<lambda>c. c\<lparr>sock_result := err\<rparr>) s)
     else ((index, False, True, A_OK), unblockSelect (
       if queue_empty index s then clear_socket_context M index s
       else set_sk index (\<lambda>c. c\<lparr>TCPCtrFlag := TCP_FIN\<rparr>) s)))"

definition sock_event :: "'e sock_app \<Rightarrow> 'e sockets mqx \<Rightarrow> u32 \<Rightarrow> ptr \<Rightarrow> ptr \<Rightarrow> 'e net \<Rightarrow> outcome \<times> 'e net" where
  "sock_event AP M resp_type datap pReq s = (
     let h = mem32 (mem s) (datap + 4); err = mem32 (mem s) (datap + 8); data = datap + 12 in
     if resp_type = SOCK_OPEN then on_socket SOCKET_HANDLE_PLACEHOLDER s (\<lambda>index.
       if SOCK_EV_MASK_TEST resp_type (sk index s)
       then ((index, True, True, A_OK), set_sk index (\<lambda>c. c\<lparr>handle := h\<rparr>) s)
       else ((index, False, True, A_OK), s))
     else if resp_type = SOCK_ACCEPT then on_socket h s (\<lambda>index.
       ((index, SOCK_EV_MASK_TEST resp_type (sk index s), False, A_OK),
        unblockSelect (set_sk index (\<lambda>c. c\<lparr>sock_result := err, sock_pReq := pReq, sock_data := data\<rparr>) s)))
     else if resp_type = SOCK_CLOSE then on_socket h s (\<lambda>index. close_event M index err s)
     else if resp_type = SOCK_CONNECT then on_socket h s (\<lambda>index.
       ((index, SOCK_EV_MASK_TEST resp_type (sk index s) \<or> err = TCP_CONNECTION_AVAILABLE, True, A_OK),
        unblockSelect (set_sk index (\<lambda>c. c\<lparr>sock_result := err\<rparr>) s)))
     else if resp_type \<in> {SOCK_BIND, SOCK_LISTEN, SOCK_ERRNO, SOCK_SETSOCKOPT} then on_socket h s (\<lambda>index.
       if SOCK_EV_MASK_TEST resp_type (sk index s) \<or> err = TCP_CONNECTION_AVAILABLE
       then ((index, True, True, A_OK), set_sk index (\<lambda>c. c\<lparr>sock_result := err\<rparr>) s)
       else ((index, False, True, A_OK), s))
     else if resp_type = SOCK_GETSOCKOPT then on_socket h s (\<lambda>index. sock_answer True index resp_type datap pReq s)
     else if resp_type \<in> set ssl_cmds then
       sock_answer False (case find_socket_context_from_ssl h s of None \<Rightarrow> GLOBAL_SOCK_INDEX | Some i \<Rightarrow> i) resp_type datap pReq s
     else if resp_type \<in> {SOCK_OTA_PARSE_IMAGE_HDR, SOCK_OTA_PARTITION_WRITE_DATA}
         \<and> \<not> SOCK_EV_MASK_TEST resp_type (sk GLOBAL_SOCK_INDEX s) then
       ((GLOBAL_SOCK_INDEX, False, True, A_OK),
        Custom_Api_Ota_Resp_Result AP resp_type (mem32 (mem s) data) (mem32 (mem s) (data + 4)) s)
     else if resp_type \<in> set data_cmds then sock_answer True GLOBAL_SOCK_INDEX resp_type datap pReq s
     else if resp_type \<in> set result_cmds then sock_answer False GLOBAL_SOCK_INDEX resp_type datap pReq s
     else if resp_type = SOCK_HTTP_POST_EVENT then ((0, False, True, A_OK), Custom_Api_Http_Post_Event AP data s)
     else if resp_type = SOCK_DHCPS_SUCCESS_CALLBACK then ((0, False, True, A_OK), Custom_Api_Dhcps_Success_Callback_Event AP data s)
     else if resp_type = SOCK_DHCPC_SUCCESS_CALLBACK then ((0, False, True, A_OK), Custom_Api_Dhcpc_Success_Callback_Event AP data s)
     else ((0, False, True, A_ERROR), set_error A_UNKNOWN_CMD s))"

text \<open>A command's bit is cleared and the task of its context is woken.\<close>

definition wake_command :: "nat \<Rightarrow> u32 \<Rightarrow> 'e net \<Rightarrow> 'e net" where
  "wake_command index cmd s = (let s = set_sk index (SOCK_EV_MASK_CLEAR cmd) s in unblock (sk_ptr index s) RX_DIRECTION s)"

definition Api_SockResponseEventRx_impl :: "'e sock_app \<Rightarrow> 'e sockets mqx \<Rightarrow> 'e sockets upper \<Rightarrow> ptr \<Rightarrow> ptr \<Rightarrow> 'e net \<Rightarrow> A_STATUS \<times> 'e net" where
  "Api_SockResponseEventRx_impl AP M U datap pReq s = (
     let resp_type = mem32 (mem s) datap in
     case sock_event AP M resp_type datap pReq s of ((index, unblock_flag, freeBuf, status), s) \<Rightarrow>
     let s = (if unblock_flag then wake_command index resp_type s else s) in
     (status, if freeBuf then a_netbuf_free M U pReq s else s))"

section \<open>The mask of pending commands\<close>

lemma mask_test_bit: "SOCK_EV_MASK_TEST c x \<longleftrightarrow> bit (sock_st_mask x (unat (drop_bit 5 c))) (unat (c AND 0x1f))"
  by (simp add: SOCK_EV_MASK_TEST_def bit_iff_and_push_bit_not_eq_0)

lemma cmd_index: "c AND 0x1f = take_bit 5 (c :: u32)" "unat (c AND 0x1f) < 32"
proof -
  show "c AND 0x1f = take_bit 5 c" by (simp add: take_bit_eq_mask mask_eq_exp_minus_1)
  then show "unat (c AND 0x1f) < 32" using take_bit_nat_less_exp [of 5 "unat c"] by (simp add: unsigned_take_bit_eq)
qed

lemma cmd_eq: "c = d \<longleftrightarrow> drop_bit 5 c = drop_bit 5 d \<and> c AND 0x1f = d AND (0x1f :: u32)"
  using bits_ident [of 5 c] bits_ident [of 5 d] unfolding cmd_index(1) by metis

lemma one_bit: "k < 32 \<Longrightarrow> bit (2 ^ k :: u32) n \<longleftrightarrow> n = k"
  by (auto simp: bit_exp_iff)

lemma unat_cmd: "unat (x :: u32) = unat y \<longleftrightarrow> x = y"
  by (simp add: word_unat_eq_iff)

lemma mask_clear_test [simp]: "SOCK_EV_MASK_TEST c (SOCK_EV_MASK_CLEAR cmd x) \<longleftrightarrow> c \<noteq> cmd \<and> SOCK_EV_MASK_TEST c x"
  using cmd_index(2) [of c] cmd_index(2) [of cmd] cmd_eq [of c cmd]
  by (auto simp: mask_test_bit SOCK_EV_MASK_CLEAR_def Let_def bit_and_iff bit_not_iff_eq one_bit unat_cmd)

lemma mask_set_test [simp]: "SOCK_EV_MASK_TEST c (SOCK_EV_MASK_SET cmd x) \<longleftrightarrow> c = cmd \<or> SOCK_EV_MASK_TEST c x"
  using cmd_index(2) [of c] cmd_index(2) [of cmd] cmd_eq [of c cmd]
  by (auto simp: mask_test_bit SOCK_EV_MASK_SET_def Let_def bit_or_iff one_bit unat_cmd)

lemma mask_fields [simp]:
  "sock_result (SOCK_EV_MASK_CLEAR cmd c) = sock_result c" "sock_pReq (SOCK_EV_MASK_CLEAR cmd c) = sock_pReq c"
  "sock_data (SOCK_EV_MASK_CLEAR cmd c) = sock_data c" "handle (SOCK_EV_MASK_CLEAR cmd c) = handle c"
  "domain (SOCK_EV_MASK_CLEAR cmd c) = domain c" "sock_type (SOCK_EV_MASK_CLEAR cmd c) = sock_type c"
  "remaining_bytes (SOCK_EV_MASK_CLEAR cmd c) = remaining_bytes c" "old_netbuf (SOCK_EV_MASK_CLEAR cmd c) = old_netbuf c"
  "cust (SOCK_EV_MASK_CLEAR cmd c) = cust c" "ssl (SOCK_EV_MASK_CLEAR cmd c) = ssl c"
  "sock_result (SOCK_EV_MASK_SET cmd c) = sock_result c" "sock_pReq (SOCK_EV_MASK_SET cmd c) = sock_pReq c"
  "sock_data (SOCK_EV_MASK_SET cmd c) = sock_data c" "handle (SOCK_EV_MASK_SET cmd c) = handle c"
  "domain (SOCK_EV_MASK_SET cmd c) = domain c" "sock_type (SOCK_EV_MASK_SET cmd c) = sock_type c"
  "remaining_bytes (SOCK_EV_MASK_SET cmd c) = remaining_bytes c" "old_netbuf (SOCK_EV_MASK_SET cmd c) = old_netbuf c"
  "cust (SOCK_EV_MASK_SET cmd c) = cust c" "ssl (SOCK_EV_MASK_SET cmd c) = ssl c"
  by (simp_all add: SOCK_EV_MASK_CLEAR_def SOCK_EV_MASK_SET_def Let_def)

section \<open>Waking the right task\<close>

text \<open>The context an answer is for. The answer to \<open>SOCK_OPEN\<close> is for the context that has no handle yet.\<close>

definition addressee :: "u32 \<Rightarrow> u32 \<Rightarrow> 'e net \<Rightarrow> nat option" where
  "addressee cmd h s =
     (if cmd = SOCK_OPEN then find_socket_context SOCKET_HANDLE_PLACEHOLDER True s
      else if cmd \<in> {SOCK_ACCEPT, SOCK_CLOSE, SOCK_CONNECT, SOCK_BIND, SOCK_LISTEN, SOCK_ERRNO, SOCK_SETSOCKOPT, SOCK_GETSOCKOPT}
      then find_socket_context h True s
      else if cmd \<in> set ssl_cmds then Some (case find_socket_context_from_ssl h s of None \<Rightarrow> GLOBAL_SOCK_INDEX | Some i \<Rightarrow> i)
      else if cmd \<in> set data_cmds \<union> set result_cmds then Some GLOBAL_SOCK_INDEX else None)"

lemma ssl_index: "find_socket_context_from_ssl h s = Some i \<Longrightarrow> i < MAX_SOCKETS_SUPPORTED"
  by (simp add: find_socket_context_from_ssl_def find_nth)

lemma addressee_index: "addressee cmd h s = Some i \<Longrightarrow> i \<le> GLOBAL_SOCK_INDEX"
  using ssl_index [of h s] by (auto simp: addressee_def find_socket_Some split: if_splits option.splits intro: less_imp_le)

text \<open>What the \<open>switch\<close> does for a context that waits for the answer.\<close>

lemma sock_event_waiting:
  assumes i: "addressee cmd (mem32 (mem s) (d + 4)) s = Some i" and wait: "SOCK_EV_MASK_TEST cmd (sk i s)"
  obtains keep f s' where "f = (if cmd = SOCK_OPEN then (\<lambda>c. c\<lparr>handle := mem32 (mem s) (d + 4)\<rparr>)
      else if keep then (\<lambda>c. c\<lparr>sock_result := mem32 (mem s) (d + 8), sock_pReq := p, sock_data := d + 12\<rparr>)
      else (\<lambda>c. c\<lparr>sock_result := mem32 (mem s) (d + 8)\<rparr>))"
    "sock_event AP M cmd d p s = ((i, True, \<not> keep, A_OK), s')" "s' = set_sk i f s \<or> s' = unblockSelect (set_sk i f s)"
proof -
  have answer: "sock_answer keep i cmd d p s = ((i, True, \<not> keep, A_OK), set_sk i (if keep
      then (\<lambda>c. c\<lparr>sock_result := mem32 (mem s) (d + 8), sock_pReq := p, sock_data := d + 12\<rparr>)
      else (\<lambda>c. c\<lparr>sock_result := mem32 (mem s) (d + 8)\<rparr>)) s)" for keep
    using wait by (simp add: sock_answer_def Let_def)
  consider "cmd = SOCK_OPEN" | "cmd = SOCK_ACCEPT" | "cmd = SOCK_CLOSE" | "cmd = SOCK_CONNECT"
    | "cmd \<in> {SOCK_BIND, SOCK_LISTEN, SOCK_ERRNO, SOCK_SETSOCKOPT}" | "cmd = SOCK_GETSOCKOPT"
    | "cmd \<in> set ssl_cmds" | "cmd \<in> set data_cmds" | "cmd \<in> set result_cmds"
    using i by (auto simp: addressee_def split: if_splits)
  then show thesis
  proof cases
    case 1
    with i wait show thesis
      by (intro that [OF refl, of False], simp_all add: sock_event_def addressee_def on_socket_def) blast
  next
    case 2
    with i wait show thesis
      by (intro that [OF refl, of True], simp_all add: sock_event_def addressee_def on_socket_def) blast
  next
    case 3
    with i wait show thesis by (intro that [OF refl, of False]) (simp_all add: sock_event_def addressee_def on_socket_def close_event_def, blast?)
  next
    case 4
    with i wait show thesis
      by (intro that [OF refl, of False], simp_all add: sock_event_def addressee_def on_socket_def) blast
  next
    case 5
    with i wait show thesis by (intro that [OF refl, of False]) (auto simp: sock_event_def addressee_def on_socket_def Let_def)
  next
    case 6
    with i wait show thesis
      by (intro that [OF refl, of True], simp_all add: sock_event_def addressee_def on_socket_def sock_answer_def Let_def) blast
  next
    case 7
    with i have "i = (case find_socket_context_from_ssl (mem32 (mem s) (d + 4)) s of None \<Rightarrow> GLOBAL_SOCK_INDEX | Some i \<Rightarrow> i)"
      by (auto simp: addressee_def ssl_cmds_def split: if_splits)
    with 7 answer [of False] show thesis by (intro that [OF refl, of False]) (auto simp: sock_event_def ssl_cmds_def)
  next
    case 8
    with i have "i = GLOBAL_SOCK_INDEX" by (auto simp: addressee_def ssl_cmds_def data_cmds_def)
    with 8 answer [of True] wait show thesis by (intro that [OF refl, of True]) (auto simp: sock_event_def ssl_cmds_def data_cmds_def)
  next
    case 9
    with i have "i = GLOBAL_SOCK_INDEX" by (auto simp: addressee_def ssl_cmds_def result_cmds_def)
    with 9 answer [of False] wait show thesis
      by (intro that [OF refl, of False]) (auto simp: sock_event_def ssl_cmds_def data_cmds_def result_cmds_def)
  qed
qed

lemma wake_command_sk:
  assumes "ptrs_ok s" "i \<le> GLOBAL_SOCK_INDEX" "j \<le> GLOBAL_SOCK_INDEX"
  shows "sk j (wake_command i cmd s) = (if j = i then on_cust (\<lambda>k. let k = k\<lparr>respAvailable := True\<rparr> in
    if rxBlock k then k\<lparr>sockRxWakeEvent := True\<rparr> else k) (SOCK_EV_MASK_CLEAR cmd (sk i s)) else sk j s)"
proof -
  let ?t = "set_sk i (SOCK_EV_MASK_CLEAR cmd) s"
  have "unblock (sk_ptr i ?t) RX_DIRECTION ?t = set_sk i (on_cust (\<lambda>k. let k = k\<lparr>respAvailable := True\<rparr> in
      if rxBlock k then k\<lparr>sockRxWakeEvent := True\<rparr> else k)) ?t"
    by (simp add: unblock_def set_sk_def Let_def)
  then show ?thesis using assms by (simp add: wake_command_def Let_def sk_set_sk)
qed

lemma free_rx_env: "rxPoolID (nbs s p) \<noteq> 0 \<Longrightarrow> hw_env (a_netbuf_free M U p s) = hw_env s"
  by (simp add: a_netbuf_free_def a_netbuf_free_rx_pool_def rxfree_enqueue_def Driver_ReportRxBuffStatus_def
      Driver_WakeDriver_def Let_def split: prod.splits)

lemma answer_effect:
  fixes M :: "'e sockets mqx" and U and AP
  assumes ok: "ptrs_ok s" and i: "addressee cmd (mem32 (mem s) (d + 4)) s = Some i" and wait: "SOCK_EV_MASK_TEST cmd (sk i s)"
    and cmd: "mem32 (mem s) d = cmd" and p: "rxPoolID (nbs s p) \<noteq> 0"
  defines "s' \<equiv> snd (Api_SockResponseEventRx_impl AP M U d p s)"
  shows "(if cmd = SOCK_OPEN then handle (sk i s') = mem32 (mem s) (d + 4) else sock_result (sk i s') = mem32 (mem s) (d + 8))
    \<and> respAvailable (cust (sk i s')) \<and> (rxBlock (cust (sk i s)) \<longrightarrow> sockRxWakeEvent (cust (sk i s')))
    \<and> (\<forall>c. SOCK_EV_MASK_TEST c (sk i s') \<longleftrightarrow> c \<noteq> cmd \<and> SOCK_EV_MASK_TEST c (sk i s))
    \<and> (\<forall>j\<le>GLOBAL_SOCK_INDEX. j \<noteq> i \<longrightarrow> sk j s' = sk j s)
    \<and> (\<forall>j. sk_ptr j s' = sk_ptr j s)"
proof -
  note le = addressee_index [OF i]
  obtain keep f t where f: "f = (if cmd = SOCK_OPEN then (\<lambda>c. c\<lparr>handle := mem32 (mem s) (d + 4)\<rparr>)
      else if keep then (\<lambda>c. c\<lparr>sock_result := mem32 (mem s) (d + 8), sock_pReq := p, sock_data := d + 12\<rparr>)
      else (\<lambda>c. c\<lparr>sock_result := mem32 (mem s) (d + 8)\<rparr>))"
    and t: "sock_event AP M cmd d p s = ((i, True, \<not> keep, A_OK), t)" "t = set_sk i f s \<or> t = unblockSelect (set_sk i f s)"
    by (rule sock_event_waiting [OF i wait]) (rule that; assumption)
  define u where "u = wake_command i cmd t"
  have "nbs u = nbs s" using t(2) by (auto simp: u_def wake_command_def unblock_def Let_def)
  with p have "hw_env s' = hw_env u"
    using free_rx_env [of u p M U] by (simp add: s'_def Api_SockResponseEventRx_impl_def cmd t(1) u_def Let_def)
  then have s': "sk j s' = sk j u" "sk_ptr j s' = sk_ptr j u" for j by (simp_all add: sk_def sk_ptr_def obj_def)
  have "sk_ptr j u = sk_ptr j s" for j using t(2) by (auto simp: u_def wake_command_def unblock_def Let_def)
  note ptrs = s'(2) [unfolded this]
  have tk: "ptrs_ok t" "sk j t = (if j = i then f (sk i s) else sk j s)" if "j \<le> GLOBAL_SOCK_INDEX" for j
    using t(2) ok le that by (auto simp: sk_set_sk)
  have sku: "sk j u = (if j = i then on_cust (\<lambda>k. let k = k\<lparr>respAvailable := True\<rparr> in
      if rxBlock k then k\<lparr>sockRxWakeEvent := True\<rparr> else k) (SOCK_EV_MASK_CLEAR cmd (f (sk i s))) else sk j s)"
    if "j \<le> GLOBAL_SOCK_INDEX" for j using wake_command_sk [OF tk(1) le that, where cmd = cmd, folded u_def] tk(2) [OF that] tk(2) [OF le] that by simp
  have "SOCK_EV_MASK_TEST c (on_cust g x) = SOCK_EV_MASK_TEST c x" "SOCK_EV_MASK_TEST c (f x) = SOCK_EV_MASK_TEST c x" for c g x
    by (simp_all add: SOCK_EV_MASK_TEST_def f)
  then show ?thesis using sku le by (simp add: s'(1) ptrs f Let_def)
qed

text \<open>C22. An answer wakes the task it is for, and no other. If a context waits for a command, the event that answers it
  stores the result there (for \<open>SOCK_OPEN\<close>, the new handle), takes back the mark that the command is
  pending and lets the waiting task go on. All other marks and all other contexts stay as they were.\<close>

theorem answer_wakes_waiting_task:
  fixes M :: "'e sockets mqx" and U and AP
  assumes ok: "ptrs_ok s" and i: "addressee cmd (mem32 (mem s) (d + 4)) s = Some i" and wait: "SOCK_EV_MASK_TEST cmd (sk i s)"
    and cmd: "mem32 (mem s) d = cmd" and p: "rxPoolID (nbs s p) \<noteq> 0"
  defines "s' \<equiv> snd (Api_SockResponseEventRx_impl AP M U d p s)"
  shows "(if cmd = SOCK_OPEN then handle (sk i s') = mem32 (mem s) (d + 4) else sock_result (sk i s') = mem32 (mem s) (d + 8))
    \<and> respAvailable (cust (sk i s')) \<and> (rxBlock (cust (sk i s)) \<longrightarrow> sockRxWakeEvent (cust (sk i s')))
    \<and> (\<forall>c. SOCK_EV_MASK_TEST c (sk i s') \<longleftrightarrow> c \<noteq> cmd \<and> SOCK_EV_MASK_TEST c (sk i s))
    \<and> (\<forall>j\<le>GLOBAL_SOCK_INDEX. j \<noteq> i \<longrightarrow> sk j s' = sk j s)"
  using answer_effect [OF assms(1-5), where M = M and U = U and AP = AP] unfolding s'_def by blast

section \<open>The packet of an event\<close>

text \<open>A change that does not concern the received packets.\<close>

definition sock_quiet :: "'e net \<Rightarrow> 'e net \<Rightarrow> bool" where
  "sock_quiet s t \<longleftrightarrow> nbs t = nbs s \<and> mem t = mem s \<and> natives t = natives s \<and> rxFreeQueue t = rxFreeQueue s
     \<and> (\<forall>j. sk_ptr j t = sk_ptr j s) \<and> zero_copy_free_queue (hw_env t) = zero_copy_free_queue (hw_env s)
     \<and> (\<forall>q. rxqueue (cust (obj q t)) = rxqueue (cust (obj q s)) \<and> remaining_bytes (obj q t) = remaining_bytes (obj q s)
          \<and> old_netbuf (obj q t) = old_netbuf (obj q s))"

lemma sock_quiet_refl [simp]: "sock_quiet s s"
  by (simp add: sock_quiet_def)

lemma sock_quiet_trans: "sock_quiet s t \<Longrightarrow> sock_quiet t u \<Longrightarrow> sock_quiet s u"
  by (simp add: sock_quiet_def)

lemma sock_quiet_set_obj:
  "(\<And>c. rxqueue (cust (f c)) = rxqueue (cust c) \<and> remaining_bytes (f c) = remaining_bytes c \<and> old_netbuf (f c) = old_netbuf c) \<Longrightarrow>
   sock_quiet s (set_obj p f s)"
  by (simp add: sock_quiet_def)

lemma sock_quiet_set_sk:
  "(\<And>c. rxqueue (cust (f c)) = rxqueue (cust c) \<and> remaining_bytes (f c) = remaining_bytes c \<and> old_netbuf (f c) = old_netbuf c) \<Longrightarrow>
   sock_quiet s (set_sk i f s)"
  unfolding set_sk_def by (rule sock_quiet_set_obj)

lemma sock_quiet_env [simp]:
  "sock_quiet s (set_error e s)" "sock_quiet s (unblockSelect s)" "sock_quiet s (on_env (os_env_update g) s)"
  by (simp_all add: sock_quiet_def set_error_def unblockSelect_def sk_ptr_def obj_def)

lemma sock_quiet_sk: "sock_quiet s t \<Longrightarrow>
    rxqueue (cust (sk j t)) = rxqueue (cust (sk j s)) \<and> remaining_bytes (sk j t) = remaining_bytes (sk j s)
      \<and> old_netbuf (sk j t) = old_netbuf (sk j s)"
  by (simp add: sock_quiet_def sk_def)

lemma sock_quiet_inv: "sock_quiet s t \<Longrightarrow> sock_inv P t qs zs fs = sock_inv P s qs zs fs"
proof -
  assume q: "sock_quiet s t"
  note same = sock_quiet_sk [OF q]
  have "buffers t qs zs fs = buffers s qs zs fs" by (rule sum_held_cong) (simp add: same)
  moreover have "waiting t qs = waiting s qs" by (simp add: waiting_def same cong: if_cong)
  moreover have "ptrs_ok t = ptrs_ok s" using q by (simp add: sock_quiet_def ptrs_ok_def)
  ultimately show ?thesis using q by (simp add: sock_inv_def sock_rep_def rxfree_rep_def same) (simp add: sock_quiet_def)
qed

lemma wake_command_quiet: "sock_quiet s (wake_command i cmd s)"
  unfolding wake_command_def Let_def unblock_def
  by (rule sock_quiet_trans [OF sock_quiet_set_sk sock_quiet_set_obj]) (simp_all add: Let_def)

text \<open>The application's functions and the allocator stay outside the driver.\<close>

definition app_quiet :: "'e sock_app \<Rightarrow> bool" where
  "app_quiet AP \<longleftrightarrow>
     (\<forall>cb d s. httpPostCb AP = Some cb \<longrightarrow> (\<exists>g. cb d s = on_env (os_env_update g) s)) \<and>
     (\<forall>cb a b c s. otaCB AP = Some cb \<longrightarrow> (\<exists>g. cb a b c s = on_env (os_env_update g) s)) \<and>
     (\<forall>cb d a s. dhcps_success_callback AP = Some cb \<longrightarrow> (\<exists>g. cb d a s = on_env (os_env_update g) s)) \<and>
     (\<forall>cb a b c s. dhcpc_success_callback AP = Some cb \<longrightarrow> (\<exists>g. cb a b c s = on_env (os_env_update g) s))"

definition mem_quiet :: "'e sockets mqx \<Rightarrow> bool" where
  "mem_quiet M \<longleftrightarrow> (\<forall>p e. \<exists>g. mem_free M p e = os_env_update g e)
     \<and> (\<forall>n m e. \<exists>g. snd (snd (mem_alloc_system_zero M n m e)) = os_env_update g e)"

lemma app_quietD:
  assumes "app_quiet AP"
  shows "sock_quiet s (Custom_Api_Http_Post_Event AP d s)" "sock_quiet s (Custom_Api_Ota_Resp_Result AP a b c s)"
    "sock_quiet s (Custom_Api_Dhcps_Success_Callback_Event AP d s)" "sock_quiet s (Custom_Api_Dhcpc_Success_Callback_Event AP d s)"
proof -
  show "sock_quiet s (Custom_Api_Http_Post_Event AP d s)"
    using assms by (auto simp: app_quiet_def Custom_Api_Http_Post_Event_def split: option.splits) (metis sock_quiet_env(3))
  show "sock_quiet s (Custom_Api_Ota_Resp_Result AP a b c s)"
    using assms by (auto simp: app_quiet_def Custom_Api_Ota_Resp_Result_def split: option.splits) (metis sock_quiet_env(3))
  show "sock_quiet s (Custom_Api_Dhcps_Success_Callback_Event AP d s)"
    using assms by (auto simp: app_quiet_def Custom_Api_Dhcps_Success_Callback_Event_def split: option.splits) (metis sock_quiet_env(3))
  show "sock_quiet s (Custom_Api_Dhcpc_Success_Callback_Event AP d s)"
    using assms by (auto simp: app_quiet_def Custom_Api_Dhcpc_Success_Callback_Event_def split: option.splits) (metis sock_quiet_env(3))
qed

lemma a_free_quiet: "mem_quiet M \<Longrightarrow> sock_quiet s (a_free M p s)"
proof -
  assume "mem_quiet M"
  then obtain g where "mem_free M p (hw_env s) = os_env_update g (hw_env s)" unfolding mem_quiet_def by blast
  then show ?thesis by (simp add: a_free_def qosal_free_def sock_quiet_def sk_ptr_def obj_def Let_def)
qed

lemma clear_context_quiet: "mem_quiet M \<Longrightarrow> sock_quiet s (clear_socket_context M i s)"
proof -
  assume M: "mem_quiet M"
  let ?t = "set_sk i (\<lambda>c. c\<lparr>handle := 0, sock_st_mask := (\<lambda>_. 0), domain := 0, sock_type := 0, TCPCtrFlag := 0\<rparr>) s"
  have t: "sock_quiet s ?t" by (rule sock_quiet_set_sk) simp
  have "sock_quiet ?t (set_sk i (\<lambda>c. c\<lparr>sock_data := NULL\<rparr>) (a_free M (sock_data (sk i ?t)) ?t))"
    by (rule sock_quiet_trans [OF a_free_quiet [OF M] sock_quiet_set_sk]) simp
  with t sock_quiet_trans [OF t] show ?thesis by (simp add: clear_socket_context_def Let_def)
qed

text \<open>Whether a context keeps the packet of an answer.\<close>

definition keeps_packet :: "u32 \<Rightarrow> u32 \<Rightarrow> 'e net \<Rightarrow> nat option" where
  "keeps_packet cmd h s = (case addressee cmd h s of None \<Rightarrow> None
     | Some i \<Rightarrow> if cmd = SOCK_ACCEPT \<or> (cmd = SOCK_GETSOCKOPT \<or> cmd \<in> set data_cmds) \<and> SOCK_EV_MASK_TEST cmd (sk i s)
         then Some i else None)"

lemma sock_answer_effect:
  fixes keep i cmd d p s
  defines "w \<equiv> SOCK_EV_MASK_TEST cmd (sk i s)"
  obtains t where "sock_answer keep i cmd d p s = ((i, w, \<not> (keep \<and> w), A_OK), t)" "sock_quiet s t"
    "keep \<and> w \<Longrightarrow> sock_pReq (sk i t) = p"
proof (cases w)
  case True
  let ?f = "\<lambda>c. let c = c\<lparr>sock_result := mem32 (mem s) (d + 8)\<rparr> in if keep then c\<lparr>sock_pReq := p, sock_data := d + 12\<rparr> else c"
  have "sock_answer keep i cmd d p s = ((i, w, \<not> (keep \<and> w), A_OK), set_sk i ?f s)"
    using True by (simp add: sock_answer_def w_def)
  moreover have "sock_quiet s (set_sk i ?f s)" by (rule sock_quiet_set_sk) (simp add: Let_def)
  ultimately show thesis using that by (simp add: Let_def)
next
  case False
  then show thesis using that [of s] by (simp add: sock_answer_def w_def)
qed

text \<open>The groups of commands are disjoint.\<close>

lemma cmd_disjoint:
  "\<forall>c\<in>set ssl_cmds. c \<notin> {SOCK_OPEN, SOCK_ACCEPT, SOCK_CLOSE, SOCK_CONNECT, SOCK_BIND, SOCK_LISTEN, SOCK_ERRNO, SOCK_SETSOCKOPT, SOCK_GETSOCKOPT} \<union> set data_cmds"
  "\<forall>c\<in>set data_cmds. c \<notin> {SOCK_OPEN, SOCK_ACCEPT, SOCK_CLOSE, SOCK_CONNECT, SOCK_BIND, SOCK_LISTEN, SOCK_ERRNO, SOCK_SETSOCKOPT, SOCK_GETSOCKOPT} \<union> set ssl_cmds"
  "\<forall>c\<in>set result_cmds. c \<notin> {SOCK_OPEN, SOCK_ACCEPT, SOCK_CLOSE, SOCK_CONNECT, SOCK_BIND, SOCK_LISTEN, SOCK_ERRNO, SOCK_SETSOCKOPT, SOCK_GETSOCKOPT}
     \<union> set ssl_cmds \<union> set data_cmds \<union> {SOCK_OTA_PARSE_IMAGE_HDR, SOCK_OTA_PARTITION_WRITE_DATA}"
  by (simp_all add: ssl_cmds_def data_cmds_def result_cmds_def)

lemmas cmd_classes = cmd_disjoint [THEN bspec]

lemma sock_event_effect:
  assumes M: "mem_quiet M" and AP: "app_quiet AP"
  obtains i w k st t where "sock_event AP M cmd d p s = ((i, w, k = None, st), t)" "sock_quiet s t"
    "k = keeps_packet cmd (mem32 (mem s) (d + 4)) s" "\<And>j. k = Some j \<Longrightarrow> i = j \<and> sock_pReq (sk j t) = p"
proof -
  let ?h = "mem32 (mem s) (d + 4)"
  define res where "res = sock_event AP M cmd d p s"
  have "\<exists>i w st t. res = ((i, w, keeps_packet cmd ?h s = None, st), t) \<and> sock_quiet s t
    \<and> (\<forall>j. keeps_packet cmd ?h s = Some j \<longrightarrow> i = j \<and> sock_pReq (sk j t) = p)"
  proof -
    have quiet1: "sock_quiet s (unblockSelect (set_sk i f s))" "sock_quiet s (set_sk i f s)"
      if "\<And>c. rxqueue (cust (f c)) = rxqueue (cust c) \<and> remaining_bytes (f c) = remaining_bytes c \<and> old_netbuf (f c) = old_netbuf c" for i f
      using sock_quiet_set_sk [OF that, of s i] sock_quiet_trans [OF _ sock_quiet_env(2)] by simp_all
    have quiet2: "sock_quiet s (unblockSelect (clear_socket_context M i s))" for i
      by (rule sock_quiet_trans [OF clear_context_quiet [OF M] sock_quiet_env(2)])
    consider "cmd = SOCK_OPEN" | "cmd = SOCK_ACCEPT" | "cmd = SOCK_CLOSE" | "cmd = SOCK_CONNECT"
      | "cmd \<in> {SOCK_BIND, SOCK_LISTEN, SOCK_ERRNO, SOCK_SETSOCKOPT}" | "cmd = SOCK_GETSOCKOPT"
      | "cmd \<in> set ssl_cmds" | "cmd \<in> set data_cmds" | "cmd \<in> set result_cmds"
      | (other) "cmd \<notin> {SOCK_OPEN, SOCK_ACCEPT, SOCK_CLOSE, SOCK_CONNECT, SOCK_BIND, SOCK_LISTEN, SOCK_ERRNO, SOCK_SETSOCKOPT, SOCK_GETSOCKOPT}"
        "cmd \<notin> set ssl_cmds" "cmd \<notin> set data_cmds" "cmd \<notin> set result_cmds"
      by blast
    then show ?thesis
    proof cases
      case 1
      then show ?thesis
        by (auto simp: res_def sock_event_def on_socket_def keeps_packet_def addressee_def data_cmds_def quiet1 split: option.split)
    next
      case 2
      then show ?thesis
        by (auto simp: res_def sock_event_def on_socket_def keeps_packet_def addressee_def quiet1 split: option.split)
    next
      case 3
      then show ?thesis
        by (auto simp: res_def sock_event_def on_socket_def close_event_def keeps_packet_def addressee_def data_cmds_def quiet1 quiet2 Let_def
            split: option.split)
    next
      case 4
      then show ?thesis
        by (auto simp: res_def sock_event_def on_socket_def keeps_packet_def addressee_def data_cmds_def quiet1 Let_def split: option.split)
    next
      case 5
      have "res = on_socket ?h s (\<lambda>index. if SOCK_EV_MASK_TEST cmd (sk index s) \<or> mem32 (mem s) (d + 8) = TCP_CONNECTION_AVAILABLE
          then ((index, True, True, A_OK), set_sk index (\<lambda>c. c\<lparr>sock_result := mem32 (mem s) (d + 8)\<rparr>) s)
          else ((index, False, True, A_OK), s))"
        using 5 unfolding res_def sock_event_def Let_def by (elim insertE) simp_all
      moreover have "keeps_packet cmd ?h s = None"
        using 5 by (elim insertE) (simp_all add: keeps_packet_def data_cmds_def split: option.split)
      ultimately show ?thesis
        by (cases "find_socket_context ?h True s") (simp_all add: on_socket_def quiet1 ex_bool_eq)
    next
      case 6
      show ?thesis
      proof (cases "find_socket_context ?h True s")
        case None
        with 6 show ?thesis by (auto simp: res_def sock_event_def on_socket_def keeps_packet_def addressee_def)
      next
        case (Some i)
        with 6 have "res = sock_answer True i cmd d p s" by (simp add: res_def sock_event_def on_socket_def)
        moreover obtain t where "sock_answer True i cmd d p s = ((i, SOCK_EV_MASK_TEST cmd (sk i s), \<not> (True \<and> SOCK_EV_MASK_TEST cmd (sk i s)), A_OK), t)"
          "sock_quiet s t" "True \<and> SOCK_EV_MASK_TEST cmd (sk i s) \<Longrightarrow> sock_pReq (sk i t) = p" 
          by (rule sock_answer_effect [where keep = True and i = i and cmd = cmd and d = d and p = p and s = s]) (rule that; assumption)
        ultimately show ?thesis using 6 Some by (auto simp: keeps_packet_def addressee_def)
      qed
    next
      case 7
      define i where "i = (case find_socket_context_from_ssl ?h s of None \<Rightarrow> GLOBAL_SOCK_INDEX | Some i \<Rightarrow> i)"
      have "res = sock_answer False i cmd d p s" using 7 cmd_classes(1) [OF 7] by (simp add: res_def sock_event_def i_def)
      moreover have "keeps_packet cmd ?h s = None" using 7 cmd_classes(1) [OF 7] by (simp add: keeps_packet_def addressee_def)
      moreover obtain t where "sock_answer False i cmd d p s = ((i, SOCK_EV_MASK_TEST cmd (sk i s), \<not> (False \<and> SOCK_EV_MASK_TEST cmd (sk i s)), A_OK), t)"
        "sock_quiet s t" 
          by (rule sock_answer_effect [where keep = False and i = i and cmd = cmd and d = d and p = p and s = s]) (rule that; assumption)
      ultimately show ?thesis by simp
    next
      case 8
      let ?w = "SOCK_EV_MASK_TEST cmd (sk GLOBAL_SOCK_INDEX s)"
      have k: "keeps_packet cmd ?h s = (if ?w then Some GLOBAL_SOCK_INDEX else None)"
        using 8 cmd_classes(2) [OF 8] by (simp add: keeps_packet_def addressee_def)
      show ?thesis
      proof (cases "cmd \<in> {SOCK_OTA_PARSE_IMAGE_HDR, SOCK_OTA_PARTITION_WRITE_DATA} \<and> \<not> ?w")
        case True
        with k cmd_classes(2) [OF 8] show ?thesis by (simp add: res_def sock_event_def app_quietD [OF AP] Let_def ex_bool_eq)
      next
        case False
        then have "res = sock_answer True GLOBAL_SOCK_INDEX cmd d p s"
          using 8 cmd_classes(2) [OF 8] by (cases ?w) (simp_all add: res_def sock_event_def)
        moreover obtain t where "sock_answer True GLOBAL_SOCK_INDEX cmd d p s = ((GLOBAL_SOCK_INDEX, ?w, \<not> (True \<and> ?w), A_OK), t)"
          "sock_quiet s t" "True \<and> ?w \<Longrightarrow> sock_pReq (sk GLOBAL_SOCK_INDEX t) = p" 
          by (rule sock_answer_effect [where keep = True and i = GLOBAL_SOCK_INDEX and cmd = cmd and d = d and p = p and s = s]) (rule that; assumption)
        ultimately show ?thesis using k by auto
      qed
    next
      case 9
      have "res = sock_answer False GLOBAL_SOCK_INDEX cmd d p s"
        using 9 cmd_classes(3) [OF 9] by (simp add: res_def sock_event_def)
      moreover have "keeps_packet cmd ?h s = None" using 9 cmd_classes(3) [OF 9] by (simp add: keeps_packet_def addressee_def)
      moreover obtain t where "sock_answer False GLOBAL_SOCK_INDEX cmd d p s = ((GLOBAL_SOCK_INDEX, SOCK_EV_MASK_TEST cmd (sk GLOBAL_SOCK_INDEX s),
          \<not> (False \<and> SOCK_EV_MASK_TEST cmd (sk GLOBAL_SOCK_INDEX s)), A_OK), t)" "sock_quiet s t" 
          by (rule sock_answer_effect [where keep = False and i = GLOBAL_SOCK_INDEX and cmd = cmd and d = d and p = p and s = s]) (rule that; assumption)
      ultimately show ?thesis by simp
    next
      case other
      then have "keeps_packet cmd ?h s = None" by (simp add: keeps_packet_def addressee_def)
      with other show ?thesis by (auto simp: res_def sock_event_def data_cmds_def app_quietD [OF AP] Let_def)
    qed
  qed
  then show thesis using that unfolding res_def by blast
qed

text \<open>C6. The packet of an answer is given back exactly once. Whatever event the target sends, its packet goes to
  the free queue at once, or, if the answer carries data a task waits for, the context keeps it
  for that task and it is in none of the other places. No received data and no other packet is touched.\<close>

theorem answer_packet_once:
  fixes M :: "'e sockets mqx" and U and AP and d
  assumes inv: "sock_inv P s qs zs fs" and p: "p \<notin># P" "p \<noteq> NULL" "rxPoolID (nbs s p) \<noteq> 0" and size: "size P < queue_cap"
    and quiet: "mem_quiet M" "app_quiet AP"
  defines "s' \<equiv> snd (Api_SockResponseEventRx_impl AP M U d p s)"
  shows "case keeps_packet (mem32 (mem s) d) (mem32 (mem s) (d + 4)) s of
      None \<Rightarrow> sock_inv (add_mset p P) s' qs zs (fs @ [p])
    | Some i \<Rightarrow> sock_inv P s' qs zs fs \<and> sock_pReq (sk i s') = p"
proof -
  define cmd where "cmd = mem32 (mem s) d"
  obtain i w k st t where e: "sock_event AP M cmd d p s = ((i, w, k = None, st), t)" "sock_quiet s t"
    "k = keeps_packet cmd (mem32 (mem s) (d + 4)) s" "\<And>j. k = Some j \<Longrightarrow> i = j \<and> sock_pReq (sk j t) = p"
    by (rule sock_event_effect [OF quiet, of cmd d p s]) (rule that; simp)
  define u where "u = (if w then wake_command i cmd t else t)"
  have q: "sock_quiet s u" using e(2) sock_quiet_trans [OF e(2) wake_command_quiet] by (simp add: u_def)
  then have inv': "sock_inv P u qs zs fs" using inv by (simp add: sock_quiet_inv)
  have s': "s' = (if k = None then a_netbuf_free M U p u else u)"
    by (simp add: s'_def Api_SockResponseEventRx_impl_def cmd_def [symmetric] e(1) u_def Let_def)
  show ?thesis
  proof (cases k)
    case (Some j)
    have "sock_pReq (obj q (wake_command i cmd t)) = sock_pReq (obj q t)" for q
      by (simp add: wake_command_def unblock_def set_sk_def Let_def)
    moreover have "sk_ptr j (wake_command i cmd t) = sk_ptr j t" by (simp add: wake_command_def unblock_def Let_def)
    ultimately have "sock_pReq (sk j u) = p" using e(4) [OF Some] by (simp add: u_def sk_def)
    with Some e(3) inv' s' show ?thesis by (simp add: cmd_def)
  next
    case None
    have rep: "sock_rep P u qs zs fs" using inv' by (simp add: sock_inv_def)
    have pool: "rxPoolID (nbs u p) \<noteq> 0" using q p(3) by (simp add: sock_quiet_def)
    note fr = free_rx_rep [OF rep p(1,2) size pool, where M = M and U = U]
    have "waiting (a_netbuf_free M U p u) qs \<subseteq> waiting u qs"
      by (rule waiting_mono) (use drv_update_env [OF fr(3)] in simp)
    then have "sock_inv (add_mset p P) (a_netbuf_free M U p u) qs zs (fs @ [p])"
      using fr(1) inv' pool drv_update_env [OF fr(3)] links_onlyD(1,2) [OF fr(2)] by (simp add: sock_inv_def subset_iff)
    with None e(3) s' show ?thesis by (simp add: cmd_def)
  qed
qed

section \<open>Concrete events\<close>

text \<open>Socket 0 waits for the answer to \<open>SOCK_CONNECT\<close>; the event at \<open>0x4000\<close> says 5.\<close>

definition demo_connecting :: "unit net" where
  "demo_connecting = set_sk 0 (SOCK_EV_MASK_SET SOCK_CONNECT) demo_net\<lparr>mem :=
     (\<lambda>_. 0)(0x4000 := 2, 0x4004 := 7, 0x4008 := 5)\<rparr>"

definition demo_app :: "'e sock_app" where
  "demo_app = \<lparr>httpPostCb = None, otaCB = None, dhcps_success_callback = None, dhcpc_success_callback = None\<rparr>"

lemma demo_connecting_fields:
  "mem32 (mem demo_connecting) 0x4000 = 2" "mem32 (mem demo_connecting) 0x4004 = 7" "mem32 (mem demo_connecting) 0x4008 = 5"
  "ptrs_ok demo_connecting" "sk 0 demo_connecting = SOCK_EV_MASK_SET SOCK_CONNECT (sk 0 demo_net)"
  "rxPoolID (nbs demo_connecting 0x600) = 1" "addressee SOCK_CONNECT 7 demo_connecting = Some 0"
proof -
  have ok: "ptrs_ok demo_net" using demo_inv by (simp add: sock_inv_def sock_rep_def)
  then show "ptrs_ok demo_connecting" by (simp add: demo_connecting_def)
  show "mem32 (mem demo_connecting) 0x4000 = 2" "mem32 (mem demo_connecting) 0x4004 = 7" "mem32 (mem demo_connecting) 0x4008 = 5"
    by (simp_all add: demo_connecting_def mem32_def le32_def)
  show sk0: "sk 0 demo_connecting = SOCK_EV_MASK_SET SOCK_CONNECT (sk 0 demo_net)" by (simp add: demo_connecting_def)
  show "rxPoolID (nbs demo_connecting 0x600) = 1" by (simp add: demo_connecting_def demo_fields demo_packet_def)
  show "addressee SOCK_CONNECT 7 demo_connecting = Some 0"
    by (simp add: addressee_def find_socket_Some sk0 demo_sk demo_sockets_def)
qed

theorem answer_wakes_waiting_task_witness:
  "sock_result (sk 0 (snd (Api_SockResponseEventRx_impl demo_app quiet_mqx demo_upper 0x4000 0x600 demo_connecting))) = 5"
  using answer_wakes_waiting_task [of demo_connecting SOCK_CONNECT "0x4000" 0 "0x600" demo_app quiet_mqx demo_upper]
  by (simp add: demo_connecting_fields)

theorem answer_packet_once_witness:
  "sock_inv {#0x500, 0x600#} (snd (Api_SockResponseEventRx_impl demo_app quiet_mqx demo_upper 0x3000 0x600 demo_net)) demo_queues [] [0x600]"
proof -
  have "rxPoolID (nbs demo_net 0x600) \<noteq> 0" by (simp add: demo_fields demo_packet_def)
  moreover have "mem_quiet (quiet_mqx :: unit sockets mqx)" "app_quiet (demo_app :: unit sock_app)"
    by (auto simp: mem_quiet_def app_quiet_def quiet_mqx_def demo_app_def intro: exI [of _ "\<lambda>x. x"])
  moreover have "keeps_packet (mem32 (mem demo_net) 0x3000) (mem32 (mem demo_net) 0x3004) demo_net = None"
  proof -
    have "mem32 (mem demo_net) 0x3000 = 0" by (simp add: demo_net_def mem32_def le32_def)
    then show ?thesis by (simp add: keeps_packet_def data_cmds_def split: option.split)
  qed
  ultimately show ?thesis
    using answer_packet_once [OF demo_inv _ _ _ demo_size(1), where p = "0x600" and M = quiet_mqx and AP = demo_app and d = "0x3000" and U = demo_upper]
    by (simp add: add_mset_commute)
qed

end
