(* ===== verification/Sock_Call.thy ===== *)
theory Sock_Call
  imports Sock_Event
begin

text \<open>
  The socket calls of \<^verbatim>\<open>common_src/stack_common/api_stack_offload.c\<close>. A call finds its context, marks a command as
  pending there, sends it, and waits until the event handler has taken the mark back; the event leaves the result in the
  context. A command is built in a structure on the task's stack, at \<open>stk s\<close>: 8 bytes for \<open>WMI_SOCKET_CMD\<close>, then the
  fields, aligned naturally (the structures are declared under \<open>#pragma pack(4)\<close>). Addresses of results are pointers
  into the memory.

  \<open>None\<close> is a failed assertion (a wait that times out), or an access outside of \<open>ath_sock_context[]\<close>.
\<close>

section \<open>Sending a command and waiting for its answer\<close>

abbreviation (input) COMMAND_BLOCK_TIMEOUT :: u32 where "COMMAND_BLOCK_TIMEOUT \<equiv> 960000"
abbreviation (input) E_NO_MEMORY :: u32 where "E_NO_MEMORY \<equiv> 2"

partial_function (option) wait_for_answer :: "'e sockets upper \<Rightarrow> 'e sock_os \<Rightarrow> nat \<Rightarrow> u32 \<Rightarrow> 'e net \<Rightarrow> 'e net option" where
  "wait_for_answer U OS i cmd s = (case blockForResponse U OS (sk_ptr i s) COMMAND_BLOCK_TIMEOUT RX_DIRECTION s of (result, s) \<Rightarrow>
     if result \<noteq> A_OK then None
     else if SOCK_EV_MASK_TEST cmd (sk i s) then wait_for_answer U OS i cmd s else Some s)"

definition send_command :: "'e sockets mqx \<Rightarrow> 'e sockets upper \<Rightarrow> nat \<Rightarrow> u32 \<Rightarrow> ptr \<Rightarrow> u32 \<Rightarrow> 'e net \<Rightarrow> (bool \<times> 'e net) option" where
  "send_command M U i cmd pData len s = do {
     (status, s) \<leftarrow> wmi_socket_cmd M U cmd pData len (set_sk i (SOCK_EV_MASK_SET cmd) s);
     Some (if status \<noteq> A_OK then (False, set_sk i (SOCK_EV_MASK_CLEAR cmd) s) else (True, s))}"

text \<open>Whether the command was sent and answered, and the state.\<close>

definition sock_command :: "'e sockets mqx \<Rightarrow> 'e sockets upper \<Rightarrow> 'e sock_os \<Rightarrow> nat \<Rightarrow> u32 \<Rightarrow> ptr \<Rightarrow> u32 \<Rightarrow> 'e net \<Rightarrow> (bool \<times> 'e net) option" where
  "sock_command M U OS i cmd pData len s = do {
     (sent, s) \<leftarrow> send_command M U i cmd pData len s;
     if \<not> sent then Some (False, s)
     else do {s \<leftarrow> wait_for_answer U OS i cmd s; Some (True, s)}}"

definition on_free_socket :: "u32 \<Rightarrow> 'e net \<Rightarrow> (nat \<Rightarrow> (u32 \<times> 'e net) option) \<Rightarrow> (u32 \<times> 'e net) option" where
  "on_free_socket h s f = (case find_socket_context h True s of None \<Rightarrow> Some (E_ERROR, s)
     | Some index \<Rightarrow> if isSocketBlocked (sk_ptr index s) s then Some (E_ERROR, s) else f index)"

text \<open>The fields behind the command header.\<close>

definition fields_struct :: "u8 list \<Rightarrow> 'e drv \<Rightarrow> 'e drv" where
  "fields_struct bs s = s\<lparr>mem := mem_put (mem s) (stk s + 8) bs\<rparr>"

section \<open>Opening and closing\<close>

definition getIPLength :: "u8 \<Rightarrow> u32" where
  "getIPLength version = (if version = ATH_AF_INET then 20 else if version = ATH_AF_INET6 then 40 else 0)"

definition getTransportLength :: "u8 \<Rightarrow> u32" where
  "getTransportLength proto = (if proto = SOCK_STREAM_TYPE then 20 else if proto = SOCK_DGRAM_TYPE then 8 else 0)"

definition Api_socket :: "'e sockets mqx \<Rightarrow> 'e sockets upper \<Rightarrow> 'e sock_os \<Rightarrow> u32 \<Rightarrow> u32 \<Rightarrow> u32 \<Rightarrow> 'e net \<Rightarrow> (u32 \<times> 'e net) option" where
  "Api_socket M U OS dm type protocol s = (case find_socket_context EMPTY_SOCKET_CONTEXT False s of
       None \<Rightarrow> Some (E_ERROR, set_error A_SOCK_UNAVAILABLE s)
     | Some index \<Rightarrow>
         let s = set_sk index (\<lambda>c. c\<lparr>handle := SOCKET_HANDLE_PLACEHOLDER, domain := ucast dm, sock_type := ucast type\<rparr>) s;
             s = fields_struct (le32_bytes_of dm @ le32_bytes_of type @ le32_bytes_of protocol) s in do {
           (ok, s) \<leftarrow> sock_command M U OS index SOCK_OPEN (stk s) 20 s;
           Some (if \<not> ok \<or> handle (sk index s) = E_ERROR then (E_ERROR, clear_socket_context M index s)
                 else (handle (sk index s), s))})"

definition Api_shutdown :: "'e sockets mqx \<Rightarrow> 'e sockets upper \<Rightarrow> u32 \<Rightarrow> 'e net \<Rightarrow> (u32 \<times> 'e net) option" where
  "Api_shutdown M U h s = on_free_socket h s (\<lambda>index. do {
     s \<leftarrow> a_netbuf_purge_queue M U index s;
     let s = fields_struct (le32_bytes_of h) s;
     (status, s) \<leftarrow> wmi_socket_cmd M U SOCK_CLOSE (stk s) 12 s;
     if status \<noteq> A_OK then Some (E_ERROR, set_sk index (SOCK_EV_MASK_CLEAR SOCK_CLOSE) s)
     else do {
       let result = sock_result (sk index s);
       s \<leftarrow> a_netbuf_purge_queue M U index s;
       Some (result, clear_socket_context M index s)}})"

section \<open>Connections\<close>

text \<open>The structure of connect, bind and accept: the handle, the address (from \<open>nam\<close>; the scope of an IPv6 address is
  not copied), its length.\<close>

definition addr_struct :: "u32 \<Rightarrow> ptr \<Rightarrow> u16 \<Rightarrow> u8 \<Rightarrow> 'e drv \<Rightarrow> 'e drv" where
  "addr_struct h nam len dm s = (
     let m = mem_put (mem s) (stk s + 8) (le32_bytes_of h);
         m = mem_put m (stk s + 40) (le16_bytes_of len)
     in s\<lparr>mem := A_MEMCPY m (stk s + 12) nam (if dm = ATH_AF_INET then 8 else 24)\<rparr>)"

definition Api_connect :: "'e sockets mqx \<Rightarrow> 'e sockets upper \<Rightarrow> 'e sock_os \<Rightarrow> u32 \<Rightarrow> ptr \<Rightarrow> u16 \<Rightarrow> 'e net \<Rightarrow> (u32 \<times> 'e net) option" where
  "Api_connect M U OS h nam len s = on_free_socket h s (\<lambda>index. do {
     let s = addr_struct h nam len (domain (sk index s)) s;
     (ok, s) \<leftarrow> sock_command M U OS index SOCK_CONNECT (stk s) 44 s;
     Some (if ok then sock_result (sk index s) else E_ERROR, s)})"

text \<open>The non-blocking version does not mark the command.\<close>

definition Api_connect_nb :: "'e sockets mqx \<Rightarrow> 'e sockets upper \<Rightarrow> u32 \<Rightarrow> ptr \<Rightarrow> u16 \<Rightarrow> 'e net \<Rightarrow> (u32 \<times> 'e net) option" where
  "Api_connect_nb M U h nam len s = on_free_socket h s (\<lambda>index. do {
     let s = addr_struct h nam len (domain (sk index s)) s;
     (status, s) \<leftarrow> wmi_socket_cmd M U SOCK_CONNECT (stk s) 44 s;
     Some (if status \<noteq> A_OK then (E_ERROR, set_sk index (SOCK_EV_MASK_CLEAR SOCK_CONNECT) s) else (0, s))})"

definition Api_bind :: "'e sockets mqx \<Rightarrow> 'e sockets upper \<Rightarrow> 'e sock_os \<Rightarrow> u32 \<Rightarrow> ptr \<Rightarrow> u16 \<Rightarrow> 'e net \<Rightarrow> (u32 \<times> 'e net) option" where
  "Api_bind M U OS h nam len s = on_free_socket h s (\<lambda>index. do {
     let s = addr_struct h nam len (domain (sk index s)) s;
     (ok, s) \<leftarrow> sock_command M U OS index SOCK_BIND (stk s) 44 s;
     Some (if ok then sock_result (sk index s) else E_ERROR, s)})"

text \<open>The flag is set whatever happened before, also in the context of index -1 if the socket was not found.\<close>

definition Api_listen :: "'e sockets mqx \<Rightarrow> 'e sockets upper \<Rightarrow> u32 \<Rightarrow> u32 \<Rightarrow> 'e net \<Rightarrow> (u32 \<times> 'e net) option" where
  "Api_listen M U h backlog s = (case find_socket_context h True s of None \<Rightarrow> None
     | Some index \<Rightarrow> do {
         (result, s) \<leftarrow> (if isSocketBlocked (sk_ptr index s) s then Some (E_ERROR, s)
           else do {
             let s = fields_struct (le32_bytes_of h @ le32_bytes_of backlog) s;
             (status, s) \<leftarrow> wmi_socket_cmd M U SOCK_LISTEN (stk s) 16 s;
             Some (if status \<noteq> A_OK then E_ERROR else 0, s)});
         Some (result, set_sk index (\<lambda>c. c\<lparr>TCPCtrFlag := TCP_LISTEN\<rparr>) s)})"

text \<open>The context of an accepted connection: whether there was a free one. The peer's address is behind the handle
  in the data of the event.\<close>

definition accept_context :: "nat \<Rightarrow> ptr \<Rightarrow> 'e net \<Rightarrow> bool \<times> 'e net" where
  "accept_context index nam s = (case find_socket_context EMPTY_SOCKET_CONTEXT False s of
       None \<Rightarrow> (False, set_error A_SOCK_UNAVAILABLE s)
     | Some accept_index \<Rightarrow>
         let c = sk index s;
             s = set_sk accept_index (\<lambda>a. a\<lparr>handle := sock_result c, domain := domain c, sock_type := sock_type c\<rparr>) s
         in (True, if sock_data (sk index s) \<noteq> NULL then
               set_sk index (\<lambda>c. c\<lparr>sock_data := NULL\<rparr>) (s\<lparr>mem := A_MEMCPY (mem s) nam (sock_data (sk index s) + 4)
                 (if domain (sk index s) = ATH_AF_INET then 8 else 28)\<rparr>)
             else s))"

definition accept_struct :: "u32 \<Rightarrow> u16 \<Rightarrow> 'e drv \<Rightarrow> 'e drv" where
  "accept_struct h len s = s\<lparr>mem := mem_put (mem_put (mem s) (stk s + 8) (le32_bytes_of h)) (stk s + 40) (le16_bytes_of len)\<rparr>"

definition Api_accept :: "'e sockets mqx \<Rightarrow> 'e sockets upper \<Rightarrow> 'e sock_os \<Rightarrow> u32 \<Rightarrow> ptr \<Rightarrow> u16 \<Rightarrow> 'e net \<Rightarrow> (u32 \<times> 'e net) option" where
  "Api_accept M U OS h nam len s = on_free_socket h s (\<lambda>index. do {
     let s = accept_struct h len s;
     (ok, s) \<leftarrow> sock_command M U OS index SOCK_ACCEPT (stk s) 44 s;
     (ok, s) \<leftarrow> (if ok \<and> sock_result (sk index s) = TCP_CONNECTION_AVAILABLE then
            (let s = a_netbuf_free M U (sock_pReq (sk index s)) s
             in sock_command M U OS index SOCK_ACCEPT (stk s) 44 s)
          else Some (ok, s));
     if \<not> ok then Some (E_ERROR, s)
     else
       let (created, s) = (if sock_result (sk index s) \<noteq> E_ERROR then accept_context index nam s else (True, s));
           result = (if created then sock_result (sk index s) else E_ERROR)
       in Some (result, a_netbuf_free M U (sock_pReq (sk index s)) s)})"

definition Api_accept_ver1 :: "'e sockets mqx \<Rightarrow> 'e sockets upper \<Rightarrow> u32 \<Rightarrow> ptr \<Rightarrow> u16 \<Rightarrow> 'e net \<Rightarrow> (u32 \<times> 'e net) option" where
  "Api_accept_ver1 M U h nam len s = on_free_socket h s (\<lambda>index.
     if sock_result (sk index s) \<noteq> TCP_CONNECTION_AVAILABLE \<and> sock_data (sk index s) \<noteq> NULL then
       (case accept_context index nam s of (created, s) \<Rightarrow>
          Some (if created then (sock_result (sk index s), a_netbuf_free M U (sock_pReq (sk index s)) s) else (E_ERROR, s)))
     else do {
       let s = accept_struct h len s;
       (sent, s) \<leftarrow> send_command M U index SOCK_ACCEPT (stk s) 44 s;
       Some (if sent then 0 else E_ERROR, s)})"

section \<open>Options and errors\<close>

definition Api_errno :: "'e sockets mqx \<Rightarrow> 'e sockets upper \<Rightarrow> 'e sock_os \<Rightarrow> u32 \<Rightarrow> 'e net \<Rightarrow> (u32 \<times> 'e net) option" where
  "Api_errno M U OS h s = on_free_socket h s (\<lambda>index. do {
     let s = fields_struct (le32_bytes_of h) s;
     (ok, s) \<leftarrow> sock_command M U OS index SOCK_ERRNO (stk s) 12 s;
     Some (if ok then sock_result (sk index s) else E_ERROR, s)})"

abbreviation (input) sizeof_SOCK_OPT_T :: u32 where "sizeof_SOCK_OPT_T \<equiv> 28"

definition opt_fields :: "ptr \<Rightarrow> u32 \<Rightarrow> u32 \<Rightarrow> u32 \<Rightarrow> u32 \<Rightarrow> 'e drv \<Rightarrow> 'e drv" where
  "opt_fields p h level optname optlen s = s\<lparr>mem := mem_put (mem s) (p + 8)
     (le32_bytes_of h @ le32_bytes_of level @ le32_bytes_of optname @ le32_bytes_of optlen)\<rparr>"

text \<open>The structure is allocated; it is not freed if the command cannot be sent.\<close>

definition Api_setsockopt :: "'e sockets mqx \<Rightarrow> 'e sockets upper \<Rightarrow> 'e sock_os \<Rightarrow> u32 \<Rightarrow> u32 \<Rightarrow> u32 \<Rightarrow> ptr \<Rightarrow> u32 \<Rightarrow> 'e net \<Rightarrow> (u32 \<times> 'e net) option" where
  "Api_setsockopt M U OS h level optname optval optlen s = on_free_socket h s (\<lambda>index.
     let given = optval \<noteq> NULL \<and> optlen \<noteq> 0;
         total_length = (if given then sizeof_SOCK_OPT_T + (optlen - 1) else sizeof_SOCK_OPT_T) in
     case a_malloc M total_length s of (p, s) \<Rightarrow>
     if p = NULL then Some (E_NO_MEMORY, s)
     else do {
       let s = (if given then s\<lparr>mem := A_MEMCPY (mem s) (p + 24) optval optlen\<rparr> else s);
       let s = opt_fields p h level optname optlen s;
       (ok, s) \<leftarrow> sock_command M U OS index SOCK_SETSOCKOPT p total_length s;
       Some (if ok then let s = a_free M p s in (sock_result (sk index s), s) else (E_ERROR, s))})"

text \<open>The result, whether the event's packet is to be freed, the pointer \<open>sock_getopt\<close> (uninitialised on the early exits)
  that is freed at the end, and the state.\<close>

definition getsockopt_body :: "'e sockets mqx \<Rightarrow> 'e sockets upper \<Rightarrow> 'e sock_os \<Rightarrow> nat \<Rightarrow> u32 \<Rightarrow> u32 \<Rightarrow> u32 \<Rightarrow> ptr \<Rightarrow> u32 \<Rightarrow> 'e net \<Rightarrow>
    (u32 \<times> bool \<times> ptr \<times> 'e net) option" where
  "getsockopt_body M U OS index h level optname optval optlen s = (
     if isSocketBlocked (sk_ptr index s) s \<or> optval = NULL \<or> optlen = 0
     then Some (E_ERROR, False, uninit_u32 M (hw_env s), s)
     else
       let total_length = sizeof_SOCK_OPT_T + optlen - 1 in
       case a_malloc M total_length s of (p, s) \<Rightarrow>
       if p = NULL then Some (E_NO_MEMORY, False, p, s)
       else do {
         let s = opt_fields p h level optname optlen s;
         (ok, s) \<leftarrow> sock_command M U OS index SOCK_GETSOCKOPT p total_length s;
         if \<not> ok then Some (E_ERROR, False, p, s)
         else
           let s = (if sock_data (sk index s) \<noteq> NULL then set_sk index (\<lambda>c. c\<lparr>sock_data := NULL\<rparr>)
                 (s\<lparr>mem := A_MEMCPY (mem s) optval (sock_data (sk index s) + 24) optlen\<rparr>) else s)
           in Some (sock_result (sk index s), True, p, s)})"

definition Api_getsockopt :: "'e sockets mqx \<Rightarrow> 'e sockets upper \<Rightarrow> 'e sock_os \<Rightarrow> u32 \<Rightarrow> u32 \<Rightarrow> u32 \<Rightarrow> ptr \<Rightarrow> u32 \<Rightarrow> 'e net \<Rightarrow> (u32 \<times> 'e net) option" where
  "Api_getsockopt M U OS h level optname optval optlen s = (case find_socket_context h True s of
       None \<Rightarrow> Some (E_ERROR, a_free M (uninit_u32 M (hw_env s)) s)
     | Some index \<Rightarrow> do {
         (result, free_buf, p, s) \<leftarrow> getsockopt_body M U OS index h level optname optval optlen s;
         let s = a_free M p s;
         Some (result, if free_buf then a_netbuf_free M U (sock_pReq (sk index s)) s else s)})"

section \<open>Waiting for activity\<close>

definition Api_select :: "'e sockets mqx \<Rightarrow> 'e sockets upper \<Rightarrow> 'e sock_os \<Rightarrow> u32 \<Rightarrow> u32 \<Rightarrow> 'e net \<Rightarrow> u32 \<times> 'e net" where
  "Api_select M U OS h tv s = (case find_socket_context h True s of None \<Rightarrow> (E_SOCK_INVALID, s)
     | Some index \<Rightarrow>
         if isSocketBlocked (sk_ptr index s) s then (E_ERROR, s)
         else if holds_part (sk index s) \<or> \<not> queue_empty index s then (0, s)
         else if TCPCtrFlag (sk index s) = TCP_FIN then (E_SOCK_INVALID, clear_socket_context M index s)
         else case (if TCPCtrFlag (sk index s) = TCP_LISTEN then blockForResponse U OS (sk_ptr index s) tv RX_DIRECTION s
                    else blockForDataRx U OS (sk_ptr index s) tv RX_DIRECTION s) of (status, s) \<Rightarrow>
           if status \<noteq> A_OK then (if handle (sk index s) = 0 then E_SOCK_INVALID else E_ERROR, s)
           else if \<not> queue_empty index s \<or> sock_result (sk index s) = TCP_CONNECTION_AVAILABLE
           then (0, set_sk index (\<lambda>c. c\<lparr>sock_result := 0\<rparr>) s)
           else (E_ERROR, s))"

text \<open>The sockets of a set that have something to read, and their number; a socket with data that is closed
  counts twice.\<close>

definition scan_read :: "u32 \<Rightarrow> 'e net \<Rightarrow> u32 \<times> u32 \<Rightarrow> u32 \<times> u32" where
  "scan_read r_mask s fd_result = fold (\<lambda>index (fd, result).
     if r_mask AND push_bit index 1 \<noteq> 0 then
       let c = sk index s; bit = push_bit index 1 in
       if handle c \<noteq> 0 then
         let (fd, result) = (if \<not> queue_empty index s \<or> sock_result c = TCP_CONNECTION_AVAILABLE \<or> sock_data c \<noteq> NULL
               then (fd OR bit, result + 1) else (fd, result))
         in if TCPCtrFlag c = TCP_FIN then (fd OR bit, result + 1) else (fd, result)
       else (fd OR bit, result + 1)
     else (fd, result)) [0..<MAX_SOCKETS_SUPPORTED] fd_result"

text \<open>\<open>r_fd\<close> is the word behind the pointer, if there is one. The word behind \<open>w_fd\<close> is never read (\<open>w_mask\<close> is
  and stays 0), so the parts on transmission have no effect.\<close>

definition Api_select_ver1 :: "'e sockets upper \<Rightarrow> 'e sock_os \<Rightarrow> u32 option \<Rightarrow> u32 \<Rightarrow> 'e net \<Rightarrow> u32 \<times> u32 option \<times> 'e net" where
  "Api_select_ver1 U OS r_fd tv s = (case r_fd of None \<Rightarrow> (0, None, s)
     | Some r_mask \<Rightarrow>
         if r_mask = 0 then (0, Some 0, s)
         else case scan_read r_mask s (0, 0) of (fd, result) \<Rightarrow>
           if result \<noteq> 0 then (result, Some fd, s)
           else case blockSelect U OS tv s of (status, s) \<Rightarrow>
             if status = A_OK then (case scan_read r_mask s (fd, result) of (fd, result) \<Rightarrow> (result, Some fd, s))
             else (result, Some fd, s))"

section \<open>The entry points of the application\<close>

text \<open>Every \<open>t_\<close> function of \<^verbatim>\<open>custom_src/stack_custom/cust_api_stack_offload.c\<close> checks that the driver is there and
  the chip is up, and calls its \<open>Api_\<close> function.\<close>

definition custom_call :: "'e sockets upper \<Rightarrow> u8 \<Rightarrow> 'e net \<Rightarrow> ('e net \<Rightarrow> (u32 \<times> 'e net) option) \<Rightarrow> (u32 \<times> 'e net) option" where
  "custom_call U request s f = (if cxt_ptr s = NULL then Some (E_ERROR, s)
     else do {
       (status, s) \<leftarrow> Api_DriverAccessCheck U True request s;
       if status \<noteq> A_OK then Some (E_ERROR, s) else f s})"

definition t_socket :: "'e sockets mqx \<Rightarrow> 'e sockets upper \<Rightarrow> 'e sock_os \<Rightarrow> u32 \<Rightarrow> u32 \<Rightarrow> u32 \<Rightarrow> 'e net \<Rightarrow> (u32 \<times> 'e net) option" where
  "t_socket M U OS dm type protocol s = custom_call U ACCESS_REQUEST_IOCTL s (Api_socket M U OS dm type protocol)"

definition t_shutdown :: "'e sockets mqx \<Rightarrow> 'e sockets upper \<Rightarrow> u32 \<Rightarrow> 'e net \<Rightarrow> (u32 \<times> 'e net) option" where
  "t_shutdown M U h s = custom_call U ACCESS_REQUEST_IOCTL s (Api_shutdown M U h)"

definition t_connect :: "'e sockets mqx \<Rightarrow> 'e sockets upper \<Rightarrow> 'e sock_os \<Rightarrow> u32 \<Rightarrow> ptr \<Rightarrow> u16 \<Rightarrow> 'e net \<Rightarrow> (u32 \<times> 'e net) option" where
  "t_connect M U OS h nam len s = custom_call U ACCESS_REQUEST_IOCTL s (Api_connect M U OS h nam len)"

definition t_bind :: "'e sockets mqx \<Rightarrow> 'e sockets upper \<Rightarrow> 'e sock_os \<Rightarrow> u32 \<Rightarrow> ptr \<Rightarrow> u16 \<Rightarrow> 'e net \<Rightarrow> (u32 \<times> 'e net) option" where
  "t_bind M U OS h nam len s = custom_call U ACCESS_REQUEST_IOCTL s (Api_bind M U OS h nam len)"

definition t_listen :: "'e sockets mqx \<Rightarrow> 'e sockets upper \<Rightarrow> u32 \<Rightarrow> u32 \<Rightarrow> 'e net \<Rightarrow> (u32 \<times> 'e net) option" where
  "t_listen M U h backlog s = custom_call U ACCESS_REQUEST_IOCTL s (Api_listen M U h backlog)"

definition t_accept :: "'e sockets mqx \<Rightarrow> 'e sockets upper \<Rightarrow> 'e sock_os \<Rightarrow> u32 \<Rightarrow> ptr \<Rightarrow> u16 \<Rightarrow> 'e net \<Rightarrow> (u32 \<times> 'e net) option" where
  "t_accept M U OS h nam len s = custom_call U ACCESS_REQUEST_IOCTL s (Api_accept M U OS h nam len)"

definition t_accept_nb :: "'e sockets mqx \<Rightarrow> 'e sockets upper \<Rightarrow> u32 \<Rightarrow> ptr \<Rightarrow> u16 \<Rightarrow> 'e net \<Rightarrow> (u32 \<times> 'e net) option" where
  "t_accept_nb M U h nam len s = custom_call U ACCESS_REQUEST_IOCTL s (Api_accept_ver1 M U h nam len)"

definition t_select :: "'e sockets mqx \<Rightarrow> 'e sockets upper \<Rightarrow> 'e sock_os \<Rightarrow> u32 \<Rightarrow> u32 \<Rightarrow> 'e net \<Rightarrow> (u32 \<times> 'e net) option" where
  "t_select M U OS h tv s = custom_call U ACCESS_REQUEST_RX s (\<lambda>s. Some (Api_select M U OS h tv s))"

definition t_errno :: "'e sockets mqx \<Rightarrow> 'e sockets upper \<Rightarrow> 'e sock_os \<Rightarrow> u32 \<Rightarrow> 'e net \<Rightarrow> (u32 \<times> 'e net) option" where
  "t_errno M U OS h s = custom_call U ACCESS_REQUEST_IOCTL s (Api_errno M U OS h)"

definition t_setsockopt :: "'e sockets mqx \<Rightarrow> 'e sockets upper \<Rightarrow> 'e sock_os \<Rightarrow> u32 \<Rightarrow> u32 \<Rightarrow> u32 \<Rightarrow> ptr \<Rightarrow> u32 \<Rightarrow> 'e net \<Rightarrow> (u32 \<times> 'e net) option" where
  "t_setsockopt M U OS h level optname optval optlen s = custom_call U ACCESS_REQUEST_IOCTL s (Api_setsockopt M U OS h level optname optval optlen)"

definition t_getsockopt :: "'e sockets mqx \<Rightarrow> 'e sockets upper \<Rightarrow> 'e sock_os \<Rightarrow> u32 \<Rightarrow> u32 \<Rightarrow> u32 \<Rightarrow> ptr \<Rightarrow> u32 \<Rightarrow> 'e net \<Rightarrow> (u32 \<times> 'e net) option" where
  "t_getsockopt M U OS h level optname optval optlen s = custom_call U ACCESS_REQUEST_IOCTL s (Api_getsockopt M U OS h level optname optval optlen)"

end
