(* ===== verification/Sock_Answer.thy ===== *)
theory Sock_Answer
  imports Sock_Call
begin

text \<open>
  A blocking call returns what the target answers. What a waiting task relies on is the interface \<open>answering\<close>: the wait
  ends after the answer was stored in the context. The event handler provides it.
\<close>

section \<open>Sending leaves the sockets alone\<close>

definition os_only :: "'e net \<Rightarrow> 'e net \<Rightarrow> bool" where
  "os_only s s' \<longleftrightarrow> (\<exists>g. hw_env s' = os_env_update g (hw_env s))"

lemma os_only_env: "hw_env s' = hw_env s \<Longrightarrow> os_only s s'"
  unfolding os_only_def by (rule exI [of _ "\<lambda>x. x"]) simp

lemma os_only_trans: "os_only s t \<Longrightarrow> os_only t u \<Longrightarrow> os_only s u"
proof -
  assume "os_only s t" "os_only t u"
  then obtain g h where "hw_env t = os_env_update g (hw_env s)" "hw_env u = os_env_update h (hw_env t)" by (auto simp: os_only_def)
  then have "hw_env u = os_env_update (\<lambda>x. h (g x)) (hw_env s)" by simp
  then show ?thesis by (auto simp: os_only_def)
qed

lemma os_only_sk: "os_only s s' \<Longrightarrow> sk_ptr j s' = sk_ptr j s \<and> obj p s' = obj p s \<and> sk j s' = sk j s \<and> ptrs_ok s' = ptrs_ok s"
  by (auto simp: os_only_def sk_ptr_def obj_def sk_def ptrs_ok_def)

lemma a_malloc_os: "mem_quiet M \<Longrightarrow> a_malloc M n s = (p, s') \<Longrightarrow> os_only s s'"
proof -
  assume M: "mem_quiet M" and run: "a_malloc M n s = (p, s')"
  obtain g where "snd (snd (mem_alloc_system_zero M n (mem s) (hw_env s))) = os_env_update g (hw_env s)"
    using M unfolding mem_quiet_def by blast
  with run show ?thesis by (auto simp: a_malloc_def qosal_malloc_def os_only_def split: prod.splits if_splits)
qed

lemma a_free_os: "mem_quiet M \<Longrightarrow> os_only s (a_free M p s)"
proof -
  assume "mem_quiet M"
  then obtain g where "mem_free M p (hw_env s) = os_env_update g (hw_env s)" unfolding mem_quiet_def by blast
  then show ?thesis by (auto simp: os_only_def a_free_def qosal_free_def Let_def)
qed

lemma a_netbuf_alloc_os: "mem_quiet M \<Longrightarrow> a_netbuf_alloc M n s = (p, s') \<Longrightarrow> os_only s s'"
proof -
  assume M: "mem_quiet M" and run: "a_netbuf_alloc M n s = (p, s')"
  obtain q t where a: "a_malloc M sizeof_A_NETBUF s = (q, t)" by fastforce
  have st: "os_only s t" by (rule a_malloc_os [OF M a])
  let ?t = "set_nb q (\<lambda>_. netbuf_zero) t"
  obtain r u where b: "a_malloc M (AR6000_DATA_OFFSET + n) ?t = (r, u)" by fastforce
  have "os_only t ?t" by (rule os_only_env) (simp add: set_nb_def)
  then have su: "os_only s u" using a_malloc_os [OF M b] st os_only_trans by blast
  let ?u = "set_nb q (\<lambda>nb. nb\<lparr>bufFragment := (bufFragment nb)(0 := \<lparr>frag_length = AR6000_DATA_OFFSET + n, frag_payload = r\<rparr>)\<rparr>) u"
  have "os_only u ?u" by (rule os_only_env) (simp add: set_nb_def)
  then have s1: "os_only s ?u" "os_only s (a_free M q ?u)"
    using su os_only_trans a_free_os [OF M] by blast+
  have s2: "os_only s (set_nb q f ?u)" for f
    by (rule os_only_trans [OF s1(1) os_only_env]) (simp add: set_nb_def)
  show ?thesis using run st s1 s2 by (auto simp: a_netbuf_alloc_def a b Let_def split: if_splits)
qed

lemma free_netbuf_env: "rxPoolID (nbs s p) = 0 \<Longrightarrow> txPoolID (nbs s p) \<noteq> 0 \<Longrightarrow> a_netbuf_free M U p s = s"
  by (simp add: a_netbuf_free_def a_netbuf_free_tx_pool_def)

lemma on_nb_env: "on_nb p f s = Some s' \<Longrightarrow> hw_env s' = hw_env s"
  by (auto simp: on_nb_Some)

lemma submit_env: "Driver_SubmitTxRequest p s = Some (st, s') \<Longrightarrow> hw_env s' = hw_env s"
  by (auto simp: Driver_SubmitTxRequest_def prepare_tx_def bind_eq_Some_conv tx_enqueue_def Driver_WakeDriver_def Let_def
      set_trans_def set_nb_def dest!: on_nb_env split: prod.splits)

lemma wmi_cmd_send_env: "wmi_cmd_send M U p cmd NO_SYNC_WMIFLAG s = Some (st, s') \<Longrightarrow> hw_env s' = hw_env s \<and> st = A_OK"
  by (auto simp: wmi_cmd_send_def bind_eq_Some_conv Api_WmiTxStart_def Let_def set_trans_def set_nb_def A_ASSERT_bind_Some
      dest!: on_nb_env submit_env)

lemma wmi_socket_cmd_os:
  assumes M: "mem_quiet M" and run: "wmi_socket_cmd M U cmd p len s = Some (st, s')"
  shows "os_only s s'"
proof -
  obtain m where start: "wmi_cmd_start M U p WMI_SOCKET_CMDID (ucast len) (s\<lparr>mem := m\<rparr>) = Some (st, s')"
    using run by (auto simp: wmi_socket_cmd_def A_ASSERT_bind_Some Let_def)
  obtain q t where a: "a_netbuf_alloc M (ucast (ucast len :: u16)) (s\<lparr>mem := m\<rparr>) = (q, t)" by fastforce
  have "os_only s (s\<lparr>mem := m\<rparr>)" by (rule os_only_env) simp
  then have st: "os_only s t" using a_netbuf_alloc_os [OF M a] os_only_trans by blast
  show ?thesis
  proof (cases "q = NULL")
    case True
    with start a st show ?thesis by (simp add: wmi_cmd_start_def)
  next
    case False
    with start a obtain u where u: "wmi_cmd_send M U q WMI_SOCKET_CMDID NO_SYNC_WMIFLAG u = Some (st, s')"
      "(if (ucast len :: u16) \<noteq> 0 then do {
          s \<leftarrow> on_nb q (\<lambda>nb. a_netbuf_put nb (ucast (ucast len :: u16))) t;
          Some (s\<lparr>mem := A_MEMCPY (mem s) (a_netbuf_to_data (nbs s q)) p (ucast (ucast len :: u16))\<rparr>)}
        else Some t) = Some u"
      by (auto simp: wmi_cmd_start_def bind_eq_Some_conv)
    then have "hw_env u = hw_env t" by (auto simp: bind_eq_Some_conv split: if_splits dest!: on_nb_env)
    with wmi_cmd_send_env [OF u(1)] have "hw_env s' = hw_env t" by simp
    then show ?thesis using st os_only_trans os_only_env by blast
  qed
qed

section \<open>The interface\<close>

text \<open>A target that answers the command \<open>cmd\<close> of context \<open>i\<close>: while the state is \<open>good\<close>, a wait returns after the answer
  came in, which leaves \<open>Q\<close> in the context.\<close>

locale answering =
  fixes OS :: "'e sock_os" and i :: nat and cmd :: u32 and good :: "'e net \<Rightarrow> bool" and Q :: "ATH_SOCKET_CONTEXT \<Rightarrow> bool"
  assumes priority: "\<exists>old. task_set_priority OS n s = (old, s)"
    and good_ptrs: "good s \<Longrightarrow> ptrs_ok s \<and> i \<le> GLOBAL_SOCK_INDEX"
    and good_cust: "good s \<Longrightarrow> good (set_sk i (on_cust f) s)"
    and good_send: "good s \<Longrightarrow> os_only (set_sk i (SOCK_EV_MASK_SET cmd) s) t \<Longrightarrow> good t"
    and Q_cust: "Q (on_cust f c) = Q c"
    and wait: "good s \<Longrightarrow> SOCK_EV_MASK_TEST cmd (sk i s) \<Longrightarrow> \<exists>s'. wait_rx_event OS (sk_ptr i s) n s = (True, s')
      \<and> sk_ptr i s' = sk_ptr i s \<and> ptrs_ok s' \<and> Q (sk i s') \<and> respAvailable (cust (sk i s')) \<and> \<not> SOCK_EV_MASK_TEST cmd (sk i s')
      \<and> (\<forall>j\<le>GLOBAL_SOCK_INDEX. j \<noteq> i \<longrightarrow> sk j s' = sk j s)"
begin

lemma mask_cust [simp]: "SOCK_EV_MASK_TEST c (on_cust f x) = SOCK_EV_MASK_TEST c x"
  by (simp add: SOCK_EV_MASK_TEST_def)

lemma block_stale:
  assumes g: "good s" and resp: "respAvailable (cust (sk i s))"
  obtains s' where "blockForResponse U OS (sk_ptr i s) ms RX_DIRECTION s = (A_OK, s')" "good s'" "sk_ptr i s' = sk_ptr i s"
    "\<not> respAvailable (cust (sk i s'))" "SOCK_EV_MASK_TEST cmd (sk i s') = SOCK_EV_MASK_TEST cmd (sk i s)"
    "\<And>j. j \<le> GLOBAL_SOCK_INDEX \<Longrightarrow> j \<noteq> i \<Longrightarrow> sk j s' = sk j s"
proof -
  let ?f = "\<lambda>k. k\<lparr>respAvailable := False, blockFlag := 0\<rparr>"
  have "blockForResponse U OS (sk_ptr i s) ms RX_DIRECTION s = (A_OK, set_sk i (on_cust ?f) s)"
  proof -
    obtain o1 where p1: "task_set_priority OS 5 (set_obj (sk_ptr i s) (on_cust (blockFlag_update (\<lambda>_. 1))) s)
        = (o1, set_obj (sk_ptr i s) (on_cust (blockFlag_update (\<lambda>_. 1))) s)" using priority by blast
    let ?t = "set_obj (sk_ptr i s) (on_cust (respAvailable_update (\<lambda>_. False)))
        (set_obj (sk_ptr i s) (on_cust (blockFlag_update (\<lambda>_. 1))) s)"
    obtain o2 where p2: "task_set_priority OS o1 ?t = (o2, ?t)" using priority by blast
    have "set_obj (sk_ptr i s) (on_cust (blockFlag_update (\<lambda>_. 0))) ?t = set_sk i (on_cust ?f) s"
      by (simp add: set_sk_def set_obj_def on_env_def fun_upd_def if_distrib comp_def cong: if_cong)
    then show ?thesis using resp p1 p2 by (simp add: blockForResponse_def Let_def sk_def)
  qed
  then show thesis
    using that [of "set_sk i (on_cust ?f) s"] good_cust [OF g] good_ptrs [OF g] by (simp add: sk_set_sk)
qed

lemma block_answered:
  assumes g: "good s" and w: "SOCK_EV_MASK_TEST cmd (sk i s)" and resp: "\<not> respAvailable (cust (sk i s))"
  obtains s' where "blockForResponse U OS (sk_ptr i s) ms RX_DIRECTION s = (A_OK, s')" "Q (sk i s')"
    "\<not> SOCK_EV_MASK_TEST cmd (sk i s')" "blockFlag (cust (sk i s')) = 0" "\<And>j. j \<le> GLOBAL_SOCK_INDEX \<Longrightarrow> j \<noteq> i \<Longrightarrow> sk j s' = sk j s"
proof -
  let ?p = "sk_ptr i s"
  define u where "u = set_sk i (on_cust (\<lambda>k. k\<lparr>blockFlag := 1, rxBlock := True\<rparr>)) s"
  have u: "set_obj ?p (on_cust (rxBlock_update (\<lambda>_. True))) (set_obj ?p (on_cust (blockFlag_update (\<lambda>_. 1))) s) = u"
    by (simp add: u_def set_sk_def set_obj_def on_env_def fun_upd_def if_distrib comp_def cong: if_cong)
  have gu: "good u" "SOCK_EV_MASK_TEST cmd (sk i u)" "sk_ptr i u = ?p" using good_cust [OF g] w by (simp_all add: u_def)
  let ?ret = "block_ticks U ms"
  obtain v where v: "wait_rx_event OS ?p ?ret u = (True, v)" "sk_ptr i v = ?p" "ptrs_ok v" "Q (sk i v)" "respAvailable (cust (sk i v))"
    "\<not> SOCK_EV_MASK_TEST cmd (sk i v)" "\<And>j. j \<le> GLOBAL_SOCK_INDEX \<Longrightarrow> j \<noteq> i \<Longrightarrow> sk j v = sk j u"
    using wait [OF gu(1,2), of ?ret] gu(3) by auto
  define t where "t = set_obj ?p (on_cust (respAvailable_update (\<lambda>_. False)))
      (set_obj ?p (on_cust (rxBlock_update (\<lambda>_. False))) (set_obj ?p (on_cust (sockRxWakeEvent_update (\<lambda>_. False))) v))"
  obtain o1 where p1: "task_set_priority OS 5 (set_obj ?p (on_cust (blockFlag_update (\<lambda>_. 1))) s)
      = (o1, set_obj ?p (on_cust (blockFlag_update (\<lambda>_. 1))) s)" using priority by blast
  obtain o2 where p2: "task_set_priority OS o1 t = (o2, t)" using priority by blast
  define s' where "s' = set_obj ?p (on_cust (blockFlag_update (\<lambda>_. 0))) t"
  have run: "blockForResponse U OS ?p ms RX_DIRECTION s = (A_OK, s')"
    using resp v(5) p1 p2 by (simp add: blockForResponse_def Let_def sk_def v(1,2) u t_def s'_def)
  have obj: "sk i s' = on_cust (\<lambda>k. k\<lparr>sockRxWakeEvent := False, blockFlag := 0, respAvailable := False, rxBlock := False\<rparr>) (sk i v)"
    by (simp add: s'_def t_def sk_def v(2))
  have oth: "sk j s' = sk j s" if j: "j \<le> GLOBAL_SOCK_INDEX" "j \<noteq> i" for j
  proof -
    have "sk_ptr j v \<noteq> ?p"
      using v(2,3) j good_ptrs [OF g] unfolding ptrs_ok_def inj_on_def by (metis atMost_iff)
    then have "sk j s' = sk j v" by (simp add: s'_def t_def sk_def)
    also have "\<dots> = sk j u" by (rule v(7) [OF j])
    also have "\<dots> = sk j s" using good_ptrs [OF g] j by (simp add: u_def sk_set_sk)
    finally show ?thesis .
  qed
  show thesis using that [OF run] v(4,6) oth by (simp add: obj Q_cust)
qed

lemma wait_answered:
  assumes g: "good s" and w: "SOCK_EV_MASK_TEST cmd (sk i s)"
  shows "\<exists>s'. wait_for_answer U OS i cmd s = Some s' \<and> Q (sk i s') \<and> \<not> SOCK_EV_MASK_TEST cmd (sk i s')
    \<and> blockFlag (cust (sk i s')) = 0 \<and> (\<forall>j\<le>GLOBAL_SOCK_INDEX. j \<noteq> i \<longrightarrow> sk j s' = sk j s)"
proof -
  have fresh: "\<exists>s'. wait_for_answer U OS i cmd u = Some s' \<and> Q (sk i s') \<and> \<not> SOCK_EV_MASK_TEST cmd (sk i s')
      \<and> blockFlag (cust (sk i s')) = 0 \<and> (\<forall>j\<le>GLOBAL_SOCK_INDEX. j \<noteq> i \<longrightarrow> sk j s' = sk j u)"
    if "good u" "SOCK_EV_MASK_TEST cmd (sk i u)" "\<not> respAvailable (cust (sk i u))" for u
    by (rule block_answered [OF that, where U = U and ms = COMMAND_BLOCK_TIMEOUT]) (subst wait_for_answer.simps, auto)
  show ?thesis
  proof (cases "respAvailable (cust (sk i s))")
    case False
    with fresh g w show ?thesis by blast
  next
    case True
    obtain u where u: "blockForResponse U OS (sk_ptr i s) COMMAND_BLOCK_TIMEOUT RX_DIRECTION s = (A_OK, u)" "good u"
      "sk_ptr i u = sk_ptr i s" "\<not> respAvailable (cust (sk i u))" "SOCK_EV_MASK_TEST cmd (sk i u) = SOCK_EV_MASK_TEST cmd (sk i s)"
      "\<And>j. j \<le> GLOBAL_SOCK_INDEX \<Longrightarrow> j \<noteq> i \<Longrightarrow> sk j u = sk j s"
      by (rule block_stale [OF g True, where U = U and ms = COMMAND_BLOCK_TIMEOUT]) (rule that; assumption)
    then have "wait_for_answer U OS i cmd s = wait_for_answer U OS i cmd u"
      using w by (subst wait_for_answer.simps) simp
    with fresh [OF u(2)] u w show ?thesis by auto
  qed
qed

lemma command_answered:
  assumes g: "good s" and M: "mem_quiet M"
    and sent: "wmi_socket_cmd M U cmd pData len (set_sk i (SOCK_EV_MASK_SET cmd) s) = Some (A_OK, t)"
  shows "\<exists>s'. sock_command M U OS i cmd pData len s = Some (True, s') \<and> Q (sk i s') \<and> \<not> SOCK_EV_MASK_TEST cmd (sk i s')
    \<and> blockFlag (cust (sk i s')) = 0 \<and> (\<forall>j\<le>GLOBAL_SOCK_INDEX. j \<noteq> i \<longrightarrow> sk j s' = sk j s)"
proof -
  have os: "os_only (set_sk i (SOCK_EV_MASK_SET cmd) s) t" by (rule wmi_socket_cmd_os [OF M sent])
  note t = os_only_sk [OF os]
  have "SOCK_EV_MASK_TEST cmd (sk i t)" using t by simp
  from wait_answered [OF good_send [OF g os] this, of U] obtain s' where "wait_for_answer U OS i cmd t = Some s'" "Q (sk i s')"
    "\<not> SOCK_EV_MASK_TEST cmd (sk i s')" "blockFlag (cust (sk i s')) = 0" "\<forall>j\<le>GLOBAL_SOCK_INDEX. j \<noteq> i \<longrightarrow> sk j s' = sk j t" by blast
  moreover have "sk j t = sk j s" if "j \<le> GLOBAL_SOCK_INDEX" "j \<noteq> i" for j
    using t that good_ptrs [OF g] by (simp add: sk_set_sk)
  ultimately show ?thesis using sent by (simp add: sock_command_def send_command_def)
qed

end

section \<open>The event handler as the answer\<close>

text \<open>While the task waits, an event arrives in the packet \<open>p\<close>; its data at \<open>d\<close> name the command, the handle and
  the result.\<close>

definition event_packet :: "u32 \<Rightarrow> u32 \<Rightarrow> u32 \<Rightarrow> ptr \<Rightarrow> ptr \<Rightarrow> 'e net \<Rightarrow> 'e net" where
  "event_packet cmd h v d p s = (set_nb p (\<lambda>nb. nb\<lparr>rxPoolID := 1\<rparr>) s)
     \<lparr>mem := mem_put (mem s) d (le32_bytes_of cmd @ le32_bytes_of h @ le32_bytes_of v)\<rparr>"

definition event_os :: "'e sock_app \<Rightarrow> 'e sockets mqx \<Rightarrow> 'e sockets upper \<Rightarrow> u32 \<Rightarrow> u32 \<Rightarrow> u32 \<Rightarrow> ptr \<Rightarrow> ptr \<Rightarrow> 'e sock_os" where
  "event_os AP M U cmd h v d p = \<lparr>
     wait_rx_event = (\<lambda>_ _ s. (True, snd (Api_SockResponseEventRx_impl AP M U d p (event_packet cmd h v d p s)))),
     wait_tx_event = (\<lambda>_ _ s. (False, s)), wait_select_event = (\<lambda>_ s. (False, s)), task_set_priority = (\<lambda>n s. (n, s)),
     promiscuous_cb = (\<lambda>_ s. Some s), sizeof_SOCKET_CONTEXT = 0\<rparr>"

lemma event_packet_fields:
  "mem32 (mem (event_packet cmd h v d p s)) d = cmd" "mem32 (mem (event_packet cmd h v d p s)) (d + 4) = h"
  "mem32 (mem (event_packet cmd h v d p s)) (d + 8) = v" "rxPoolID (nbs (event_packet cmd h v d p s) p) = 1"
  "hw_env (event_packet cmd h v d p s) = hw_env s"
proof -
  let ?bs = "le32_bytes_of cmd @ le32_bytes_of h @ le32_bytes_of v"
  have "mem_has (mem (event_packet cmd h v d p s)) d ?bs"
    using mem_bytes_mem_put [of ?bs "mem s" d] by (simp add: mem_has_def event_packet_def)
  then show "mem32 (mem (event_packet cmd h v d p s)) d = cmd" "mem32 (mem (event_packet cmd h v d p s)) (d + 4) = h"
    "mem32 (mem (event_packet cmd h v d p s)) (d + 8) = v"
    by (simp_all add: mem_has_le32 add.assoc)
qed (simp_all add: event_packet_def set_nb_def)

lemma addressee_env: "(\<And>j. handle (sk j t) = handle (sk j s) \<and> ssl (sk j t) = ssl (sk j s)) \<Longrightarrow> addressee cmd h t = addressee cmd h s"
  by (simp add: addressee_def find_socket_context_def find_socket_context_from_ssl_def)

lemma event_wait:
  assumes "ptrs_ok s" "addressee cmd h s = Some i" "SOCK_EV_MASK_TEST cmd (sk i s)"
  shows "\<exists>s'. wait_rx_event (event_os AP M U cmd h v d p) (sk_ptr i s) n s = (True, s')
    \<and> sk_ptr i s' = sk_ptr i s \<and> ptrs_ok s' \<and> (if cmd = SOCK_OPEN then handle (sk i s') = h else sock_result (sk i s') = v)
    \<and> respAvailable (cust (sk i s')) \<and> \<not> SOCK_EV_MASK_TEST cmd (sk i s')
    \<and> (\<forall>j\<le>GLOBAL_SOCK_INDEX. j \<noteq> i \<longrightarrow> sk j s' = sk j s)"
proof -
  let ?e = "event_packet cmd h v d p s"
  define s' where "s' = snd (Api_SockResponseEventRx_impl AP M U d p ?e)"
  note f = event_packet_fields [where cmd = cmd and h = h and v = v and d = d and p = p and s = s]
  have same: "sk j ?e = sk j s" "sk_ptr j ?e = sk_ptr j s" for j using drv_update_env [OF f(5)] by blast+
  have "ptrs_ok ?e" using assms(1) by (simp add: ptrs_ok_def same)
  moreover have "addressee cmd h ?e = Some i" using assms(2) addressee_env [of ?e s cmd h] same(1) by simp
  ultimately have e: "(if cmd = SOCK_OPEN then handle (sk i s') = h else sock_result (sk i s') = v)
      \<and> respAvailable (cust (sk i s')) \<and> (rxBlock (cust (sk i s)) \<longrightarrow> sockRxWakeEvent (cust (sk i s')))
      \<and> (\<forall>c. SOCK_EV_MASK_TEST c (sk i s') \<longleftrightarrow> c \<noteq> cmd \<and> SOCK_EV_MASK_TEST c (sk i s))
      \<and> (\<forall>j\<le>GLOBAL_SOCK_INDEX. j \<noteq> i \<longrightarrow> sk j s' = sk j s) \<and> (\<forall>j. sk_ptr j s' = sk_ptr j s)"
    using answer_effect [where s = ?e and cmd = cmd and d = d and p = p and i = i and M = M and U = U and AP = AP,
        unfolded f same, folded s'_def] assms(3) by simp
  moreover have "wait_rx_event (event_os AP M U cmd h v d p) (sk_ptr i s) n s = (True, s')" by (simp add: event_os_def s'_def)
  ultimately show ?thesis using assms(1) by (simp add: ptrs_ok_def)
qed

interpretation ev: answering "event_os AP M U cmd h v d p" i cmd "\<lambda>s. ptrs_ok s \<and> addressee cmd h s = Some i"
    "\<lambda>c. if cmd = SOCK_OPEN then handle c = h else sock_result c = v" for AP M U cmd h v d p i
proof unfold_locales
  fix s t :: "'a net" and f c n
  show "\<exists>old. task_set_priority (event_os AP M U cmd h v d p) n s = (old, s)" by (simp add: event_os_def)
  show "(if cmd = SOCK_OPEN then handle (on_cust f c) = h else sock_result (on_cust f c) = v)
      = (if cmd = SOCK_OPEN then handle c = h else sock_result c = v)" by simp
  assume g: "ptrs_ok s \<and> addressee cmd h s = Some i"
  then show "ptrs_ok s \<and> i \<le> GLOBAL_SOCK_INDEX" using addressee_index by blast
  have same: "handle (sk j (set_sk i k s)) = handle (sk j s) \<and> ssl (sk j (set_sk i k s)) = ssl (sk j s)"
    if "\<And>c. handle (k c) = handle c \<and> ssl (k c) = ssl c" for j k
    using that by (simp add: sk_def set_sk_def set_obj_def on_env_def obj_def sk_ptr_def)
  show "ptrs_ok (set_sk i (on_cust f) s) \<and> addressee cmd h (set_sk i (on_cust f) s) = Some i"
    using g addressee_env [of "set_sk i (on_cust f) s" s cmd h] same [of "on_cust f"] by simp
  show "ptrs_ok t \<and> addressee cmd h t = Some i" if "os_only (set_sk i (SOCK_EV_MASK_SET cmd) s) t"
    using os_only_sk [OF that] g addressee_env [of t s cmd h] same [of "SOCK_EV_MASK_SET cmd"] by simp
  show "\<exists>s'. wait_rx_event (event_os AP M U cmd h v d p) (sk_ptr i s) n s = (True, s')
      \<and> sk_ptr i s' = sk_ptr i s \<and> ptrs_ok s' \<and> (if cmd = SOCK_OPEN then handle (sk i s') = h else sock_result (sk i s') = v)
      \<and> respAvailable (cust (sk i s')) \<and> \<not> SOCK_EV_MASK_TEST cmd (sk i s')
      \<and> (\<forall>j\<le>GLOBAL_SOCK_INDEX. j \<noteq> i \<longrightarrow> sk j s' = sk j s)" if "SOCK_EV_MASK_TEST cmd (sk i s)"
    by (rule event_wait) (use g that in blast)+
qed

section \<open>Calls\<close>

text \<open>C4. A blocking command returns with its answer. A task marks a command in a context and sends it; when the target
  answers, \<open>sock_command\<close> returns (the wait ends), also if an old answer had not been consumed. The result of
  the event is in the context, the mark is taken back, the context is no longer blocked, and no other context changed.\<close>

theorem command_returns_answer:
  fixes M :: "'e sockets mqx" and U and AP
  assumes ok: "ptrs_ok s" and i: "addressee cmd h s = Some i" and M: "mem_quiet M"
    and sent: "wmi_socket_cmd M U cmd pData len (set_sk i (SOCK_EV_MASK_SET cmd) s) = Some (A_OK, t)"
  shows "\<exists>s'. sock_command M U (event_os AP M U cmd h v d p) i cmd pData len s = Some (True, s')
    \<and> (if cmd = SOCK_OPEN then handle (sk i s') = h else sock_result (sk i s') = v)
    \<and> \<not> SOCK_EV_MASK_TEST cmd (sk i s') \<and> blockFlag (cust (sk i s')) = 0
    \<and> (\<forall>j\<le>GLOBAL_SOCK_INDEX. j \<noteq> i \<longrightarrow> sk j s' = sk j s)"
  by (rule ev.command_answered) (use assms in blast)+

lemma fields_struct_env: "hw_env (fields_struct bs s) = hw_env s" "hw_env (addr_struct h nam len dm s) = hw_env s"
  by (simp_all add: fields_struct_def addr_struct_def Let_def)

lemma env_sk:
  assumes e: "hw_env t = hw_env s"
  shows "sk j t = sk j s" "ptrs_ok t = ptrs_ok s" "addressee cmd h t = addressee cmd h s"
proof -
  from e have "sk j t = sk j s" "sk_ptr j t = sk_ptr j s" for j using drv_update_env by blast+
  then show "sk j t = sk j s" "ptrs_ok t = ptrs_ok s" "addressee cmd h t = addressee cmd h s"
    using addressee_env [of t s cmd h] by (simp_all add: ptrs_ok_def)
qed

text \<open>The context of a socket that is being opened.\<close>

definition opened_context :: "nat \<Rightarrow> u32 \<Rightarrow> u32 \<Rightarrow> u32 \<Rightarrow> 'e net \<Rightarrow> 'e net" where
  "opened_context i dm type protocol s = fields_struct (le32_bytes_of dm @ le32_bytes_of type @ le32_bytes_of protocol)
     (set_sk i (\<lambda>c. c\<lparr>handle := SOCKET_HANDLE_PLACEHOLDER, domain := ucast dm, sock_type := ucast type\<rparr>) s)"

text \<open>C23. A new socket can be used. When the target answers \<open>SOCK_OPEN\<close> with the handle \<open>h\<close>, \<open>Api_socket\<close>
  returns \<open>h\<close>, and from then on a call with \<open>h\<close> finds the context that was free before, and finds it unblocked.
  The other contexts are as they were. (No other task opens a socket at the same time.)\<close>

theorem opened_socket_is_found:
  fixes M :: "'e sockets mqx" and U and AP
  assumes ok: "ptrs_ok s" and free: "find_socket_context EMPTY_SOCKET_CONTEXT False s = Some i"
    and alone: "\<forall>j<MAX_SOCKETS_SUPPORTED. handle (sk j s) \<noteq> SOCKET_HANDLE_PLACEHOLDER \<and> handle (sk j s) \<noteq> h"
    and h: "h \<noteq> E_ERROR" "h \<noteq> 0" and M: "mem_quiet M"
    and sent: "wmi_socket_cmd M U SOCK_OPEN (stk s) 20 (set_sk i (SOCK_EV_MASK_SET SOCK_OPEN) (opened_context i dm type protocol s)) = Some (A_OK, t)"
  shows "\<exists>s'. Api_socket M U (event_os AP M U SOCK_OPEN h v d p) dm type protocol s = Some (h, s')
    \<and> find_socket_context h True s' = Some i \<and> blockFlag (cust (sk i s')) = 0
    \<and> (\<forall>j\<le>GLOBAL_SOCK_INDEX. j \<noteq> i \<longrightarrow> sk j s' = sk j s)"
proof -
  let ?s = "opened_context i dm type protocol s"
  have le: "i < MAX_SOCKETS_SUPPORTED" using free by (simp add: find_socket_Some)
  have env: "hw_env ?s = hw_env (set_sk i (\<lambda>c. c\<lparr>handle := SOCKET_HANDLE_PLACEHOLDER, domain := ucast dm, sock_type := ucast type\<rparr>) s)"
    by (simp add: opened_context_def fields_struct_env)
  have sk': "sk j ?s = (if j = i then (sk i s)\<lparr>handle := SOCKET_HANDLE_PLACEHOLDER, domain := ucast dm, sock_type := ucast type\<rparr> else sk j s)"
    if "j \<le> GLOBAL_SOCK_INDEX" for j
    using env_sk(1) [OF env, of j] ok le that by (simp add: sk_set_sk)
  have ok': "ptrs_ok ?s" using env_sk(2) [OF env] ok by simp
  have stk: "stk ?s = stk s" by (simp add: opened_context_def fields_struct_def set_sk_def set_obj_def on_env_def)
  have "find_socket_context SOCKET_HANDLE_PLACEHOLDER True ?s = Some i"
    unfolding find_socket_Some using le alone by (auto simp: sk')
  then have "addressee SOCK_OPEN h ?s = Some i" by (simp add: addressee_def)
  from ev.command_answered [OF conjI [OF ok' this] M sent, where Ma = M and Ua = U and AP = AP and v = v and d = d and p = p]
  obtain s' where s': "sock_command M U (event_os AP M U SOCK_OPEN h v d p) i SOCK_OPEN (stk s) 20 ?s = Some (True, s')"
    "handle (sk i s') = h" "blockFlag (cust (sk i s')) = 0" "\<forall>j\<le>GLOBAL_SOCK_INDEX. j \<noteq> i \<longrightarrow> sk j s' = sk j ?s" by auto
  have "Api_socket M U (event_os AP M U SOCK_OPEN h v d p) dm type protocol s = Some (h, s')"
    using s'(1,2) h by (simp add: Api_socket_def free Let_def stk opened_context_def [symmetric])
  moreover have "sk j s' = sk j s" if "j \<le> GLOBAL_SOCK_INDEX" "j \<noteq> i" for j using s'(4) sk' that by simp
  moreover from this have "find_socket_context h True s' = Some i"
    unfolding find_socket_Some using le s'(2) alone h(2) by auto
  ultimately show ?thesis using s'(3) by blast
qed

text \<open>Connecting reports what the target says. For a socket that exists and is not in use by another call,
  \<open>Api_connect\<close> returns the result of the target's answer; the socket keeps its handle, is unblocked and has no command
  pending from this call, and no other socket changed.\<close>

theorem connect_returns_answer:
  fixes M :: "'e sockets mqx" and U and AP
  assumes ok: "ptrs_ok s" and i: "find_socket_context h True s = Some i" and idle: "\<not> isSocketBlocked (sk_ptr i s) s" and M: "mem_quiet M"
    and sent: "wmi_socket_cmd M U SOCK_CONNECT (stk s) 44
      (set_sk i (SOCK_EV_MASK_SET SOCK_CONNECT) (addr_struct h nam len (domain (sk i s)) s)) = Some (A_OK, t)"
  shows "\<exists>s'. Api_connect M U (event_os AP M U SOCK_CONNECT h v d p) h nam len s = Some (v, s')
    \<and> blockFlag (cust (sk i s')) = 0 \<and> \<not> SOCK_EV_MASK_TEST SOCK_CONNECT (sk i s')
    \<and> (\<forall>j\<le>GLOBAL_SOCK_INDEX. j \<noteq> i \<longrightarrow> sk j s' = sk j s)"
proof -
  let ?s = "addr_struct h nam len (domain (sk i s)) s"
  note same = env_sk [OF fields_struct_env(2) [of h nam len "domain (sk i s)" s]]
  have "addressee SOCK_CONNECT h s = Some i" using i by (simp add: addressee_def)
  then have "addressee SOCK_CONNECT h ?s = Some i" unfolding same(3) .
  moreover have "ptrs_ok ?s" unfolding same(2) by (rule ok)
  ultimately have "\<exists>s'. sock_command M U (event_os AP M U SOCK_CONNECT h v d p) i SOCK_CONNECT (stk s) 44 ?s = Some (True, s')
      \<and> (if SOCK_CONNECT = SOCK_OPEN then handle (sk i s') = h else sock_result (sk i s') = v)
      \<and> \<not> SOCK_EV_MASK_TEST SOCK_CONNECT (sk i s') \<and> blockFlag (cust (sk i s')) = 0
      \<and> (\<forall>j\<le>GLOBAL_SOCK_INDEX. j \<noteq> i \<longrightarrow> sk j s' = sk j ?s)"
    by (intro ev.command_answered [OF _ M sent] conjI)
  moreover have "stk ?s = stk s" by (simp add: addr_struct_def Let_def)
  ultimately show ?thesis using i idle same(1) by (auto simp: Api_connect_def on_free_socket_def)
qed

section \<open>Concrete calls\<close>

text \<open>The state of \<open>demo_net\<close> when commands can be sent.\<close>

definition demo_ready :: "unit net" where
  "demo_ready = demo_net\<lparr>creditSize := 1500, wmiControlEp := 1, stk := 0x800\<rparr>"

lemma submits:
  assumes "6 \<le> nb_data (nbs s p) - nb_head (nbs s p)" "creditSize s \<noteq> 0"
  shows "\<exists>t. Driver_SubmitTxRequest p s = Some (A_OK, t)"
proof -
  have "\<exists>n. credits_required l (creditSize s) = Some n" for l using credits_required_returns [OF assms(2)] .
  then obtain n where "credits_required l (creditSize s) = Some (n l)" for l by metis
  with assms(1) show ?thesis
    by (simp add: Driver_SubmitTxRequest_def prepare_tx_def set_trans_def set_nb_def on_nb_def a_netbuf_push_def not_less [symmetric])
qed

lemma tx_starts:
  assumes "6 \<le> nb_data (nbs s p) - nb_head (nbs s p)" "creditSize s \<noteq> 0"
  shows "\<exists>t. Api_WmiTxStart p eid s = Some (A_OK, t)"
proof -
  let ?s = "set_trans p (\<lambda>t. t\<lparr>t_epid := eid\<rparr>) s"
  have "\<exists>t. Driver_SubmitTxRequest p ?s = Some (A_OK, t)" by (rule submits) (use assms in \<open>simp_all add: set_trans_def set_nb_def\<close>)
  then show ?thesis by (auto simp: Api_WmiTxStart_def)
qed

lemma cmd_sends:
  assumes "12 \<le> unat (nb_data (nbs s p) - nb_head (nbs s p))" "creditSize s \<noteq> 0" "p \<noteq> NULL"
  shows "\<exists>t. wmi_cmd_send M U p cmd NO_SYNC_WMIFLAG s = Some (A_OK, t)"
proof -
  let ?nb = "nbs s p"
  have room: "6 \<le> nb_data ?nb - nb_head ?nb" "6 \<le> nb_data ?nb - 6 - nb_head ?nb"
    using assms(1) by (simp add: word_le_nat_alt, unat_arith)
  let ?s = "s\<lparr>nbs := (nbs s)(p := ?nb\<lparr>nb_data := nb_data ?nb - 6\<rparr>)\<rparr>"
  have push: "on_nb p (\<lambda>nb. a_netbuf_push nb sizeof_WMI_CMD_HDR) s = Some ?s"
    using room(1) by (simp add: on_nb_def a_netbuf_push_def not_less [symmetric])
  have "\<exists>t. Api_WmiTxStart p eid (?s\<lparr>mem := m\<rparr>) = Some (A_OK, t)" for m eid
    by (rule tx_starts) (use room(2) assms(2) in simp_all)
  then obtain t where "Api_WmiTxStart p eid (?s\<lparr>mem := m\<rparr>) = Some (A_OK, t eid m)" for eid m by metis
  then show ?thesis using assms(3) by (simp add: wmi_cmd_send_def push Let_def)
qed

lemma demo_sends:
  assumes "creditSize s \<noteq> 0" "len \<in> {20, 44}"
  shows "\<exists>t. wmi_socket_cmd quiet_mqx demo_upper cmd 0x800 len s = Some (A_OK, t)"
proof -
  let ?n = "ucast (ucast len :: u16) :: u32"
  define nb where "nb = netbuf_zero\<lparr>bufFragment := (bufFragment netbuf_zero)(0 := \<lparr>frag_length = 64 + ?n, frag_payload = 0x3000\<rparr>),
     nb_head := 0x3000, nb_data := 0x3040, nb_tail := 0x3040, nb_end := 0x3000 + (64 + ?n), trans := trans_zero, txPoolID := 0, rxPoolID := 0\<rparr>"
  have a: "\<exists>u. a_netbuf_alloc quiet_mqx ?n (s\<lparr>mem := m\<rparr>) = (0x700, u) \<and> nbs u 0x700 = nb \<and> creditSize u = creditSize s" for m
    using assms(2) by (auto simp: a_netbuf_alloc_def a_malloc_def qosal_malloc_def quiet_mqx_def sizeof_A_NETBUF_def Let_def set_nb_def AR6000_DATA_OFFSET_def nb_def)
  have n: "?n \<noteq> 0" "(ucast len :: u16) \<noteq> 0" and put: "a_netbuf_put nb ?n = Some (nb\<lparr>nb_tail := 0x3040 + ?n\<rparr>)"
    using assms(2) by (auto simp: a_netbuf_put_def nb_def)
  have "\<exists>t. wmi_cmd_start quiet_mqx demo_upper 0x800 c (ucast len) (s\<lparr>mem := m\<rparr>) = Some (A_OK, t)" for m c
  proof -
    obtain u where u: "a_netbuf_alloc quiet_mqx ?n (s\<lparr>mem := m\<rparr>) = (0x700, u)" "nbs u 0x700 = nb" "creditSize u = creditSize s"
      using a by blast
    have "\<exists>t. wmi_cmd_send quiet_mqx demo_upper 0x700 c NO_SYNC_WMIFLAG (u\<lparr>nbs := (nbs u)(0x700 := nb\<lparr>nb_tail := 0x3040 + ?n\<rparr>), mem := m'\<rparr>)
        = Some (A_OK, t)" for m'
      by (rule cmd_sends) (use u(3) assms(1) in \<open>simp_all add: nb_def\<close>)
    then show ?thesis using u n put by (simp add: wmi_cmd_start_def on_nb_def)
  qed
  moreover have "\<not> len < sizeof_WMI_SOCKET_CMD" using assms(2) by auto
  ultimately show ?thesis by (simp add: wmi_socket_cmd_def Let_def)
qed

lemma demo_ready_env: "hw_env demo_ready = hw_env demo_net" "stk demo_ready = 0x800" "creditSize demo_ready = 1500"
  by (simp_all add: demo_ready_def)

lemma demo_ready_sk: "sk j demo_ready = sk j demo_net" "ptrs_ok demo_ready"
proof -
  note same = env_sk [OF demo_ready_env(1)]
  have "ptrs_ok demo_net" using demo_inv by (simp add: sock_inv_def sock_rep_def)
  then show "sk j demo_ready = sk j demo_net" "ptrs_ok demo_ready" unfolding same by simp_all
qed

lemma quiet_mqx_quiet: "mem_quiet quiet_mqx"
  by (auto simp: mem_quiet_def quiet_mqx_def intro: exI [of _ "\<lambda>x. x"])

lemma demo_ready_find: "find_socket_context 7 True demo_ready = Some 0" "find_socket_context EMPTY_SOCKET_CONTEXT False demo_ready = Some 1"
  by (simp_all add: find_socket_Some demo_ready_sk demo_sk demo_sockets_def sock_zero_def)

lemma set_sk_creditSize: "creditSize (set_sk i f s) = creditSize s"
  by (simp add: set_sk_def set_obj_def on_env_def)

theorem command_returns_answer_witness:
  "\<exists>s'. sock_command quiet_mqx demo_upper (event_os demo_app quiet_mqx demo_upper SOCK_BIND 7 5 0x4000 0x600) 0 SOCK_BIND 0x800 44 demo_ready
    = Some (True, s') \<and> sock_result (sk 0 s') = 5"
proof -
  have a: "addressee SOCK_BIND 7 demo_ready = Some 0" using demo_ready_find(1) by (simp add: addressee_def)
  obtain t where t: "wmi_socket_cmd quiet_mqx demo_upper SOCK_BIND 0x800 44 (set_sk 0 (SOCK_EV_MASK_SET SOCK_BIND) demo_ready) = Some (A_OK, t)"
    using demo_sends [of "set_sk 0 (SOCK_EV_MASK_SET SOCK_BIND) demo_ready" 44] by (auto simp: set_sk_creditSize demo_ready_env)
  from command_returns_answer [OF demo_ready_sk(2) a quiet_mqx_quiet t, where AP = demo_app and v = 5 and d = "0x4000" and p = "0x600"]
  show ?thesis by auto
qed

theorem opened_socket_is_found_witness:
  "\<exists>s'. Api_socket quiet_mqx demo_upper (event_os demo_app quiet_mqx demo_upper SOCK_OPEN 9 0 0x4000 0x600) 2 1 0 demo_ready = Some (9, s')
    \<and> find_socket_context 9 True s' = Some 1"
proof -
  let ?s = "opened_context 1 2 1 0 demo_ready"
  have "creditSize ?s = 1500" by (simp add: opened_context_def fields_struct_def set_sk_creditSize demo_ready_env)
  then obtain t where t: "wmi_socket_cmd quiet_mqx demo_upper SOCK_OPEN (stk demo_ready) 20 (set_sk 1 (SOCK_EV_MASK_SET SOCK_OPEN) ?s) = Some (A_OK, t)"
    using demo_sends [of "set_sk 1 (SOCK_EV_MASK_SET SOCK_OPEN) ?s" 20] by (auto simp: set_sk_creditSize demo_ready_env)
  have "\<forall>j<MAX_SOCKETS_SUPPORTED. handle (sk j demo_ready) \<noteq> SOCKET_HANDLE_PLACEHOLDER \<and> handle (sk j demo_ready) \<noteq> 9"
    by (simp add: demo_ready_sk demo_sk demo_sockets_def sock_zero_def)
  from opened_socket_is_found [OF demo_ready_sk(2) demo_ready_find(2) this _ _ quiet_mqx_quiet t, where AP = demo_app and v = 0 and d = "0x4000" and p = "0x600"]
  show ?thesis by auto
qed

theorem connect_returns_answer_witness:
  "\<exists>s'. Api_connect quiet_mqx demo_upper (event_os demo_app quiet_mqx demo_upper SOCK_CONNECT 7 5 0x4000 0x600) 7 0x900 8 demo_ready = Some (5, s')"
proof -
  let ?s = "addr_struct 7 0x900 8 (domain (sk 0 demo_ready)) demo_ready"
  have "creditSize ?s = 1500" by (simp add: addr_struct_def Let_def demo_ready_env)
  then obtain t where t: "wmi_socket_cmd quiet_mqx demo_upper SOCK_CONNECT (stk demo_ready) 44 (set_sk 0 (SOCK_EV_MASK_SET SOCK_CONNECT) ?s) = Some (A_OK, t)"
    using demo_sends [of "set_sk 0 (SOCK_EV_MASK_SET SOCK_CONNECT) ?s" 44] by (auto simp: set_sk_creditSize demo_ready_env)
  have "sk 0 demo_ready = sock_objs demo_sockets 1" by (simp add: demo_ready_sk demo_sk)
  then have "\<not> isSocketBlocked (sk_ptr 0 demo_ready) demo_ready"
    by (simp add: isSocketBlocked_def sk_def demo_sockets_def cust_zero_def)
  from connect_returns_answer [OF demo_ready_sk(2) demo_ready_find(1) this quiet_mqx_quiet t, where AP = demo_app and v = 5 and d = "0x4000" and p = "0x600"]
  show ?thesis by auto
qed

end
