(* ===== verification/Spec2Isabelle.thy ===== *)
theory Spec2Isabelle
  imports Wifi_Prelude Rcv_Aggr Wifi_Util Osal Netbuf Netbuf_Queue Driver_Cxt Spi_Hcd Spi_Transfer Htc_Frames
    Driver_Drop Dset_List Scan_Table Sock_Answer
begin

text \<open>
  A verification development for the host driver of the AR4100/AR400X Wi-Fi chips. The chip hangs on an
  SPI bus behind an operating system (MQX) that is not part of the repository; the driver moves packets
  between a socket layer above and the chip below, and exchanges commands and events with the
  chip's firmware.

  \<^bold>\<open>The program and its parts.\<close> One context, \<open>A_DRIVER_CONTEXT\<close>, holds the state of every layer; one task, the
  driver task, runs \<open>Driver_Main\<close> whenever it is woken up, and user tasks enter the driver through the API layer. From
  the bus upwards:

  \<^item> \<open>Wifi_Prelude\<close>: the C integer types as words, status codes, \<open>A_ASSERT\<close>, little-endian access, the flat byte
    memory and the lemmas on it.
  \<^item> \<open>Osal\<close> (\<^verbatim>\<open>custom_src/osal/osal.c\<close>, \<^verbatim>\<open>common_src/driver/driver_netbuf.c\<close>): allocation and delays on top of MQX. The calls
    of MQX are the fields of the record \<open>mqx\<close>, a parameter of the model over an arbitrary environment.
  \<^item> \<open>Netbuf\<close>, \<open>Netbuf_Queue\<close> (\<^verbatim>\<open>custom_src/driver/cust_driver_netbuf.c\<close>): packet objects with head and tail room, and
    linked queues of them. A pointer is an address; the objects are a map \<open>nbs\<close> from addresses, the bytes are in \<open>mem\<close>.
  \<^item> \<open>Driver_Cxt\<close> (\<^verbatim>\<open>common_src/include/driver_cxt.h\<close>, \<^verbatim>\<open>common_src/util/util.c\<close>): the context as the record \<open>drv\<close>, endpoint
    lookups, wake-up of tasks, the transmit and receive queues of the context.
  \<^item> \<open>Spi_Hcd\<close> (\<^verbatim>\<open>common_src/hcd/spi_hcd.c\<close>, \<^verbatim>\<open>custom_src/hw_interface/cust_spi_hcd.c\<close>): registers, DMA transfers and interrupts of
    the host controller; \<open>Spi_Registers\<close>, \<open>Spi_Steps\<close> and \<open>Spi_Transfer\<close> hold the lemmas.
  \<^item> \<open>Packet_Free\<close>: where a released packet goes. The calls that leave the modelled part upwards are the
    record \<open>upper\<close>.
  \<^item> \<open>Htc\<close> (\<^verbatim>\<open>common_src/htc/htc.c\<close>): the frame header, trailers and transmit credits of the host-target communication;
    \<open>Htc_Credits\<close> and \<open>Htc_Frames\<close> hold the lemmas.
  \<^item> \<open>Driver_TxRx\<close> (\<^verbatim>\<open>common_src/driver/driver_txrx.c\<close>), \<open>Driver_Main\<close> (\<^verbatim>\<open>common_src/driver/driver_main.c\<close>): requests, their
    completion, and the driver task; \<open>Driver_Invariant\<close>, \<open>Driver_Ready\<close>, \<open>Driver_Drop\<close> hold the lemmas. \<open>Driver_Wait\<close>: how user
    tasks wait for the driver task.
  \<^item> \<open>Wmi_Data\<close>, \<open>Wmi_Cmd\<close>, \<open>Wmi_Event\<close> (\<^verbatim>\<open>common_src/wmi/wmi.c\<close>, \<^verbatim>\<open>include/wmi.h\<close>): data headers, commands and events of
    the firmware interface; \<open>Wmi_Frames\<close> holds the lemmas on data frames.
  \<^item> \<open>Api_Complete\<close>, \<open>Api_TxStart\<close> (\<^verbatim>\<open>common_src/api_interface/api_txrx.c\<close>): the ends of a packet's way up and down.
  \<^item> \<open>Rcv_Aggr\<close> (\<^verbatim>\<open>common_src/reorder/rcv_aggr.c\<close>): receive aggregation. \<open>Wifi_Util\<close>: channels and frequencies.
  \<^item> \<open>Info_Elem\<close>, \<open>Beacon_Parse\<close> (\<^verbatim>\<open>common_src/api_interface/api_ioctl.c\<close>), \<open>Scan_Table\<close>
    (\<^verbatim>\<open>custom_src/api_interface/cust_api_wmi_rx.c\<close>): beacons are parsed, and the scan results kept.
  \<^item> \<open>Sock_Cxt\<close>, \<open>Sock_Recv\<close> (\<^verbatim>\<open>custom_src/stack_custom\<close>, \<^verbatim>\<open>common_src/stack_common\<close>): socket contexts, blocking and waking of
    the tasks that use them, and the way of a received packet to the application and back; \<open>Sock_Pool\<close>, \<open>Sock_Flow\<close> and
    \<open>Sock_Reach\<close> hold the lemmas. \<open>Sock_Event\<close>: the target's answers to socket commands. \<open>Sock_Call\<close>: the calls of the application, from
    \<open>Api_socket\<close> to \<open>Api_getsockopt\<close>, with their \<open>t_\<close> wrappers; \<open>Sock_Answer\<close>: that a call returns with its answer.
  \<^item> \<open>Dset_Store\<close>, \<open>Dset_List\<close> (\<^verbatim>\<open>common_src/storerecall/dset.c\<close>): data sets the chip keeps in host memory.

  \<^bold>\<open>Conventions.\<close> A call that ends in a failed assertion (an endless loop in this tree) is \<open>None\<close>; loops that the
  code does not bound are \<open>partial_function\<close>s or carry fuel, and the theorems that a call returns say so.
  Unsigned integers keep their width; signed ones are \<open>int\<close> where C leaves overflow undefined. A
  definition is one critical section of the mutex it runs under. The configuration is the one of
  \<^verbatim>\<open>custom_src/include/a_config.h\<close>: stack offload, access-point and P2P mode, AR400X firmware, one free queue of
  receive buffers, a little-endian host with 4-byte pointers.

  \<^bold>\<open>Interfaces.\<close> The locale \<open>packet_queue\<close> states what the driver relies on of a queue, and is interpreted on the
  linked queue and on the two queues of the context; the locale \<open>driver_invariant\<close> says what a property of the state must
  satisfy to survive every entry point of the driver, and is interpreted on the interrupt-enable register; the locale
  \<open>answering\<close> says what a waiting task relies on of the target, and is interpreted on the event handler.

  \<^bold>\<open>What is shown.\<close>
  \<^item> Bus: the shadow of the interrupt enable register agrees with the chip's register in every state the
    controller driver, and the whole driver, reaches; a transfer sends exactly the packet and its padding.
  \<^item> Credits: with reports and the counter register overlapping, every credit is counted once and the chip's
    buffers are never overrun; lost reports are recovered.
  \<^item> Frames: what the HTC, WMI and 802.3 headers put in front of a payload is taken off again; commands and
    events carry their bytes; no event leaks its receive buffer.
  \<^item> Queues and requests: the queues refine lists; the driver transmits only what it has credits for, receives
    only into buffers with room, drops data but never control packets.
  \<^item> Waiting: access is granted only to a chip that is up, and waiting ends.
  \<^item> Aggregation: in a block-ack session the frames of a traffic id are forwarded in order. (Without a session the code
    drops frames, too, which its comment excludes: \<open>aggr_disabled_drops\<close>.)
  \<^item> Scanning: the parser ends, and recovers the summary of a well-formed beacon; which lists of suites are read
    inside their element, and which are not; the table keeps the strongest networks.
  \<^item> Sockets: no receive buffer is lost or used twice in any state that deliveries, reads and returns reach; a stream
    yields its bytes in order; an answer wakes the task it is for and its packet is given back once; a blocking
    call returns with the target's answer.
  \<^item> Data sets: the table refines a finite map, both ways to list it agree, data read back is data written.

  \<^bold>\<open>Not modelled.\<close> The commands that configure the network stack of the target (addresses, DNS, HTTP, SSL, firmware
  update), which are sent and answered like the socket commands; the transmit path of the sockets above \<open>Api_DataTxStart\<close>; the
  marshalling of commands in the ioctl and application layers, and the handlers of events other than scan results and
  socket answers; the boot of the chip (BMI, diagnostic window, \<open>Driver_Init\<close>); the control of store-recall; tasks, semaphores
  and mutexes of MQX. The headers of \<^verbatim>\<open>include/AR6002\<close> are generated register maps, of which the constants that are
  used appear where they are used.
\<close>

end
